(* ===== verification/Errors.thy ===== *)
theory Errors
  imports Prelude
begin

text \<open>
  The error registry of \<^verbatim>\<open>src/canonic/exc.py\<close> and the exceptions the modelled code raises.
  An exception is a value of \<open>exn\<close>. A \<^verbatim>\<open>CanonicError\<close> keeps its class, the values its message
  interpolates (in order) and its \<^verbatim>\<open>candidates\<close> payload; the fixed words of a message are
  dropped. The \<^verbatim>\<open>ValueError\<close> subclasses of the validators keep the YAML path they concern.
\<close>

section \<open>Error codes\<close>

datatype error_code =
    UNRESOLVED
  | AMBIGUOUS
  | UNREACHABLE
  | AMBIGUOUS_JOIN_PATH
  | UNSUPPORTED_MEASURE
  | FANOUT_UNSAFE
  | GUARDRAIL_BLOCK
  | VALIDATION_FAILED
  | ASSERTION_FAILED
  | READ_ONLY_VIOLATION
  | SCHEMA_MISMATCH
  | CONNECTION_ERROR
  | CONTRADICTION
  | GENERATION_FAILED
  | STRUCTURED_OUTPUT_INVALID
  | STRUCTURED_OUTPUT_UNSUPPORTED
  | RETRIES_EXHAUSTED
  | AIR_GAPPED_VIOLATION
  | TELEMETRY_NOT_CONFIGURED
  | TELEMETRY_SEND_FAILED
  | TENANT_UNRESOLVED
  | TENANT_SCOPE_MISSING
  | TENANT_FORBIDDEN
  | TENANT_LIMIT_EXCEEDED
  | PERIOD_OPEN
  | DECOMPOSITION_INCONSISTENT
  | CAPABILITY_DISABLED

fun code_value :: "error_code \<Rightarrow> string" where
  "code_value UNRESOLVED = ''unresolved''"
| "code_value AMBIGUOUS = ''ambiguous''"
| "code_value UNREACHABLE = ''unreachable''"
| "code_value AMBIGUOUS_JOIN_PATH = ''ambiguous_join_path''"
| "code_value UNSUPPORTED_MEASURE = ''unsupported_measure''"
| "code_value FANOUT_UNSAFE = ''fanout_unsafe''"
| "code_value GUARDRAIL_BLOCK = ''guardrail_block''"
| "code_value VALIDATION_FAILED = ''validation_failed''"
| "code_value ASSERTION_FAILED = ''assertion_failed''"
| "code_value READ_ONLY_VIOLATION = ''read_only_violation''"
| "code_value SCHEMA_MISMATCH = ''schema_mismatch''"
| "code_value CONNECTION_ERROR = ''connection_error''"
| "code_value CONTRADICTION = ''contradiction''"
| "code_value GENERATION_FAILED = ''generation_failed''"
| "code_value STRUCTURED_OUTPUT_INVALID = ''structured_output_invalid''"
| "code_value STRUCTURED_OUTPUT_UNSUPPORTED = ''structured_output_unsupported''"
| "code_value RETRIES_EXHAUSTED = ''retries_exhausted''"
| "code_value AIR_GAPPED_VIOLATION = ''air_gapped_violation''"
| "code_value TELEMETRY_NOT_CONFIGURED = ''telemetry_not_configured''"
| "code_value TELEMETRY_SEND_FAILED = ''telemetry_send_failed''"
| "code_value TENANT_UNRESOLVED = ''tenant_unresolved''"
| "code_value TENANT_SCOPE_MISSING = ''tenant_scope_missing''"
| "code_value TENANT_FORBIDDEN = ''tenant_forbidden''"
| "code_value TENANT_LIMIT_EXCEEDED = ''tenant_limit_exceeded''"
| "code_value PERIOD_OPEN = ''period_open''"
| "code_value DECOMPOSITION_INCONSISTENT = ''decomposition_inconsistent''"
| "code_value CAPABILITY_DISABLED = ''capability_disabled''"

fun EXIT_CODES :: "error_code \<Rightarrow> nat" where
  "EXIT_CODES UNRESOLVED = 2"
| "EXIT_CODES AMBIGUOUS = 3"
| "EXIT_CODES UNREACHABLE = 4"
| "EXIT_CODES AMBIGUOUS_JOIN_PATH = 5"
| "EXIT_CODES UNSUPPORTED_MEASURE = 6"
| "EXIT_CODES FANOUT_UNSAFE = 7"
| "EXIT_CODES GUARDRAIL_BLOCK = 8"
| "EXIT_CODES VALIDATION_FAILED = 9"
| "EXIT_CODES ASSERTION_FAILED = 10"
| "EXIT_CODES READ_ONLY_VIOLATION = 11"
| "EXIT_CODES SCHEMA_MISMATCH = 12"
| "EXIT_CODES CONNECTION_ERROR = 13"
| "EXIT_CODES CONTRADICTION = 14"
| "EXIT_CODES GENERATION_FAILED = 15"
| "EXIT_CODES STRUCTURED_OUTPUT_INVALID = 16"
| "EXIT_CODES STRUCTURED_OUTPUT_UNSUPPORTED = 17"
| "EXIT_CODES AIR_GAPPED_VIOLATION = 18"
| "EXIT_CODES RETRIES_EXHAUSTED = 19"
| "EXIT_CODES TELEMETRY_NOT_CONFIGURED = 20"
| "EXIT_CODES TELEMETRY_SEND_FAILED = 21"
| "EXIT_CODES TENANT_UNRESOLVED = 22"
| "EXIT_CODES TENANT_SCOPE_MISSING = 23"
| "EXIT_CODES TENANT_FORBIDDEN = 24"
| "EXIT_CODES TENANT_LIMIT_EXCEEDED = 25"
| "EXIT_CODES PERIOD_OPEN = 26"
| "EXIT_CODES DECOMPOSITION_INCONSISTENT = 27"
| "EXIT_CODES CAPABILITY_DISABLED = 28"

section \<open>Exception classes\<close>

text \<open>The subclasses of \<^verbatim>\<open>CanonicError\<close>. A class that sets no \<^verbatim>\<open>code\<close> inherits its parent's.\<close>

datatype exc_class =
    Unresolved
  | Ambiguous
  | Unreachable
  | AmbiguousJoinPath
  | UnsupportedMeasure
  | FanoutUnsafe
  | GuardrailBlock
  | ValidationFailed
  | AssertionFailed
  | ReadOnlyViolation
  | SchemaMismatch
  | CapabilityNotSupportedError
  | ConnectionError
  | UnsupportedSourceVersionError
  | UnknownConnectorType
  | UnsupportedDialectError
  | ContradictionsFound
  | GenerationError
  | StructuredOutputError
  | StructuredOutputUnsupported
  | RetriesExhausted
  | AirGappedViolation
  | TelemetryNotConfigured
  | TelemetrySendError
  | TenantUnresolved
  | TenantScopeMissing
  | TenantForbidden
  | TenantLimitExceeded
  | PeriodOpen
  | DecompositionInconsistent
  | CapabilityDisabled
  | EmbeddingUnavailable
  | CredentialError
  | UnknownCredentialProvider
  | EvalDatasetError
  | SemanticSourceError
  | ContractError
  | KnowledgePageError
  | ReportError
  | PackError
  | ReportNotFound
  | KnowledgeReferenceError

fun class_code :: "exc_class \<Rightarrow> error_code option" where
  "class_code Unresolved = Some UNRESOLVED"
| "class_code Ambiguous = Some AMBIGUOUS"
| "class_code Unreachable = Some UNREACHABLE"
| "class_code AmbiguousJoinPath = Some AMBIGUOUS_JOIN_PATH"
| "class_code UnsupportedMeasure = Some UNSUPPORTED_MEASURE"
| "class_code FanoutUnsafe = Some FANOUT_UNSAFE"
| "class_code GuardrailBlock = Some GUARDRAIL_BLOCK"
| "class_code ValidationFailed = Some VALIDATION_FAILED"
| "class_code AssertionFailed = Some ASSERTION_FAILED"
| "class_code ReadOnlyViolation = Some READ_ONLY_VIOLATION"
| "class_code SchemaMismatch = Some SCHEMA_MISMATCH"
| "class_code CapabilityNotSupportedError = None"
| "class_code ConnectionError = Some CONNECTION_ERROR"
| "class_code UnsupportedSourceVersionError = Some CONNECTION_ERROR"
| "class_code UnknownConnectorType = Some CONNECTION_ERROR"
| "class_code UnsupportedDialectError = Some CONNECTION_ERROR"
| "class_code ContradictionsFound = Some CONTRADICTION"
| "class_code GenerationError = Some GENERATION_FAILED"
| "class_code StructuredOutputError = Some STRUCTURED_OUTPUT_INVALID"
| "class_code StructuredOutputUnsupported = Some STRUCTURED_OUTPUT_UNSUPPORTED"
| "class_code RetriesExhausted = Some RETRIES_EXHAUSTED"
| "class_code AirGappedViolation = Some AIR_GAPPED_VIOLATION"
| "class_code TelemetryNotConfigured = Some TELEMETRY_NOT_CONFIGURED"
| "class_code TelemetrySendError = Some TELEMETRY_SEND_FAILED"
| "class_code TenantUnresolved = Some TENANT_UNRESOLVED"
| "class_code TenantScopeMissing = Some TENANT_SCOPE_MISSING"
| "class_code TenantForbidden = Some TENANT_FORBIDDEN"
| "class_code TenantLimitExceeded = Some TENANT_LIMIT_EXCEEDED"
| "class_code PeriodOpen = Some PERIOD_OPEN"
| "class_code DecompositionInconsistent = Some DECOMPOSITION_INCONSISTENT"
| "class_code CapabilityDisabled = Some CAPABILITY_DISABLED"
| "class_code EmbeddingUnavailable = None"
| "class_code CredentialError = None"
| "class_code UnknownCredentialProvider = None"
| "class_code EvalDatasetError = Some VALIDATION_FAILED"
| "class_code SemanticSourceError = None"
| "class_code ContractError = None"
| "class_code KnowledgePageError = None"
| "class_code ReportError = None"
| "class_code PackError = None"
| "class_code ReportNotFound = Some UNRESOLVED"
| "class_code KnowledgeReferenceError = Some VALIDATION_FAILED"

datatype path_elem = PKey string | PIdx nat

datatype exn =
    CanonicError exc_class "string list" "string list" \<comment> \<open>class, message values, candidates\<close>
  | ValueError
  | OverflowError
  | KeyError
  | IndexError
  | TypeError
  | ZeroDivisionError
  | AssertionError
  | ContractValidationError "path_elem list"
  | SemanticValidationError "path_elem list"
  | InvalidTimeFormat
  | SqlglotError
  | RecursionError
  | StopIteration

type_synonym 'a res = "exn + 'a"

text \<open>Whether \<^verbatim>\<open>except ValueError\<close> and \<^verbatim>\<open>except CanonicError\<close> catch an exception.\<close>

fun is_value_error :: "exn \<Rightarrow> bool" where
  "is_value_error ValueError = True"
| "is_value_error (ContractValidationError p) = True"
| "is_value_error (SemanticValidationError p) = True"
| "is_value_error InvalidTimeFormat = True"
| "is_value_error e = False"

fun is_canonic_error :: "exn \<Rightarrow> bool" where
  "is_canonic_error (CanonicError c args cands) = True"
| "is_canonic_error e = False"

text \<open>\<^verbatim>\<open>CanonicError.exit_code\<close>\<close>

definition exit_code :: "exc_class \<Rightarrow> nat" where
  "exit_code c = (case class_code c of None \<Rightarrow> 1 | Some k \<Rightarrow> EXIT_CODES k)"

text \<open>
  \<^verbatim>\<open>error_payload\<close> of \<^verbatim>\<open>src/canonic/mcp/errors.py\<close>: the wire code, the message values, and the
  candidates when there are any.
\<close>

record payload =
  pl_code :: string
  pl_message :: "string list"
  pl_candidates :: "string list option"

definition error_payload :: "exc_class \<Rightarrow> string list \<Rightarrow> string list \<Rightarrow> payload" where
  "error_payload c args cands =
     \<lparr>pl_code = (case class_code c of None \<Rightarrow> ''internal_error'' | Some k \<Rightarrow> code_value k),
      pl_message = args,
      pl_candidates = (if cands = [] then None else Some cands)\<rparr>"

section \<open>The registry\<close>

definition all_codes :: "error_code list" where
  "all_codes = [UNRESOLVED, AMBIGUOUS, UNREACHABLE, AMBIGUOUS_JOIN_PATH, UNSUPPORTED_MEASURE, FANOUT_UNSAFE, GUARDRAIL_BLOCK, VALIDATION_FAILED, ASSERTION_FAILED, READ_ONLY_VIOLATION, SCHEMA_MISMATCH, CONNECTION_ERROR, CONTRADICTION, GENERATION_FAILED, STRUCTURED_OUTPUT_INVALID, STRUCTURED_OUTPUT_UNSUPPORTED, RETRIES_EXHAUSTED, AIR_GAPPED_VIOLATION, TELEMETRY_NOT_CONFIGURED, TELEMETRY_SEND_FAILED, TENANT_UNRESOLVED, TENANT_SCOPE_MISSING, TENANT_FORBIDDEN, TENANT_LIMIT_EXCEEDED, PERIOD_OPEN, DECOMPOSITION_INCONSISTENT, CAPABILITY_DISABLED]"

lemma all_codes_complete: "c \<in> set all_codes"
  by (cases c) (simp_all add: all_codes_def)

lemma EXIT_CODES_range: "2 \<le> EXIT_CODES c \<and> EXIT_CODES c \<le> 28"
  by (cases c) simp_all

lemma EXIT_CODES_distinct: "distinct (map EXIT_CODES all_codes)"
  by (simp add: all_codes_def)

lemma code_value_distinct: "distinct (map code_value all_codes)"
  by (simp add: all_codes_def)

lemma EXIT_CODES_inj: "EXIT_CODES c = EXIT_CODES d \<longleftrightarrow> c = d"
  using EXIT_CODES_distinct all_codes_complete [of c] all_codes_complete [of d]
  by (metis distinct_map inj_onD)

lemma code_value_inj: "code_value c = code_value d \<longleftrightarrow> c = d"
  using code_value_distinct all_codes_complete [of c] all_codes_complete [of d]
  by (metis distinct_map inj_onD)

lemma exit_code_one_iff: "exit_code c = 1 \<longleftrightarrow> class_code c = None"
  using EXIT_CODES_range [of "the (class_code c)"]
  by (auto simp: exit_code_def split: option.splits)

lemma code_value_not_internal: "code_value k \<noteq> ''internal_error''"
  by (cases k) simp_all

text \<open>
  a caller can tell two coded failures apart by exit status alone, and the exit status and
  the wire code carry the same information: for any two exception classes, equal exit codes and
  equal payload codes mean the same thing. An uncoded class exits with 1 and reports
  \<^verbatim>\<open>internal_error\<close>, which no registry code uses.
\<close>

theorem exit_code_iff_wire_code:
  "exit_code c = exit_code d \<longleftrightarrow>
   pl_code (error_payload c a x) = pl_code (error_payload d b y)"
proof -
  have "EXIT_CODES k \<noteq> 1" for k
    using EXIT_CODES_range [of k] by simp
  moreover have "1 \<noteq> EXIT_CODES k" for k
    using EXIT_CODES_range [of k] by simp
  ultimately show ?thesis
    by (cases "class_code c"; cases "class_code d")
      (simp_all add: exit_code_def error_payload_def EXIT_CODES_inj code_value_inj
        code_value_not_internal code_value_not_internal [symmetric] del: One_nat_def)
qed

end
