(* ===== verification/Calendar.thy ===== *)
theory Calendar
  imports Errors
begin

text \<open>
  The part of Python's \<^verbatim>\<open>datetime\<close> and \<^verbatim>\<open>calendar\<close> modules the sources use: proleptic Gregorian
  dates in the years 1 to 9999, their ordinals, weekdays and ISO weeks, naive date-times, and the
  errors raised outside the supported range. The lemmas show that ordinals and dates correspond
  one to one and in order, which every period computation of the program rests on.
\<close>

section \<open>Dates\<close>

datatype date = Date (d_year: int) (d_month: int) (d_day: int)

instantiation date :: linorder
begin

definition less_eq_date :: "date \<Rightarrow> date \<Rightarrow> bool" where
  "less_eq_date a b \<longleftrightarrow> (d_year a, d_month a, d_day a) \<le> (d_year b, d_month b, d_day b)"

definition less_date :: "date \<Rightarrow> date \<Rightarrow> bool" where
  "less_date a b \<longleftrightarrow> (d_year a, d_month a, d_day a) < (d_year b, d_month b, d_day b)"

instance
  by standard (auto simp: less_eq_date_def less_date_def date.expand)

end

definition leap :: "int \<Rightarrow> bool" where
  "leap y \<longleftrightarrow> y mod 4 = 0 \<and> (y mod 100 \<noteq> 0 \<or> y mod 400 = 0)"

definition days_in_month :: "int \<Rightarrow> int \<Rightarrow> int" where
  "days_in_month y m =
     (if m = 2 then (if leap y then 29 else 28)
      else if m = 4 \<or> m = 6 \<or> m = 9 \<or> m = 11 then 30 else 31)"

definition valid_date :: "date \<Rightarrow> bool" where
  "valid_date d \<longleftrightarrow> 1 \<le> d_year d \<and> d_year d \<le> 9999 \<and> 1 \<le> d_month d \<and> d_month d \<le> 12 \<and>
     1 \<le> d_day d \<and> d_day d \<le> days_in_month (d_year d) (d_month d)"

text \<open>\<^verbatim>\<open>date(y, m, d)\<close>\<close>

definition mk_date :: "int \<Rightarrow> int \<Rightarrow> int \<Rightarrow> date res" where
  "mk_date y m d = (if valid_date (Date y m d) then Inr (Date y m d) else Inl ValueError)"

definition days_before_year :: "int \<Rightarrow> int" where
  "days_before_year y = (y - 1) * 365 + (y - 1) div 4 - (y - 1) div 100 + (y - 1) div 400"

definition days_before_month :: "int \<Rightarrow> int \<Rightarrow> int" where
  "days_before_month y m = sum_list (map (days_in_month y) [1..m - 1])"

definition toordinal :: "date \<Rightarrow> int" where
  "toordinal d = days_before_year (d_year d) + days_before_month (d_year d) (d_month d) + d_day d"

definition year_length :: "int \<Rightarrow> int" where
  "year_length y = (if leap y then 366 else 365)"

lemma div_pred_step:
  assumes "0 < k"
  shows "(y::int) div k = (y - 1) div k + (if y mod k = 0 then 1 else 0)"
proof (cases "y mod k = 0")
  case True
  then have "y - 1 = k * (y div k - 1) + (k - 1)"
    using mult_div_mod_eq [of k y] by (simp add: algebra_simps)
  then have "(y - 1) div k = y div k - 1"
    by (rule int_div_pos_eq) (use assms in simp_all)
  with True show ?thesis by simp
next
  case False
  have "y - 1 = k * (y div k) + (y mod k - 1)"
    using mult_div_mod_eq [of k y] by (simp add: algebra_simps)
  then have "(y - 1) div k = y div k"
    by (rule int_div_pos_eq)
      (use False assms pos_mod_sign [OF assms, of y] pos_mod_bound [OF assms, of y] in simp_all)
  with False show ?thesis by simp
qed

lemma century_mods:
  "(y::int) mod 400 = 0 \<Longrightarrow> y mod 100 = 0" "(y::int) mod 100 = 0 \<Longrightarrow> y mod 4 = 0"
  by presburger+

lemma days_before_year_Suc: "days_before_year (y + 1) = days_before_year y + year_length y"
proof -
  have "days_before_year (y + 1) = days_before_year y + 365
      + (if y mod 4 = 0 then 1 else 0) - (if y mod 100 = 0 then 1 else 0)
      + (if y mod 400 = 0 then 1 else 0)"
    using div_pred_step [of 4 y] div_pred_step [of 100 y] div_pred_step [of 400 y]
    by (simp only: days_before_year_def add_diff_cancel_right' left_diff_distrib)
  then show ?thesis
    using century_mods [of y]
    by (cases "y mod 4 = 0"; cases "y mod 100 = 0"; cases "y mod 400 = 0")
      (simp_all add: year_length_def leap_def)
qed

lemma year_length_bounds: "365 \<le> year_length y" "year_length y \<le> 366"
  by (simp_all add: year_length_def)

lemma days_before_year_mono: "y \<le> z \<Longrightarrow> days_before_year y \<le> days_before_year z"
proof (induction z rule: int_ge_induct)
  case (step z)
  then show ?case
    using days_before_year_Suc [of z] year_length_bounds(1) [of z] by simp
qed simp

lemma days_before_year_le: "1 \<le> y \<Longrightarrow> days_before_year y \<le> 366 * (y - 1)"
proof (induction y rule: int_ge_induct)
  case base
  then show ?case by (simp add: days_before_year_def)
next
  case (step y)
  then show ?case
    using days_before_year_Suc [of y] year_length_bounds(2) [of y] by simp
qed

section \<open>From ordinals back to dates\<close>

function find_year :: "int \<Rightarrow> int \<Rightarrow> int" where
  "find_year n y = (if days_before_year (y + 1) < n then find_year n (y + 1) else y)"
  by pat_completeness auto
termination
proof (relation "measure (\<lambda>(n, y). nat (n - days_before_year (y + 1)))", goal_cases)
  case (2 n y)
  then show ?case
    using days_before_year_Suc [of "y + 1"] year_length_bounds(1) [of "y + 1"]
    by (simp add: algebra_simps)
qed simp

declare find_year.simps [simp del]

function find_month :: "int \<Rightarrow> int \<Rightarrow> int \<Rightarrow> int \<times> int" where
  "find_month y r m =
     (if m < 12 \<and> days_in_month y m < r then find_month y (r - days_in_month y m) (m + 1)
      else (m, r))"
  by pat_completeness auto
termination
  by (relation "measure (\<lambda>(y, r, m). nat (12 - m))") auto

declare find_month.simps [simp del]

definition fromordinal :: "int \<Rightarrow> date" where
  "fromordinal n =
     (let y = find_year n ((n - 1) div 366 + 1);
          (m, d) = find_month y (n - days_before_year y) 1
      in Date y m d)"

definition max_ordinal :: int where
  "max_ordinal = 3652059"

lemma find_year_spec:
  "days_before_year y < n \<Longrightarrow>
   days_before_year (find_year n y) < n \<and> n \<le> days_before_year (find_year n y + 1) \<and>
   y \<le> find_year n y"
proof (induction n y rule: find_year.induct)
  case (1 n y)
  show ?case
  proof (cases "days_before_year (y + 1) < n")
    case True
    with 1 show ?thesis by (simp add: find_year.simps [of n y])
  next
    case False
    with 1 show ?thesis by (simp add: find_year.simps [of n y])
  qed
qed

lemma days_in_month_bounds: "28 \<le> days_in_month y m" "days_in_month y m \<le> 31"
  by (simp_all add: days_in_month_def)

lemma days_before_month_1 [simp]: "days_before_month y 1 = 0"
  by (simp add: days_before_month_def)

lemma days_before_month_Suc:
  "1 \<le> m \<Longrightarrow> days_before_month y (m + 1) = days_before_month y m + days_in_month y m"
proof -
  assume "1 \<le> m"
  then have "[1..m] = [1..m - 1] @ [m]"
    using upto_rec2 [of 1 m] by simp
  then show ?thesis by (simp add: days_before_month_def)
qed

lemma days_before_month_13: "days_before_month y 13 = year_length y"
  by (simp add: days_before_month_def days_in_month_def year_length_def upto.simps)

lemma days_before_month_mono:
  assumes "1 \<le> m" and "m \<le> k"
  shows "days_before_month y m \<le> days_before_month y k"
  using assms(2,1)
proof (induction k rule: int_ge_induct)
  case (step k)
  then show ?case
    using days_before_month_Suc [of k y] days_in_month_bounds(1) [of y k] by simp
qed simp

lemma days_before_month_nonneg: "1 \<le> m \<Longrightarrow> 0 \<le> days_before_month y m"
  using days_before_month_mono [of 1 m y] by simp

lemma find_month_spec:
  assumes "1 \<le> m" and "m \<le> 12" and "1 \<le> r" and "days_before_month y m + r \<le> year_length y"
    and "find_month y r m = (m', r')"
  shows "m \<le> m' \<and> m' \<le> 12 \<and> 1 \<le> r' \<and> r' \<le> days_in_month y m' \<and>
    days_before_month y m' + r' = days_before_month y m + r"
  using assms
proof (induction y r m rule: find_month.induct)
  case (1 y r m)
  show ?case
  proof (cases "m < 12 \<and> days_in_month y m < r")
    case True
    with "1.prems"(5) have "find_month y (r - days_in_month y m) (m + 1) = (m', r')"
      by (simp add: find_month.simps [of y r m])
    with True "1.IH" "1.prems" days_before_month_Suc [of m y] show ?thesis by simp
  next
    case False
    with "1.prems"(5) have eq: "m' = m" "r' = r"
      by (simp_all add: find_month.simps [of y r m] split: if_splits)
    have "r \<le> days_in_month y m"
    proof (cases "m < 12")
      case True
      with False show ?thesis by simp
    next
      case False
      with "1.prems"(2) have "m = 12" by simp
      with "1.prems"(4) days_before_month_Suc [of 12 y] days_before_month_13 [of y]
      show ?thesis by simp
    qed
    with eq "1.prems" show ?thesis by simp
  qed
qed

lemma within_year:
  assumes "1 \<le> m" and "m \<le> 12" and "1 \<le> d" and "d \<le> days_in_month y m"
  shows "0 < days_before_month y m + d" "days_before_month y m + d \<le> year_length y"
  using assms days_before_month_nonneg [of m y] days_before_month_Suc [of m y]
    days_before_month_mono [of "m + 1" 13 y] days_before_month_13 [of y]
  by simp_all

lemma toordinal_year_bounds:
  assumes "valid_date d"
  shows "days_before_year (d_year d) < toordinal d"
    "toordinal d \<le> days_before_year (d_year d + 1)"
  using assms within_year [of "d_month d" "d_day d" "d_year d"] days_before_year_Suc [of "d_year d"]
  by (simp_all add: toordinal_def valid_date_def)

lemma toordinal_less:
  assumes "valid_date a" and "valid_date b" and "a < b"
  shows "toordinal a < toordinal b"
proof -
  consider (year) "d_year a < d_year b"
    | (month) "d_year a = d_year b" "d_month a < d_month b"
    | (day) "d_year a = d_year b" "d_month a = d_month b" "d_day a < d_day b"
    using assms(3) by (fastforce simp: less_date_def less_prod_def' )
  then show ?thesis
  proof cases
    case year
    then have "days_before_year (d_year a + 1) \<le> days_before_year (d_year b)"
      by (intro days_before_year_mono) simp
    with toordinal_year_bounds [OF assms(1)] toordinal_year_bounds [OF assms(2)]
    show ?thesis by simp
  next
    case month
    then have "days_before_month (d_year a) (d_month a + 1) \<le> days_before_month (d_year a) (d_month b)"
      using assms(1) by (intro days_before_month_mono) (simp_all add: valid_date_def)
    with month assms(1,2) days_before_month_Suc [of "d_month a" "d_year a"]
    show ?thesis by (simp add: toordinal_def valid_date_def)
  next
    case day
    then show ?thesis by (simp add: toordinal_def)
  qed
qed

lemma toordinal_less_iff:
  assumes "valid_date a" and "valid_date b"
  shows "toordinal a < toordinal b \<longleftrightarrow> a < b"
  using toordinal_less [OF assms] toordinal_less [OF assms(2,1)]
  by (metis linorder_less_linear order_less_asym order_less_irrefl)

lemma toordinal_inj:
  assumes "valid_date a" and "valid_date b" and "toordinal a = toordinal b"
  shows "a = b"
  using toordinal_less [OF assms(1,2)] toordinal_less [OF assms(2,1)] assms(3)
  by (metis linorder_less_linear order_less_irrefl)

lemma toordinal_le_iff:
  assumes "valid_date a" and "valid_date b"
  shows "toordinal a \<le> toordinal b \<longleftrightarrow> a \<le> b"
  using toordinal_less_iff [OF assms(2,1)] by (simp add: not_less [symmetric])

lemma days_before_year_10000: "days_before_year 10000 = max_ordinal"
  by (simp add: days_before_year_def max_ordinal_def)

lemma toordinal_range:
  assumes "valid_date d"
  shows "1 \<le> toordinal d" "toordinal d \<le> max_ordinal"
proof -
  have "days_before_year 1 \<le> days_before_year (d_year d)"
    and "days_before_year (d_year d + 1) \<le> days_before_year 10000"
    using assms by (auto intro!: days_before_year_mono simp: valid_date_def)
  with toordinal_year_bounds [OF assms] days_before_year_10000
  show "1 \<le> toordinal d" "toordinal d \<le> max_ordinal"
    by (simp_all add: days_before_year_def [of 1])
qed

lemma fromordinal_spec:
  assumes "1 \<le> n" and "n \<le> max_ordinal"
  shows "valid_date (fromordinal n)" "toordinal (fromordinal n) = n"
proof -
  define y0 where "y0 = (n - 1) div 366 + 1"
  define y where "y = find_year n y0"
  obtain m d where md: "find_month y (n - days_before_year y) 1 = (m, d)"
    by fastforce
  have y0: "1 \<le> y0" using assms(1) by (simp add: y0_def pos_imp_zdiv_nonneg_iff)
  have "366 * (y0 - 1) \<le> n - 1" by (simp add: y0_def)
  with days_before_year_le [OF y0] have "days_before_year y0 < n" by simp
  from find_year_spec [OF this] have ys:
    "days_before_year y < n" "n \<le> days_before_year (y + 1)" "y0 \<le> y"
    by (simp_all add: y_def)
  have y_le: "y \<le> 9999"
  proof (rule ccontr)
    assume "\<not> y \<le> 9999"
    then have "days_before_year 10000 \<le> days_before_year y"
      by (intro days_before_year_mono) simp
    with ys(1) assms(2) days_before_year_10000 show False by simp
  qed
  have ms: "1 \<le> m \<and> m \<le> 12 \<and> 1 \<le> d \<and> d \<le> days_in_month y m \<and>
      days_before_month y m + d = days_before_month y 1 + (n - days_before_year y)"
    using ys days_before_year_Suc [of y] by (intro find_month_spec [OF _ _ _ _ md]) simp_all
  have eq: "fromordinal n = Date y m d"
    using md by (simp add: fromordinal_def y_def [symmetric] y0_def [symmetric])
  show "valid_date (fromordinal n)" "toordinal (fromordinal n) = n"
    using ms y_le ys(3) y0 by (simp_all add: eq valid_date_def toordinal_def)
qed

lemma fromordinal_toordinal:
  assumes "valid_date d"
  shows "fromordinal (toordinal d) = d"
  using fromordinal_spec [OF toordinal_range [OF assms]] assms toordinal_inj by blast

section \<open>Date arithmetic\<close>

text \<open>\<^verbatim>\<open>d + timedelta(days=k)\<close>\<close>

definition add_days :: "date \<Rightarrow> int \<Rightarrow> date res" where
  "add_days d k =
     (let n = toordinal d + k
      in if 1 \<le> n \<and> n \<le> max_ordinal then Inr (fromordinal n) else Inl OverflowError)"

text \<open>\<^verbatim>\<open>d.weekday()\<close>: Monday is 0.\<close>

definition weekday :: "date \<Rightarrow> int" where
  "weekday d = (toordinal d + 6) mod 7"

lemma add_days_ok:
  assumes "add_days d k = Inr e"
  shows "valid_date e" "toordinal e = toordinal d + k"
  using assms fromordinal_spec [of "toordinal d + k"]
  by (auto simp: add_days_def Let_def split: if_splits)

lemma add_days_toordinal:
  assumes "1 \<le> toordinal d + k" and "toordinal d + k \<le> max_ordinal"
  shows "add_days d k = Inr (fromordinal (toordinal d + k))"
  using assms by (simp add: add_days_def)

lemma add_days_back:
  assumes "valid_date d" and "add_days d k = Inr e"
  shows "add_days e (- k) = Inr d"
  using add_days_ok [OF assms(2)] fromordinal_toordinal [OF assms(1)] toordinal_range [OF assms(1)]
  by (simp add: add_days_def)

lemma weekday_range: "0 \<le> weekday d" "weekday d \<le> 6"
  using pos_mod_bound [of 7 "toordinal d + 6"] by (simp_all add: weekday_def)

text \<open>The Monday on or before a date. It always exists: 1 January of the year 1 is a Monday.\<close>

definition monday_of :: "date \<Rightarrow> date" where
  "monday_of d = fromordinal (toordinal d - weekday d)"

lemma monday_ordinal_range:
  assumes "valid_date d"
  shows "1 \<le> toordinal d - weekday d" "toordinal d - weekday d \<le> max_ordinal"
proof -
  have "toordinal d + 6 = toordinal d - 1 + 7" by simp
  then have "(toordinal d + 6) mod 7 = (toordinal d - 1) mod 7"
    by (metis mod_add_self2)
  also have "\<dots> \<le> toordinal d - 1"
    using toordinal_range(1) [OF assms] by (intro zmod_le_nonneg_dividend) simp
  finally have "(toordinal d + 6) mod 7 \<le> toordinal d - 1" .
  then show "1 \<le> toordinal d - weekday d" by (simp add: weekday_def)
  show "toordinal d - weekday d \<le> max_ordinal"
    using toordinal_range(2) [OF assms] weekday_range(1) [of d] by simp
qed

lemma add_days_weekday:
  "valid_date d \<Longrightarrow> add_days d (- weekday d) = Inr (monday_of d)"
  using monday_ordinal_range [of d] by (simp add: add_days_def monday_of_def)

lemma monday_of_spec:
  assumes "valid_date d"
  shows "valid_date (monday_of d)" "toordinal (monday_of d) = toordinal d - weekday d"
    "weekday (monday_of d) = 0"
proof -
  show v: "valid_date (monday_of d)" and o: "toordinal (monday_of d) = toordinal d - weekday d"
    using fromordinal_spec [OF monday_ordinal_range [OF assms]] by (simp_all add: monday_of_def)
  show "weekday (monday_of d) = 0"
    unfolding weekday_def [of "monday_of d"] o weekday_def [of d]
    by (metis add_diff_eq diff_add_eq cancel_comm_monoid_add_class.diff_cancel mod_diff_right_eq mod_0)
qed

end
