(* ===== verification/Durations.thy ===== *)
theory Durations
  imports Calendar
begin

text \<open>
  \<^verbatim>\<open>src/canonic/semantic/duration.py\<close>: a positive whole number of one calendar unit, its text
  form, and the two date operations built on it. The two regular expressions of the parser are
  written out as the scan they perform. The period locale states what \<^verbatim>\<open>floor_date\<close> promises
  for a unit and is interpreted for every unit of a day or longer.
\<close>

section \<open>Units and durations\<close>

datatype duration_unit = MINUTE | HOUR | DAY | WEEK | MONTH | QUARTER | YEAR

definition all_units :: "duration_unit list" where
  "all_units = [MINUTE, HOUR, DAY, WEEK, MONTH, QUARTER, YEAR]"

fun unit_value :: "duration_unit \<Rightarrow> string" where
  "unit_value MINUTE = ''minute''"
| "unit_value HOUR = ''hour''"
| "unit_value DAY = ''day''"
| "unit_value WEEK = ''week''"
| "unit_value MONTH = ''month''"
| "unit_value QUARTER = ''quarter''"
| "unit_value YEAR = ''year''"

text \<open>\<^verbatim>\<open>DurationUnit(text)\<close>\<close>

definition unit_of_value :: "string \<Rightarrow> duration_unit option" where
  "unit_of_value s = find (\<lambda>u. unit_value u = s) all_units"

fun unit_months :: "duration_unit \<Rightarrow> int option" where
  "unit_months MONTH = Some 1"
| "unit_months QUARTER = Some 3"
| "unit_months YEAR = Some 12"
| "unit_months u = None"

fun rank :: "duration_unit \<Rightarrow> nat" where
  "rank MINUTE = 0"
| "rank HOUR = 1"
| "rank DAY = 2"
| "rank WEEK = 3"
| "rank MONTH = 4"
| "rank QUARTER = 5"
| "rank YEAR = 6"

datatype duration = Duration (du_count: int) (du_unit: duration_unit)

text \<open>The constructor with its \<^verbatim>\<open>__post_init__\<close> check.\<close>

definition mk_duration :: "int \<Rightarrow> duration_unit \<Rightarrow> duration res" where
  "mk_duration n u = (if n < 1 then Inl ValueError else Inr (Duration n u))"

fun SHORT_UNITS :: "char \<Rightarrow> duration_unit option" where
  "SHORT_UNITS c =
     (if c = CHR ''d'' then Some DAY else if c = CHR ''w'' then Some WEEK
      else if c = CHR ''m'' then Some MONTH else if c = CHR ''q'' then Some QUARTER
      else if c = CHR ''y'' then Some YEAR else None)"

text \<open>\<^verbatim>\<open>_SHORT\<close>: white space, digits, one unit letter, white space.\<close>

definition match_short :: "string \<Rightarrow> (string \<times> duration_unit) option" where
  "match_short s =
     (let t = lstrip s; ds = takeWhile is_digit t
      in if ds = [] then None
         else (case dropWhile is_digit t of
             [] \<Rightarrow> None
           | c # ws \<Rightarrow> (case SHORT_UNITS c of
                 None \<Rightarrow> None
               | Some u \<Rightarrow> if list_all is_space ws then Some (ds, u) else None)))"

text \<open>
  \<^verbatim>\<open>_LONG\<close>: white space, digits, white space, a lower-case word and white space. The word is
  matched lazily and followed by an optional \<^verbatim>\<open>s\<close>, so a final \<^verbatim>\<open>s\<close> of a word of two letters or
  more is left out of the group.
\<close>

definition match_long :: "string \<Rightarrow> (string \<times> string) option" where
  "match_long s =
     (let t = lstrip s; ds = takeWhile is_digit t; r = dropWhile is_digit t;
          w = takeWhile is_lower (lstrip r); ws = dropWhile is_lower (lstrip r)
      in if ds = [] \<or> takeWhile is_space r = [] \<or> w = [] \<or> \<not> list_all is_space ws then None
         else Some (ds, if 2 \<le> length w \<and> last w = CHR ''s'' then butlast w else w))"

definition parse :: "string \<Rightarrow> duration res" where
  "parse text =
     (let lowered = str_lower text
      in case match_short lowered of
           Some (ds, u) \<Rightarrow> mk_duration (int (nat_of_digits ds)) u
         | None \<Rightarrow> (case match_long lowered of
               Some (ds, w) \<Rightarrow> (case unit_of_value w of
                   Some u \<Rightarrow> mk_duration (int (nat_of_digits ds)) u
                 | None \<Rightarrow> Inl ValueError)
             | None \<Rightarrow> Inl ValueError))"

definition str_duration :: "duration \<Rightarrow> string" where
  "str_duration d =
     show_nat (nat (du_count d)) @ '' '' @ unit_value (du_unit d) @
     (if du_count d = 1 then [] else ''s'')"

definition du_months :: "duration \<Rightarrow> int option" where
  "du_months d = map_option (\<lambda>k. k * du_count d) (unit_months (du_unit d))"

definition du_days :: "duration \<Rightarrow> int option" where
  "du_days d =
     (if du_unit d = DAY then Some (du_count d)
      else if du_unit d = WEEK then Some (7 * du_count d) else None)"

definition add_to_date :: "date \<Rightarrow> duration \<Rightarrow> int \<Rightarrow> date res" where
  "add_to_date d dur sign =
     (case du_months dur of
        Some months \<Rightarrow>
          (let index = d_year d * 12 + (d_month d - 1) + sign * months;
               y = index div 12; m = index mod 12
           in mk_date y (m + 1) (min (d_day d) (days_in_month y (m + 1))))
      | None \<Rightarrow> (case du_days dur of
            None \<Rightarrow> Inl ValueError
          | Some days \<Rightarrow> add_days d (sign * days)))"

fun floor_date :: "date \<Rightarrow> duration_unit \<Rightarrow> date res" where
  "floor_date d DAY = Inr d"
| "floor_date d WEEK = add_days d (- weekday d)"
| "floor_date d MONTH = Inr (Date (d_year d) (d_month d) 1)"
| "floor_date d QUARTER = Inr (Date (d_year d) (3 * ((d_month d - 1) div 3) + 1) 1)"
| "floor_date d YEAR = Inr (Date (d_year d) 1 1)"
| "floor_date d u = Inl ValueError"

section \<open>The text form\<close>

lemma unit_of_value_value [simp]: "unit_of_value (unit_value u) = Some u"
  by (cases u) (simp_all add: unit_of_value_def all_units_def)

lemma unit_value_props:
  "unit_value u \<noteq> []" "list_all is_lower (unit_value u)" "last (unit_value u) \<noteq> CHR ''s''"
  by (cases u; simp add: is_lower_def)+

lemma takeWhile_all: "list_all P xs \<Longrightarrow> takeWhile P (xs @ ys) = xs @ takeWhile P ys"
  by (induction xs) auto

lemma dropWhile_all: "list_all P xs \<Longrightarrow> dropWhile P (xs @ ys) = dropWhile P ys"
  by (induction xs) auto

lemma lower_id: "list_all (\<lambda>c. is_digit c \<or> is_lower c \<or> c = CHR '' '') s \<Longrightarrow> str_lower s = s"
  unfolding str_lower_def
proof (induction s)
  case (Cons c s)
  have "lower_char CHR '' '' = CHR '' ''" by (simp add: lower_char_def)
  with Cons show ?case by auto
qed simp

lemma digits_list_all: "list_all is_digit (show_nat n)"
  by (auto simp: list_all_iff show_nat_digits)

lemma str_duration_lower: "0 \<le> du_count d \<Longrightarrow> str_lower (str_duration d) = str_duration d"
  by (rule lower_id)
    (use digits_list_all [of "nat (du_count d)"] unit_value_props(2) [of "du_unit d"]
      in \<open>auto simp: str_duration_def list_all_iff is_lower_def\<close>)

text \<open>What both scans see of a number followed by a blank and a word.\<close>

lemma digits_then:
  assumes "\<not> is_digit c"
  shows "lstrip (show_nat n @ c # r) = show_nat n @ c # r"
    "takeWhile is_digit (show_nat n @ c # r) = show_nat n"
    "dropWhile is_digit (show_nat n @ c # r) = c # r"
proof -
  obtain x xs where x: "show_nat n = x # xs"
    using show_nat_nonempty [of n] by (cases "show_nat n") auto
  then have "\<not> is_space x"
    using show_nat_digits [of x n] is_digit_not_space by simp
  with x show "lstrip (show_nat n @ c # r) = show_nat n @ c # r"
    by (simp add: lstrip_def)
  show "takeWhile is_digit (show_nat n @ c # r) = show_nat n"
    "dropWhile is_digit (show_nat n @ c # r) = c # r"
    using assms digits_list_all [of n] by (simp_all add: takeWhile_all dropWhile_all)
qed

lemma blank_facts: "\<not> is_digit CHR '' ''" "is_space CHR '' ''" "SHORT_UNITS CHR '' '' = None"
  by (simp_all add: is_digit_def is_space_def)

lemma match_long_str:
  assumes "list_all is_lower w" and "w \<noteq> []"
  shows "match_long (show_nat n @ '' '' @ w) =
    Some (show_nat n, if 2 \<le> length w \<and> last w = CHR ''s'' then butlast w else w)"
proof -
  obtain x xs where w: "w = x # xs" and "\<not> is_space x"
    using assms by (cases w) (auto simp: is_lower_def is_space_def Let_def)
  then have ls: "lstrip (CHR '' '' # w) = w"
    by (simp add: lstrip_def blank_facts)
  have tw: "takeWhile is_lower w = w" and dw: "dropWhile is_lower w = []"
    using assms(1) takeWhile_all [of is_lower w "[]"] dropWhile_all [of is_lower w "[]"]
    by simp_all
  show ?thesis
    using assms(2) by (simp add: match_long_def Let_def digits_then blank_facts ls tw dw)
qed

lemma match_short_str: "match_short (show_nat n @ '' '' @ w) = None"
  using digits_then [OF blank_facts(1), of n w] blank_facts by (simp add: match_short_def)

lemma parse_str_duration:
  assumes "1 \<le> du_count d"
  shows "parse (str_duration d) = Inr d"
proof -
  let ?w = "unit_value (du_unit d) @ (if du_count d = 1 then [] else ''s'')"
  have str: "str_duration d = show_nat (nat (du_count d)) @ '' '' @ ?w"
    by (simp add: str_duration_def)
  have w: "list_all is_lower ?w" "?w \<noteq> []"
    using unit_value_props [of "du_unit d"] by (simp_all add: is_lower_def)
  have group: "(if 2 \<le> length ?w \<and> last ?w = CHR ''s'' then butlast ?w else ?w) =
      unit_value (du_unit d)"
    using unit_value_props [of "du_unit d"]
    by (cases "unit_value (du_unit d)") (auto simp: butlast_append)
  have "str_lower (str_duration d) = str_duration d"
    using assms str_duration_lower by simp
  then have "parse (str_duration d) =
      mk_duration (int (nat_of_digits (show_nat (nat (du_count d))))) (du_unit d)"
    using match_short_str [of "nat (du_count d)" ?w] match_long_str [OF w, of "nat (du_count d)"]
    unfolding group str parse_def Let_def by simp
  then show ?thesis
    using assms by (simp add: mk_duration_def)
qed

lemma parse_count_pos: "parse s = Inr d \<Longrightarrow> 1 \<le> du_count d"
  by (auto simp: parse_def mk_duration_def Let_def split: option.splits prod.splits if_splits)

section \<open>Periods\<close>

text \<open>
  What a calendar unit gives its clients: every date lies in one numbered period, the numbers
  grow with the dates, and \<open>flr\<close> finds the first date of the period. The laws are those
  \<^verbatim>\<open>floor_date\<close> keeps for each unit; the lemmas are what time ranges and period checks use.
\<close>

locale period_unit =
  fixes idx :: "date \<Rightarrow> int" and flr :: "date \<Rightarrow> date"
  assumes flr_valid: "valid_date d \<Longrightarrow> valid_date (flr d)"
    and flr_le: "valid_date d \<Longrightarrow> flr d \<le> d"
    and idx_flr: "valid_date d \<Longrightarrow> idx (flr d) = idx d"
    and idx_mono: "valid_date d \<Longrightarrow> valid_date e \<Longrightarrow> d \<le> e \<Longrightarrow> idx d \<le> idx e"
    and flr_cong: "valid_date d \<Longrightarrow> valid_date e \<Longrightarrow> idx d = idx e \<Longrightarrow> flr d = flr e"
begin

lemma flr_idem: "valid_date d \<Longrightarrow> flr (flr d) = flr d"
  by (rule flr_cong) (simp_all add: flr_valid idx_flr)

lemma flr_least:
  assumes "valid_date d" and "valid_date e" and "idx e = idx d"
  shows "flr d \<le> e"
  using flr_cong [OF assms(2,1,3)] flr_le [OF assms(2)] by simp

lemma flr_mono:
  assumes "valid_date d" and "valid_date e" and "d \<le> e"
  shows "flr d \<le> flr e"
proof (cases "idx d = idx e")
  case True
  show ?thesis using flr_cong [OF assms(1,2) True] by simp
next
  case False
  have "\<not> flr e \<le> flr d"
  proof
    assume "flr e \<le> flr d"
    then have "idx e \<le> idx d"
      using idx_mono [OF flr_valid [OF assms(2)] flr_valid [OF assms(1)]]
        idx_flr [OF assms(1)] idx_flr [OF assms(2)] by simp
    with idx_mono [OF assms] False show False by simp
  qed
  then show ?thesis by simp
qed

lemma below_next_start:
  assumes "valid_date d" and "valid_date e" and "idx d < idx e"
  shows "d < flr e"
proof (rule ccontr)
  assume "\<not> d < flr e"
  then have "idx (flr e) \<le> idx d"
    using idx_mono [OF flr_valid [OF assms(2)] assms(1)] by simp
  with idx_flr [OF assms(2)] assms(3) show False by simp
qed

end

fun period_index :: "duration_unit \<Rightarrow> date \<Rightarrow> int" where
  "period_index WEEK d = (toordinal d - 1) div 7"
| "period_index MONTH d = d_year d * 12 + (d_month d - 1)"
| "period_index QUARTER d = (d_year d * 12 + (d_month d - 1)) div 3"
| "period_index YEAR d = d_year d"
| "period_index u d = toordinal d"

lemma quarter_month: "1 \<le> m \<Longrightarrow> m \<le> 12 \<Longrightarrow>
  1 \<le> 3 * ((m - 1) div 3) + 1 \<and> 3 * ((m - 1) div 3) + 1 \<le> m" for m :: int
  by presburger

lemma month_start_valid:
  "1 \<le> y \<Longrightarrow> y \<le> 9999 \<Longrightarrow> 1 \<le> m \<Longrightarrow> m \<le> 12 \<Longrightarrow> valid_date (Date y m 1)"
  using days_in_month_bounds(1) [of y m] by (simp add: valid_date_def)

lemma date_le_iff:
  "a \<le> b \<longleftrightarrow> d_year a < d_year b \<or> d_year a = d_year b \<and>
     (d_month a < d_month b \<or> d_month a = d_month b \<and> d_day a \<le> d_day b)" for a b :: date
  by (auto simp: less_eq_date_def)

lemma month_index_mono:
  assumes "valid_date d" and "valid_date e" and "d \<le> e"
  shows "d_year d * 12 + (d_month d - 1) \<le> d_year e * 12 + (d_month e - 1)"
  using assms by (auto simp: valid_date_def date_le_iff)

lemma month_index_inj:
  assumes "valid_date d" and "valid_date e"
    and "d_year d * 12 + (d_month d - 1) = d_year e * 12 + (d_month e - 1)"
  shows "d_year d = d_year e \<and> d_month d = d_month e"
proof -
  have m: "1 \<le> d_month d" "d_month d \<le> 12" "1 \<le> d_month e" "d_month e \<le> 12"
    using assms(1,2) by (simp_all add: valid_date_def)
  have "\<not> d_year d < d_year e" and "\<not> d_year e < d_year d"
    using m assms(3) by linarith+
  then have "d_year d = d_year e" by simp
  with assms(3) show ?thesis by simp
qed

lemma quarter_index_split:
  "1 \<le> m \<Longrightarrow> m \<le> 12 \<Longrightarrow> (y * 12 + (m - 1)) div 3 = y * 4 + (m - 1) div 3" for y m :: int
  by presburger

lemma quarter_index_inj:
  assumes "valid_date d" and "valid_date e" and "period_index QUARTER d = period_index QUARTER e"
  shows "d_year d = d_year e \<and> (d_month d - 1) div 3 = (d_month e - 1) div 3"
proof -
  have eq: "d_year d * 4 + (d_month d - 1) div 3 = d_year e * 4 + (d_month e - 1) div 3"
    using assms by (simp add: quarter_index_split valid_date_def)
  have "0 \<le> (d_month d - 1) div 3 \<and> (d_month d - 1) div 3 < 4"
    "0 \<le> (d_month e - 1) div 3 \<and> (d_month e - 1) div 3 < 4"
    using assms(1,2) by (auto simp: valid_date_def)
  note b = this
  have "\<not> d_year d < d_year e" and "\<not> d_year e < d_year d"
    using b eq by linarith+
  then have "d_year d = d_year e" by simp
  with eq show ?thesis by simp
qed

lemma monday_ordinal: "toordinal x - weekday x = 7 * ((toordinal x - 1) div 7) + 1"
proof -
  have "(toordinal x + 6) mod 7 = ((toordinal x - 1) + 7) mod 7"
    by (rule arg_cong [where f = "\<lambda>n. n mod 7"]) simp
  also have "\<dots> = (toordinal x - 1) mod 7"
    by (rule mod_add_self2)
  finally have "weekday x = (toordinal x - 1) mod 7"
    by (simp add: weekday_def)
  then show ?thesis
    using mult_div_mod_eq [of 7 "toordinal x - 1"] by linarith
qed

interpretation day_unit: period_unit "period_index DAY" "\<lambda>d. d"
  by unfold_locales (auto simp: toordinal_le_iff toordinal_inj)

interpretation week_unit: period_unit "period_index WEEK" monday_of
proof (unfold_locales, goal_cases)
  case (1 d)
  then show ?case by (rule monday_of_spec)
next
  case (2 d)
  then show ?case
    using monday_of_spec [OF 2] weekday_range(1) [of d] toordinal_le_iff [of "monday_of d" d] by simp
next
  case (3 d)
  then show ?case
    using monday_of_spec [OF 3] monday_ordinal [of d] by simp
next
  case (4 d e)
  then have "toordinal d - 1 \<le> toordinal e - 1"
    using toordinal_le_iff [of d e] by simp
  then show ?case by (simp add: zdiv_mono1)
next
  case (5 d e)
  then show ?case using monday_ordinal [of d] monday_ordinal [of e] by (simp add: monday_of_def)
qed

interpretation month_unit: period_unit "period_index MONTH" "\<lambda>d. Date (d_year d) (d_month d) 1"
proof (unfold_locales, goal_cases)
  case (5 d e)
  then show ?case using month_index_inj [OF 5(1,2)] by simp
qed (auto simp: month_index_mono valid_date_def date_le_iff
      intro: order_trans [OF _ days_in_month_bounds(1)])

interpretation quarter_unit: period_unit "period_index QUARTER"
  "\<lambda>d. Date (d_year d) (3 * ((d_month d - 1) div 3) + 1) 1"
proof (unfold_locales, goal_cases)
  case (1 d)
  then show ?case
    using quarter_month [of "d_month d"] by (intro month_start_valid) (simp_all add: valid_date_def)
next
  case (2 d)
  then show ?case
    using quarter_month [of "d_month d"] by (auto simp: date_le_iff valid_date_def)
next
  case (3 d)
  then show ?case by simp
next
  case (4 d e)
  then show ?case by (simp add: zdiv_mono1 month_index_mono)
next
  case (5 d e)
  then show ?case using quarter_index_inj [OF 5] by simp
qed

interpretation year_unit: period_unit "period_index YEAR" "\<lambda>d. Date (d_year d) 1 1"
  by unfold_locales (auto simp: month_start_valid valid_date_def date_le_iff days_in_month_def)

text \<open>The floor of a unit as one function, total on the units of a day or longer.\<close>

fun unit_floor :: "duration_unit \<Rightarrow> date \<Rightarrow> date" where
  "unit_floor WEEK d = monday_of d"
| "unit_floor MONTH d = Date (d_year d) (d_month d) 1"
| "unit_floor QUARTER d = Date (d_year d) (3 * ((d_month d - 1) div 3) + 1) 1"
| "unit_floor YEAR d = Date (d_year d) 1 1"
| "unit_floor u d = d"

lemma floor_date_eq:
  "valid_date d \<Longrightarrow> 2 \<le> rank u \<Longrightarrow> floor_date d u = Inr (unit_floor u d)"
  by (cases u) (simp_all add: add_days_weekday)

lemma floor_date_fine: "rank u < 2 \<Longrightarrow> floor_date d u = Inl ValueError"
  by (cases u) simp_all

lemma unit_floor_period_unit: "2 \<le> rank u \<Longrightarrow> period_unit (period_index u) (unit_floor u)"
proof (cases u)
  case DAY
  then have "unit_floor u = (\<lambda>d. d)" by (simp add: fun_eq_iff)
  with DAY show ?thesis using day_unit.period_unit_axioms by simp
next
  case WEEK
  then have "unit_floor u = monday_of" by (simp add: fun_eq_iff)
  with WEEK show ?thesis using week_unit.period_unit_axioms by simp
next
  case MONTH
  then have "unit_floor u = (\<lambda>d. Date (d_year d) (d_month d) 1)" by (simp add: fun_eq_iff)
  with MONTH show ?thesis using month_unit.period_unit_axioms by simp
next
  case QUARTER
  then have "unit_floor u = (\<lambda>d. Date (d_year d) (3 * ((d_month d - 1) div 3) + 1) 1)"
    by (simp add: fun_eq_iff)
  with QUARTER show ?thesis using quarter_unit.period_unit_axioms by simp
next
  case YEAR
  then have "unit_floor u = (\<lambda>d. Date (d_year d) 1 1)" by (simp add: fun_eq_iff)
  with YEAR show ?thesis using year_unit.period_unit_axioms by simp
qed simp_all

section \<open>Moving a date\<close>

lemma month_day_valid:
  assumes "valid_date d" and "1 \<le> y" and "y \<le> 9999" and "1 \<le> m" and "m \<le> 12"
  shows "valid_date (Date y m (min (d_day d) (days_in_month y m)))"
  using assms days_in_month_bounds(1) [of y m] by (auto simp: valid_date_def)

lemma add_to_date_months:
  assumes "valid_date d" and "du_months dur = Some k"
    and "12 \<le> period_index MONTH d + s * k" and "period_index MONTH d + s * k < 120000"
  shows "\<exists>e. add_to_date d dur s = Inr e \<and> valid_date e \<and>
    period_index MONTH e = period_index MONTH d + s * k \<and>
    d_day e = min (d_day d) (days_in_month (d_year e) (d_month e))"
proof -
  define n where "n = d_year d * 12 + (d_month d - 1) + s * k"
  have n: "12 \<le> n" "n < 120000"
    using assms(3,4) by (simp_all add: n_def)
  have split: "12 * (n div 12) + n mod 12 = n"
    by (rule mult_div_mod_eq)
  have r: "0 \<le> n mod 12" "n mod 12 < 12" by simp_all
  have y: "1 \<le> n div 12" "n div 12 \<le> 9999"
    using split r n by linarith+
  have m: "1 \<le> n mod 12 + 1" "n mod 12 + 1 \<le> 12" using r by linarith+
  note v = month_day_valid [OF assms(1) y m]
  have "add_to_date d dur s =
      mk_date (n div 12) (n mod 12 + 1) (min (d_day d) (days_in_month (n div 12) (n mod 12 + 1)))"
    by (simp add: add_to_date_def assms(2) n_def Let_def)
  then have "add_to_date d dur s =
      Inr (Date (n div 12) (n mod 12 + 1) (min (d_day d) (days_in_month (n div 12) (n mod 12 + 1))))"
    using v by (simp add: mk_date_def)
  moreover have "n div 12 * 12 + (n mod 12 + 1 - 1) = n"
    using split by linarith
  ultimately show ?thesis using v by (simp add: n_def)
qed

lemma add_to_date_months_error:
  assumes "du_months dur = Some k"
    and "period_index MONTH d + s * k < 12 \<or> 120000 \<le> period_index MONTH d + s * k"
  shows "add_to_date d dur s = Inl ValueError"
proof -
  define n where "n = d_year d * 12 + (d_month d - 1) + s * k"
  have split: "12 * (n div 12) + n mod 12 = n"
    by (rule mult_div_mod_eq)
  have r: "0 \<le> n mod 12" "n mod 12 < 12" by simp_all
  have "n < 12 \<or> 120000 \<le> n" using assms(2) by (simp add: n_def)
  then have "n div 12 < 1 \<or> 9999 < n div 12"
    using split r by linarith
  then have "\<not> valid_date (Date (n div 12) m x)" for m x
    by (auto simp: valid_date_def)
  then show ?thesis
    using assms(1) by (simp add: add_to_date_def n_def [symmetric] Let_def mk_date_def)
qed

lemma add_to_date_days:
  assumes "valid_date d" and "du_days dur = Some k"
    and "1 \<le> toordinal d + s * k" and "toordinal d + s * k \<le> max_ordinal"
  shows "\<exists>e. add_to_date d dur s = Inr e \<and> valid_date e \<and> toordinal e = toordinal d + s * k"
proof -
  have "du_months dur = None"
    using assms(2) by (cases dur; cases "du_unit dur") (auto simp: du_months_def du_days_def)
  moreover have "add_days d (s * k) = Inr (fromordinal (toordinal d + s * k))"
    using assms(3,4) by (rule add_days_toordinal)
  ultimately show ?thesis
    using add_days_ok [of d "s * k"] assms(2) by (simp add: add_to_date_def)
qed

text \<open>How many months one unit is, as the alignment of a month number.\<close>

abbreviation month_no :: "date \<Rightarrow> int" where
  "month_no d \<equiv> period_index MONTH d"

lemma month_no_range:
  assumes "valid_date d"
  shows "12 \<le> month_no d" "month_no d < 120000"
  using assms by (auto simp: valid_date_def)

lemma month_unit_aligned:
  assumes "valid_date d" and "unit_months u = Some k"
  shows "unit_floor u d = d \<longleftrightarrow> d_day d = 1 \<and> k dvd month_no d"
    and "k dvd month_no d \<Longrightarrow> month_no d = k * period_index u d"
proof -
  have m: "1 \<le> d_month d" "d_month d \<le> 12" using assms(1) by (simp_all add: valid_date_def)
  have q: "3 dvd d_year d * 12 + (d_month d - 1) \<longleftrightarrow> 3 * ((d_month d - 1) div 3) + 1 = d_month d"
    using m by presburger
  have y: "12 dvd d_year d * 12 + (d_month d - 1) \<longleftrightarrow> d_month d = 1"
    using m by presburger
  show "unit_floor u d = d \<longleftrightarrow> d_day d = 1 \<and> k dvd month_no d"
    using assms(2) q y by (cases u; cases d) auto
  show "k dvd month_no d \<Longrightarrow> month_no d = k * period_index u d"
    using assms(2) y by (cases u) auto
qed

lemma duration_months_eq: "du_months (Duration n u) = map_option (\<lambda>k. k * n) (unit_months u)"
  by (simp add: du_months_def)

lemma add_aligned_months:
  assumes d: "valid_date d" and al: "unit_floor u d = d" and k: "unit_months u = Some k"
    and fits: "add_to_date d (Duration n u) s = Inr e"
  shows "valid_date e \<and> unit_floor u e = e \<and> period_index u e = period_index u d + s * n \<and>
    add_to_date e (Duration n u) (- s) = Inr d"
proof -
  have dm: "du_months (Duration n u) = Some (k * n)"
    by (simp add: duration_months_eq k)
  have "\<not> (month_no d + s * (k * n) < 12 \<or> 120000 \<le> month_no d + s * (k * n))"
    using add_to_date_months_error [OF dm, of d s] fits by auto
  then have e: "valid_date e" "month_no e = month_no d + s * (k * n)"
    "d_day e = min (d_day d) (days_in_month (d_year e) (d_month e))"
    using add_to_date_months [OF d dm, of s] fits by auto
  have d1: "d_day d = 1" "k dvd month_no d"
    using month_unit_aligned(1) [OF d k] al by auto
  have e1: "d_day e = 1"
    using e(1,3) d1(1) days_in_month_bounds(1) [of "d_year e" "d_month e"]
    by (simp add: valid_date_def)
  have k0: "0 < k" using k by (cases u) auto
  have ke: "k dvd month_no e"
    using d1(2) unfolding e(2) by simp
  have "k * period_index u e = k * (period_index u d + s * n)"
    using month_unit_aligned(2) [OF d k d1(2)] month_unit_aligned(2) [OF e(1) k ke] e(2)
    by (simp add: algebra_simps)
  then have idx: "period_index u e = period_index u d + s * n"
    using k0 by simp
  have ret: "month_no e + - s * (k * n) = month_no d" using e(2) by simp
  obtain d' where d': "add_to_date e (Duration n u) (- s) = Inr d'" "valid_date d'"
    "month_no d' = month_no d" "d_day d' = min (d_day e) (days_in_month (d_year d') (d_month d'))"
    using add_to_date_months [OF e(1) dm, of "- s"] month_no_range [OF d] unfolding ret by auto
  have "d_day d' = 1"
    using d'(2,4) e1 days_in_month_bounds(1) [of "d_year d'" "d_month d'"]
    by (simp add: valid_date_def)
  moreover have "d_year d' = d_year d \<and> d_month d' = d_month d"
    using month_index_inj [OF d'(2) d] d'(3) by simp
  ultimately have "d' = d" using d1(1) by (simp add: date.expand)
  then show ?thesis
    using e(1) e1 ke idx d'(1) month_unit_aligned(1) [OF e(1) k] by simp
qed

lemma week_index_shift: "(t + 7 * j - 1) div 7 = (t - 1) div 7 + j" for t j :: int
proof -
  have "t + 7 * j - 1 = (t - 1) + j * 7" by simp
  then show ?thesis by (simp only: div_mult_self1)
qed

lemma monday_aligned_iff:
  assumes "valid_date d"
  shows "monday_of d = d \<longleftrightarrow> toordinal d = 7 * ((toordinal d - 1) div 7) + 1"
  using monday_of_spec [OF assms] monday_ordinal [of d] toordinal_inj [OF _ assms, of "monday_of d"]
  by auto

lemma add_aligned_days:
  assumes d: "valid_date d" and al: "unit_floor u d = d" and k: "du_days (Duration n u) = Some k"
    and fits: "add_to_date d (Duration n u) s = Inr e"
  shows "valid_date e \<and> unit_floor u e = e \<and> period_index u e = period_index u d + s * n \<and>
    add_to_date e (Duration n u) (- s) = Inr d"
proof -
  have u: "u = DAY \<and> k = n \<or> u = WEEK \<and> k = 7 * n"
    using k by (auto simp: du_days_def split: if_splits)
  then have m: "du_months (Duration n u) = None" by (auto simp: duration_months_eq)
  have ad: "add_days d (s * k) = Inr e"
    using fits k m by (simp add: add_to_date_def)
  note e = add_days_ok [OF ad]
  have "add_to_date e (Duration n u) (- s) = Inr d"
    using add_days_back [OF d ad] k m by (simp add: add_to_date_def)
  moreover have "unit_floor u e = e \<and> period_index u e = period_index u d + s * n"
    using u
  proof
    assume "u = DAY \<and> k = n"
    then show ?thesis using e(2) by simp
  next
    assume w: "u = WEEK \<and> k = 7 * n"
    then have t: "toordinal e = toordinal d + 7 * (s * n)" using e(2) by simp
    have idx: "(toordinal e - 1) div 7 = (toordinal d - 1) div 7 + s * n"
      unfolding t by (rule week_index_shift)
    have "toordinal d = 7 * ((toordinal d - 1) div 7) + 1"
      using monday_aligned_iff [OF d] al w by simp
    then have "toordinal e = 7 * ((toordinal e - 1) div 7) + 1"
      unfolding idx using t by (simp add: algebra_simps)
    then have "monday_of e = e" using monday_aligned_iff [OF e(1)] by simp
    with idx w show ?thesis by simp
  qed
  ultimately show ?thesis using e(1) by simp
qed

lemma add_aligned:
  assumes "valid_date d" and "floor_date d u = Inr d"
    and "add_to_date d (Duration n u) s = Inr e"
  shows "valid_date e \<and> floor_date e u = Inr e \<and> period_index u e = period_index u d + s * n \<and>
    add_to_date e (Duration n u) (- s) = Inr d"
proof -
  have u: "2 \<le> rank u"
    using floor_date_fine [of u d] assms(2) by (cases "rank u < 2") auto
  then have al: "unit_floor u d = d"
    using floor_date_eq [OF assms(1) u] assms(2) by simp
  have "valid_date e \<and> unit_floor u e = e \<and> period_index u e = period_index u d + s * n \<and>
    add_to_date e (Duration n u) (- s) = Inr d"
  proof (cases "unit_months u")
    case (Some k)
    show ?thesis by (rule add_aligned_months [OF assms(1) al Some assms(3)])
  next
    case None
    then obtain k where "du_days (Duration n u) = Some k"
      using u by (cases u) (auto simp: du_days_def)
    then show ?thesis by (rule add_aligned_days [OF assms(1) al _ assms(3)])
  qed
  then show ?thesis using floor_date_eq [OF _ u] by auto
qed

section \<open>Properties\<close>

text \<open>
  The canonical text of a duration reads back as the same duration, for every unit and count.
\<close>

theorem duration_text_round_trip:
  assumes "1 \<le> n"
  shows "parse (str_duration (Duration n u)) = Inr (Duration n u)"
  using parse_str_duration [of "Duration n u"] assms by simp

lemma duration_text_round_trip_witness:
  "parse (str_duration (Duration 12 MONTH)) = Inr (Duration 12 MONTH) \<and>
   str_duration (Duration 12 MONTH) = ''12 months''"
  by (rule conjI [OF duration_text_round_trip]; code_simp)

text \<open>
  \<^verbatim>\<open>floor_date\<close> returns the first day of the period that holds the day: a valid date, not
  after the day, in the same period, and before or equal to every other date of the period. It
  keeps the order of dates. For a unit finer than a day it raises.
\<close>

theorem floor_date_first_of_period:
  assumes "valid_date d"
  shows "if rank u < 2 then floor_date d u = Inl ValueError
    else \<exists>f. floor_date d u = Inr f \<and> valid_date f \<and> f \<le> d \<and>
      period_index u f = period_index u d \<and>
      (\<forall>e. valid_date e \<longrightarrow> period_index u e = period_index u d \<longrightarrow> f \<le> e) \<and>
      (\<forall>e g. valid_date e \<longrightarrow> d \<le> e \<longrightarrow> floor_date e u = Inr g \<longrightarrow> f \<le> g)"
proof (cases "rank u < 2")
  case True
  then show ?thesis by (simp add: floor_date_fine)
next
  case False
  then have u: "2 \<le> rank u" by simp
  note L = unit_floor_period_unit [OF u]
  have "floor_date e u = Inr g \<Longrightarrow> unit_floor u d \<le> g" if "valid_date e" "d \<le> e" for e g
    using period_unit.flr_mono [OF L assms that] floor_date_eq [OF that(1) u] by simp
  then show ?thesis
    using False floor_date_eq [OF assms u] period_unit.flr_valid [OF L assms]
      period_unit.flr_le [OF L assms] period_unit.idx_flr [OF L assms]
      period_unit.flr_least [OF L assms] by auto
qed

lemma floor_date_first_of_period_witness:
  "rank QUARTER \<ge> 2 \<and> (\<exists>f. floor_date (Date 2024 5 31) QUARTER = Inr f \<and> f \<le> Date 2024 5 31) \<and>
   floor_date (Date 2024 5 31) QUARTER = Inr (Date 2024 4 1)"
proof -
  have "valid_date (Date 2024 5 31)" by code_simp
  from floor_date_first_of_period [OF this, of QUARTER] show ?thesis by auto
qed

text \<open>
  from the first day of a period, \<^verbatim>\<open>add_to_date\<close> moves by exactly the number of periods
  asked for, lands on the first day of a period, and moving back by the same duration returns to
  the start. This is what makes \<^verbatim>\<open>[start, end)\<close> windows of n whole periods.
\<close>

theorem add_to_date_whole_periods:
  assumes "valid_date d" and "floor_date d u = Inr d"
    and "add_to_date d (Duration n u) s = Inr e"
  shows "valid_date e \<and> floor_date e u = Inr e \<and> period_index u e = period_index u d + s * n \<and>
    add_to_date e (Duration n u) (- s) = Inr d"
  by (rule add_aligned [OF assms])

lemma add_to_date_whole_periods_witness:
  "floor_date (Date 2024 4 1) QUARTER = Inr (Date 2024 4 1) \<and>
   add_to_date (Date 2024 4 1) (Duration 2 QUARTER) (- 1) = Inr (Date 2023 10 1) \<and>
   add_to_date (Date 2023 10 1) (Duration 2 QUARTER) 1 = Inr (Date 2024 4 1)"
proof -
  have "valid_date (Date 2024 4 1)" "floor_date (Date 2024 4 1) QUARTER = Inr (Date 2024 4 1)"
    "add_to_date (Date 2024 4 1) (Duration 2 QUARTER) (- 1) = Inr (Date 2023 10 1)"
    by code_simp+
  with add_to_date_whole_periods [OF this] show ?thesis by simp
qed

end
