(* ===== verification/Datetimes.thy ===== *)
theory Datetimes
  imports Calendar
begin

text \<open>
  The parts of Python's \<^verbatim>\<open>datetime\<close> module the time code uses beyond plain dates: naive
  datetimes as a date and the microseconds since midnight, their instants, and the ISO week
  calendar (\<^verbatim>\<open>isocalendar\<close>, \<^verbatim>\<open>fromisocalendar\<close>) with its conversion laws.
\<close>

section \<open>Naive datetimes\<close>

datatype datetime = Datetime (dt_date: date) (dt_micros: int)

instantiation datetime :: linorder
begin

definition less_eq_datetime :: "datetime \<Rightarrow> datetime \<Rightarrow> bool" where
  "less_eq_datetime a b \<longleftrightarrow> dt_date a < dt_date b \<or> dt_date a = dt_date b \<and> dt_micros a \<le> dt_micros b"

definition less_datetime :: "datetime \<Rightarrow> datetime \<Rightarrow> bool" where
  "less_datetime a b \<longleftrightarrow> dt_date a < dt_date b \<or> dt_date a = dt_date b \<and> dt_micros a < dt_micros b"

instance
  by standard (auto simp: less_eq_datetime_def less_datetime_def datetime.expand)

end

definition hour_micros :: int where
  "hour_micros = 3600000000"

definition day_micros :: int where
  "day_micros = 86400000000"

definition valid_datetime :: "datetime \<Rightarrow> bool" where
  "valid_datetime t \<longleftrightarrow> valid_date (dt_date t) \<and> 0 \<le> dt_micros t \<and> dt_micros t < day_micros"

abbreviation midnight :: "date \<Rightarrow> datetime" where
  "midnight d \<equiv> Datetime d 0"

definition dt_hour :: "datetime \<Rightarrow> int" where
  "dt_hour t = dt_micros t div hour_micros"

text \<open>\<^verbatim>\<open>datetime(year, month, day, hour)\<close>\<close>

definition mk_datetime :: "int \<Rightarrow> int \<Rightarrow> int \<Rightarrow> int \<Rightarrow> datetime res" where
  "mk_datetime y m d h =
     (if valid_date (Date y m d) \<and> 0 \<le> h \<and> h \<le> 23
      then Inr (Datetime (Date y m d) (h * hour_micros)) else Inl ValueError)"

text \<open>The microseconds since the start of the proleptic calendar.\<close>

definition instant :: "datetime \<Rightarrow> int" where
  "instant t = toordinal (dt_date t) * day_micros + dt_micros t"

text \<open>\<^verbatim>\<open>t + timedelta(microseconds=k)\<close>\<close>

definition add_micros :: "datetime \<Rightarrow> int \<Rightarrow> datetime res" where
  "add_micros t k =
     (let n = instant t + k; q = n div day_micros
      in if 1 \<le> q \<and> q \<le> max_ordinal then Inr (Datetime (fromordinal q) (n mod day_micros))
         else Inl OverflowError)"

lemma day_micros_pos: "0 < day_micros"
  by (simp add: day_micros_def)

lemma instant_less_iff:
  assumes "valid_datetime a" and "valid_datetime b"
  shows "instant a < instant b \<longleftrightarrow> a < b"
proof -
  have v: "valid_date (dt_date a)" "valid_date (dt_date b)"
    using assms by (simp_all add: valid_datetime_def)
  have m: "0 \<le> dt_micros a" "dt_micros a < day_micros" "0 \<le> dt_micros b" "dt_micros b < day_micros"
    using assms by (simp_all add: valid_datetime_def)
  have step: "x * day_micros + u < y * day_micros + w"
    if "x < y" "u < day_micros" "0 \<le> w" for x y u w :: int
  proof -
    have "(x + 1) * day_micros \<le> y * day_micros"
      using that(1) day_micros_pos by (intro mult_right_mono) simp_all
    then show ?thesis using that(2,3) by (simp add: algebra_simps)
  qed
  show ?thesis
  proof (cases "dt_date a" "dt_date b" rule: linorder_cases)
    case less
    then show ?thesis
      using step [of "toordinal (dt_date a)" "toordinal (dt_date b)"] m toordinal_less_iff [OF v]
      by (simp add: instant_def less_datetime_def)
  next
    case equal
    then show ?thesis by (simp add: instant_def less_datetime_def)
  next
    case greater
    then have "instant b < instant a"
      using step [of "toordinal (dt_date b)" "toordinal (dt_date a)"] m
        toordinal_less_iff [OF v(2,1)] by (simp add: instant_def)
    with greater show ?thesis by (auto simp: less_datetime_def)
  qed
qed

lemma instant_le_iff:
  "valid_datetime a \<Longrightarrow> valid_datetime b \<Longrightarrow> instant a \<le> instant b \<longleftrightarrow> a \<le> b"
  using instant_less_iff [of b a] by (simp add: not_less [symmetric])

lemma instant_inj:
  "valid_datetime a \<Longrightarrow> valid_datetime b \<Longrightarrow> instant a = instant b \<longleftrightarrow> a = b"
  using instant_le_iff [of a b] instant_le_iff [of b a] by (auto intro: antisym)

lemma add_micros_ok:
  assumes "add_micros t k = Inr u"
  shows "valid_datetime u" "instant u = instant t + k"
proof -
  define n where "n = instant t + k"
  have q: "1 \<le> n div day_micros" "n div day_micros \<le> max_ordinal"
    and u: "u = Datetime (fromordinal (n div day_micros)) (n mod day_micros)"
    using assms by (simp_all add: add_micros_def n_def [symmetric] Let_def split: if_splits)
  note f = fromordinal_spec [OF q]
  show "valid_datetime u"
    using f(1) day_micros_pos by (simp add: valid_datetime_def u)
  have "n div day_micros * day_micros + n mod day_micros = n" by simp
  then show "instant u = instant t + k"
    using f(2) by (simp add: instant_def u n_def)
qed

lemma add_micros_error:
  "add_micros t k = Inl e \<Longrightarrow> e = OverflowError"
  by (auto simp: add_micros_def Let_def split: if_splits)

section \<open>The ISO week calendar\<close>

text \<open>The ordinal of the Monday that starts ISO week 1 of a year.\<close>

definition isoweek1monday :: "int \<Rightarrow> int" where
  "isoweek1monday y =
     (let firstday = toordinal (Date y 1 1); firstweekday = (firstday + 6) mod 7
      in if 3 < firstweekday then firstday - firstweekday + 7 else firstday - firstweekday)"

text \<open>\<^verbatim>\<open>d.isocalendar()\<close>: the ISO year and week.\<close>

definition isocalendar :: "date \<Rightarrow> int \<times> int" where
  "isocalendar d =
     (let y = d_year d; week = (toordinal d - isoweek1monday y) div 7
      in if week < 0 then (y - 1, (toordinal d - isoweek1monday (y - 1)) div 7 + 1)
         else if 52 \<le> week \<and> isoweek1monday (y + 1) \<le> toordinal d then (y + 1, 1)
         else (y, week + 1))"

definition long_iso_year :: "int \<Rightarrow> bool" where
  "long_iso_year y \<longleftrightarrow>
     toordinal (Date y 1 1) mod 7 = 4 \<or> toordinal (Date y 1 1) mod 7 = 3 \<and> leap y"

text \<open>\<^verbatim>\<open>date.fromisocalendar(year, week, 1)\<close>\<close>

definition fromisocalendar_monday :: "int \<Rightarrow> int \<Rightarrow> date res" where
  "fromisocalendar_monday y w =
     (if \<not> (1 \<le> y \<and> y \<le> 9999) then Inl ValueError
      else if \<not> (0 < w \<and> w < 53) \<and> \<not> (w = 53 \<and> long_iso_year y) then Inl ValueError
      else Inr (fromordinal (isoweek1monday y + (w - 1) * 7)))"

definition iso_weeks :: "int \<Rightarrow> int" where
  "iso_weeks y = (if long_iso_year y then 53 else 52)"

lemma new_year_next: "toordinal (Date (y + 1) 1 1) = toordinal (Date y 1 1) + year_length y"
  by (simp add: toordinal_def days_before_year_Suc)

lemma mod7_cases: obtains "n mod 7 = (0::int)" | "n mod 7 = 1" | "n mod 7 = 2" | "n mod 7 = 3"
  | "n mod 7 = 4" | "n mod 7 = 5" | "n mod 7 = 6"
  using pos_mod_sign [of 7 n] pos_mod_bound [of 7 n] by fastforce

lemma mod_add7: "n mod 7 = r \<Longrightarrow> (n + k) mod 7 = (r + k) mod 7" for n r k :: int
  by (metis mod_add_left_eq)

text \<open>Where week 1 starts, by the weekday of new year's day.\<close>

fun week1_shift :: "int \<Rightarrow> int" where
  "week1_shift r = (if r = 0 then 1 else if r < 5 then 1 - r else 8 - r)"

lemma isoweek1monday_eq:
  "isoweek1monday y = toordinal (Date y 1 1) + week1_shift (toordinal (Date y 1 1) mod 7)"
proof -
  define f where "f = toordinal (Date y 1 1)"
  have "(let w = (f + 6) mod 7 in if 3 < w then f - w + 7 else f - w) = f + week1_shift (f mod 7)"
    by (cases rule: mod7_cases [of f]) (simp_all add: mod_add7)
  then show ?thesis unfolding isoweek1monday_def f_def Let_def .
qed

lemma week1_shift_bounds: "0 \<le> r \<Longrightarrow> r < 7 \<Longrightarrow> - 3 \<le> week1_shift r \<and> week1_shift r \<le> 3"
  by auto

lemma isoweek1monday_near:
  "toordinal (Date y 1 1) - 3 \<le> isoweek1monday y" "isoweek1monday y \<le> toordinal (Date y 1 1) + 3"
  using week1_shift_bounds [of "toordinal (Date y 1 1) mod 7"]
  by (simp_all add: isoweek1monday_eq del: week1_shift.simps)

lemma isoweek1monday_mod: "isoweek1monday y mod 7 = 1"
proof -
  define f where "f = toordinal (Date y 1 1)"
  have "(f + week1_shift (f mod 7)) mod 7 = 1"
    by (cases rule: mod7_cases [of f]) (simp_all add: mod_add7 mod_diff_left_eq [symmetric])
  then show ?thesis by (simp add: isoweek1monday_eq f_def)
qed

lemma isoweek1monday_next: "isoweek1monday (y + 1) = isoweek1monday y + 7 * iso_weeks y"
proof -
  define f where "f = toordinal (Date y 1 1)"
  define k where "k = year_length y"
  have k: "k = (if leap y then 366 else 365)" by (simp add: k_def year_length_def)
  have "f + k + week1_shift ((f + k) mod 7) =
      f + week1_shift (f mod 7) +
      7 * (if f mod 7 = 4 \<or> f mod 7 = 3 \<and> leap y then 53 else 52)"
    by (cases rule: mod7_cases [of f]; cases "leap y") (simp_all add: k mod_add7)
  then show ?thesis
    by (simp add: isoweek1monday_eq iso_weeks_def long_iso_year_def new_year_next f_def k_def
        del: week1_shift.simps)
qed

lemma new_year_bounds:
  assumes "valid_date d"
  shows "toordinal (Date (d_year d) 1 1) \<le> toordinal d" "toordinal d < toordinal (Date (d_year d + 1) 1 1)"
proof -
  show "toordinal (Date (d_year d) 1 1) \<le> toordinal d"
    using toordinal_year_bounds [OF assms] by (simp add: toordinal_def)
  show "toordinal d < toordinal (Date (d_year d + 1) 1 1)"
    using toordinal_year_bounds [OF assms] by (simp add: toordinal_def days_before_year_Suc)
qed

lemma iso_year_length: "364 \<le> 7 * iso_weeks y" "7 * iso_weeks y \<le> 371"
  by (simp_all add: iso_weeks_def)

text \<open>The ISO year and week of a date bracket it.\<close>

lemma isocalendar_spec:
  assumes "valid_date d" and "isocalendar d = (y, w)"
  shows "1 \<le> w" "w \<le> iso_weeks y"
    "isoweek1monday y + 7 * (w - 1) \<le> toordinal d" "toordinal d < isoweek1monday y + 7 * w"
proof -
  define t where "t = toordinal d"
  define Y where "Y = d_year d"
  note nb = new_year_bounds [OF assms(1), folded t_def Y_def]
  have within: "1 \<le> (t - isoweek1monday z) div 7 + 1 \<and> (t - isoweek1monday z) div 7 + 1 \<le> iso_weeks z \<and>
      isoweek1monday z + 7 * ((t - isoweek1monday z) div 7 + 1 - 1) \<le> t \<and>
      t < isoweek1monday z + 7 * ((t - isoweek1monday z) div 7 + 1)"
    if "isoweek1monday z \<le> t" "t < isoweek1monday (z + 1)" for z
  proof -
    define n q where "n = t - isoweek1monday z" and "q = n div 7"
    have "7 * q \<le> n" "n < 7 * q + 7"
      using mult_div_mod_eq [of 7 n] pos_mod_sign [of 7 n] pos_mod_bound [of 7 n]
      unfolding q_def by linarith+
    moreover have t: "t = isoweek1monday z + n" by (simp add: n_def)
    moreover have "0 \<le> n" "n < 7 * iso_weeks z"
      using that isoweek1monday_next [of z] t by simp_all
    ultimately have "0 \<le> q" "q < iso_weeks z" "isoweek1monday z + 7 * q \<le> t"
      "t < isoweek1monday z + (7 * q + 7)"
      by linarith+
    then show ?thesis
      unfolding n_def [symmetric] q_def [symmetric] by simp
  qed
  have "1 \<le> w \<and> w \<le> iso_weeks y \<and> isoweek1monday y + 7 * (w - 1) \<le> t \<and> t < isoweek1monday y + 7 * w"
  proof (cases "t < isoweek1monday Y")
    case True
    have le: "isoweek1monday (Y - 1) \<le> t"
      using isoweek1monday_near [of "Y - 1"] new_year_next [of "Y - 1"] year_length_bounds [of "Y - 1"] nb(1)
      by simp
    have "(t - isoweek1monday Y) div 7 < 0" using True by simp
    then have yw: "y = Y - 1" "w = (t - isoweek1monday (Y - 1)) div 7 + 1"
      using assms(2) by (auto simp: isocalendar_def t_def Y_def Let_def)
    show ?thesis using within [OF le] True unfolding yw by simp
  next
    case ge: False
    then have pos: "\<not> (t - isoweek1monday Y) div 7 < 0" by simp
    show ?thesis
    proof (cases "t < isoweek1monday (Y + 1)")
      case True
      then have yw: "y = Y" "w = (t - isoweek1monday Y) div 7 + 1"
        using assms(2) pos by (auto simp: isocalendar_def t_def Y_def Let_def)
      show ?thesis using within [OF _ True] ge unfolding yw by simp
    next
      case False
      then have "364 \<le> t - isoweek1monday Y"
        using isoweek1monday_next [of Y] iso_year_length(1) [of Y] by linarith
      then have "364 div 7 \<le> (t - isoweek1monday Y) div 7" by (rule zdiv_mono1) simp
      then have yw: "y = Y + 1" "w = 1"
        using assms(2) pos False by (auto simp: isocalendar_def t_def Y_def Let_def)
      have "t < isoweek1monday (Y + 1) + 7"
        using nb(2) isoweek1monday_near(1) [of "Y + 1"] by simp
      then show ?thesis using False iso_year_length(1) [of "Y + 1"] unfolding yw by simp
    qed
  qed
  then show "1 \<le> w" "w \<le> iso_weeks y"
    "isoweek1monday y + 7 * (w - 1) \<le> toordinal d" "toordinal d < isoweek1monday y + 7 * w"
    by (simp_all add: t_def)
qed

text \<open>For a Monday the ISO year and week say exactly which day it is.\<close>

lemma monday_mod: "weekday d = 0 \<longleftrightarrow> toordinal d mod 7 = 1"
proof -
  have "(n + 6) mod 7 = 0 \<longleftrightarrow> n mod 7 = 1" for n :: int
    by (cases rule: mod7_cases [of n]) (simp_all add: mod_add7)
  then show ?thesis by (simp add: weekday_def)
qed

lemma monday_isocalendar:
  assumes "valid_date d" and "weekday d = 0" and "isocalendar d = (y, w)"
  shows "toordinal d = isoweek1monday y + 7 * (w - 1)"
proof -
  have "toordinal d mod 7 = 1" using assms(2) by (simp add: monday_mod)
  then have "(toordinal d - isoweek1monday y) mod 7 = 0"
    using isoweek1monday_mod [of y] by (simp add: mod_eq_dvd_iff [symmetric] dvd_eq_mod_eq_0 [symmetric])
  then obtain j where j: "toordinal d - isoweek1monday y = 7 * j"
    by (metis dvd_def mod_0_imp_dvd)
  with isocalendar_spec(3,4) [OF assms(1,3)] have "7 * w - 7 \<le> 7 * j" "7 * j < 7 * w"
    by (simp_all add: algebra_simps)
  then have "w - 1 = j" by linarith
  with j show ?thesis by simp
qed

lemma isocalendar_year_range:
  assumes "valid_date d" and "isocalendar d = (y, w)"
  shows "1 \<le> y" "y \<le> 9999"
proof -
  have iso1: "isoweek1monday 1 = 1" and iso10000: "isoweek1monday 10000 = 3652062" by code_simp+
  have mo: "max_ordinal = 3652059" by (simp add: max_ordinal_def)
  have t: "1 \<le> toordinal d" "toordinal d \<le> 3652059"
    using toordinal_range [OF assms(1)] mo by simp_all
  have Y: "1 \<le> d_year d" "d_year d \<le> 9999" using assms(1) by (simp_all add: valid_date_def)
  have "y = d_year d \<or> y = d_year d - 1 \<and> toordinal d < isoweek1monday (d_year d) \<or>
      y = d_year d + 1 \<and> isoweek1monday (d_year d + 1) \<le> toordinal d"
    using assms(2) by (auto simp: isocalendar_def Let_def split: if_splits)
  moreover have "d_year d = 1 \<Longrightarrow> \<not> toordinal d < isoweek1monday (d_year d)"
    using iso1 t by simp
  moreover have "d_year d = 9999 \<Longrightarrow> \<not> isoweek1monday (d_year d + 1) \<le> toordinal d"
    using iso10000 t by simp
  ultimately show "1 \<le> y" "y \<le> 9999" using Y by linarith+
qed

lemma fromisocalendar_isocalendar:
  assumes "valid_date d" and "weekday d = 0" and "isocalendar d = (y, w)"
  shows "fromisocalendar_monday y w = Inr d"
proof -
  have "0 < w \<and> w < 53 \<or> w = 53 \<and> long_iso_year y"
    using isocalendar_spec(1,2) [OF assms(1,3)] by (auto simp: iso_weeks_def split: if_splits)
  moreover have "isoweek1monday y + (w - 1) * 7 = toordinal d"
    using monday_isocalendar [OF assms] by simp
  ultimately show ?thesis
    using isocalendar_year_range [OF assms(1,3)] fromordinal_toordinal [OF assms(1)]
    by (auto simp: fromisocalendar_monday_def)
qed

lemma isoweek1monday_mono:
  assumes "y < z"
  shows "isoweek1monday y + 7 * iso_weeks y \<le> isoweek1monday z"
  using assms
proof (induction z rule: int_gr_induct)
  case base
  then show ?case using isoweek1monday_next [of y] by simp
next
  case (step z)
  then show ?case using isoweek1monday_next [of z] iso_year_length(1) [of z] by linarith
qed

lemma isocalendar_less_iff:
  assumes "valid_date d" and "weekday d = 0" and "isocalendar d = (y, w)"
    and "valid_date e" and "weekday e = 0" and "isocalendar e = (z, v)"
  shows "d < e \<longleftrightarrow> y < z \<or> y = z \<and> w < v"
proof -
  have t: "toordinal d = isoweek1monday y + 7 * (w - 1)" "toordinal e = isoweek1monday z + 7 * (v - 1)"
    using monday_isocalendar assms by blast+
  have w: "1 \<le> w" "w \<le> iso_weeks y" "1 \<le> v" "v \<le> iso_weeks z"
    using isocalendar_spec assms by blast+
  have "toordinal d < toordinal e \<longleftrightarrow> y < z \<or> y = z \<and> w < v"
  proof (cases y z rule: linorder_cases)
    case less
    then show ?thesis using isoweek1monday_mono [OF less] t w by simp
  next
    case equal
    then show ?thesis using t by simp
  next
    case greater
    then show ?thesis using isoweek1monday_mono [OF greater] t w by simp
  qed
  then show ?thesis using toordinal_less_iff [OF assms(1,4)] by simp
qed

end
