(* ===== verification/Time_Formats.thy ===== *)
theory Time_Formats
  imports Datetimes
begin

text \<open>
  \<^verbatim>\<open>src/canonic/semantic/time_format.py\<close>: the \<^verbatim>\<open>strftime\<close>-style format of a label dimension,
  its compilation, the reader and the printer of labels. The regular expression a format
  compiles to is a sequence of literal characters and fixed-width digit fields, so it is kept as
  that sequence and matched field by field. The codec locales state what a reader and a printer
  of period labels promise each other and are interpreted on the model.
\<close>

section \<open>Formats\<close>

text \<open>The grains of \<^verbatim>\<open>REQUIRED_DIRECTIVES\<close>.\<close>

datatype time_grain = GHour | GDay | GWeek | GMonth | GQuarter | GYear

fun grain_value :: "time_grain \<Rightarrow> string" where
  "grain_value GHour = ''hour''"
| "grain_value GDay = ''day''"
| "grain_value GWeek = ''week''"
| "grain_value GMonth = ''month''"
| "grain_value GQuarter = ''quarter''"
| "grain_value GYear = ''year''"

definition grain_of_value :: "string \<Rightarrow> time_grain option" where
  "grain_of_value s = find (\<lambda>g. grain_value g = s) [GHour, GDay, GWeek, GMonth, GQuarter, GYear]"

text \<open>A placeholder character and the number of digits it reads; \<^verbatim>\<open>q\<close> reads one of 1 to 4.\<close>

definition DIRECTIVES :: "(char \<times> nat) list" where
  "DIRECTIVES = [(CHR ''Y'', 4), (CHR ''G'', 4), (CHR ''q'', 1), (CHR ''m'', 2), (CHR ''V'', 2),
     (CHR ''d'', 2), (CHR ''H'', 2)]"

fun REQUIRED_DIRECTIVES :: "time_grain \<Rightarrow> string" where
  "REQUIRED_DIRECTIVES GYear = ''Y''"
| "REQUIRED_DIRECTIVES GQuarter = ''Yq''"
| "REQUIRED_DIRECTIVES GMonth = ''Ym''"
| "REQUIRED_DIRECTIVES GWeek = ''GV''"
| "REQUIRED_DIRECTIVES GDay = ''Ymd''"
| "REQUIRED_DIRECTIVES GHour = ''YmdH''"

datatype tok = Lit (tok_char: char) | Dir (tok_char: char)

text \<open>The matches of \<^verbatim>\<open>_TOKEN\<close> and the text between them; the dot matches no newline.\<close>

fun tokens :: "string \<Rightarrow> tok list" where
  "tokens [] = []"
| "tokens [c] = [Lit c]"
| "tokens (c # d # cs) =
     (if c = CHR ''%'' \<and> d \<noteq> CHR 0x0A then Dir d # tokens cs else Lit c # tokens (d # cs))"

fun is_lit :: "tok \<Rightarrow> bool" where
  "is_lit (Lit c) = True"
| "is_lit (Dir c) = False"

text \<open>The directives of a format, in order; \<^verbatim>\<open>%%\<close> stands for a percent sign.\<close>

fun read_directives :: "tok list \<Rightarrow> string \<Rightarrow> string res" where
  "read_directives [] ds = Inr ds"
| "read_directives (Lit c # ts) ds = read_directives ts ds"
| "read_directives (Dir c # ts) ds =
     (if c = CHR ''%'' then read_directives ts ds
      else if map_of DIRECTIVES c = None then Inl InvalidTimeFormat
      else if c \<in> set ds then Inl InvalidTimeFormat
      else read_directives ts (ds @ [c]))"

record time_format =
  tf_format :: string
  tf_grain :: time_grain
  tf_directives :: string
  tf_pattern :: "tok list"

definition compile_time_format :: "string \<Rightarrow> time_grain \<Rightarrow> time_format res" where
  "compile_time_format fmt g =
     rbind (read_directives (tokens fmt) []) (\<lambda>ds.
       if Lit (CHR ''%'') \<in> set (takeWhile is_lit (rev (tokens fmt))) then Inl InvalidTimeFormat
       else if set ds \<noteq> set (REQUIRED_DIRECTIVES g) then Inl InvalidTimeFormat
       else Inr \<lparr>tf_format = fmt, tf_grain = g, tf_directives = ds, tf_pattern = tokens fmt\<rparr>)"

definition sorts_chronologically :: "time_format \<Rightarrow> bool" where
  "sorts_chronologically tf \<longleftrightarrow> tf_directives tf = REQUIRED_DIRECTIVES (tf_grain tf)"

section \<open>Reading a label\<close>

definition directive_width :: "char \<Rightarrow> nat" where
  "directive_width c = (case map_of DIRECTIVES c of None \<Rightarrow> 0 | Some w \<Rightarrow> w)"

definition field_char :: "char \<Rightarrow> char \<Rightarrow> bool" where
  "field_char c x \<longleftrightarrow>
     (if c = CHR ''q'' then x \<in> set ''1234'' else is_digit x)"

text \<open>\<^verbatim>\<open>pattern.fullmatch(text)\<close>: the number read for every named group.\<close>

fun fullmatch :: "tok list \<Rightarrow> string \<Rightarrow> (char \<times> int) list option" where
  "fullmatch [] s = (if s = [] then Some [] else None)"
| "fullmatch (Lit c # ts) s =
     (case s of [] \<Rightarrow> None | x # xs \<Rightarrow> if x = c then fullmatch ts xs else None)"
| "fullmatch (Dir c # ts) s =
     (if c = CHR ''%'' then
        (case s of [] \<Rightarrow> None | x # xs \<Rightarrow> if x = c then fullmatch ts xs else None)
      else
        (let f = take (directive_width c) s
         in if length f = directive_width c \<and> list_all (field_char c) f
            then map_option (\<lambda>ps. (c, int (nat_of_digits f)) # ps)
                   (fullmatch ts (drop (directive_width c) s))
            else None))"

definition part :: "(char \<times> int) list \<Rightarrow> char \<Rightarrow> int \<Rightarrow> int" where
  "part ps c dflt = (case map_of ps c of None \<Rightarrow> dflt | Some n \<Rightarrow> n)"

text \<open>
  What \<^verbatim>\<open>parse\<close> makes of the numbers its pattern has read. A compiled format holds exactly the
  directives its grain requires, so \<^verbatim>\<open>parts["Y"]\<close>,
  \<^verbatim>\<open>parts["G"]\<close> and \<^verbatim>\<open>parts["V"]\<close> are always there when they are read.
\<close>

definition assemble :: "time_grain \<Rightarrow> (char \<times> int) list \<Rightarrow> datetime option" where
  "assemble g parts =
     (if g = GWeek
      then (case fromisocalendar_monday (part parts CHR ''G'' 0) (part parts CHR ''V'' 0) of
          Inl _ \<Rightarrow> None | Inr monday \<Rightarrow> Some (midnight monday))
      else
        (let month = (if map_of parts CHR ''q'' \<noteq> None
                      then 3 * (part parts CHR ''q'' 0 - 1) + 1 else part parts CHR ''m'' 1)
         in case mk_datetime (part parts CHR ''Y'' 0) month (part parts CHR ''d'' 1)
                   (part parts CHR ''H'' 0) of
              Inl _ \<Rightarrow> None | Inr t \<Rightarrow> Some t))"

definition tf_parse :: "time_format \<Rightarrow> string \<Rightarrow> datetime option" where
  "tf_parse tf text =
     (case fullmatch (tf_pattern tf) (strip text) of
        None \<Rightarrow> None
      | Some parts \<Rightarrow> assemble (tf_grain tf) parts)"

section \<open>Printing a label\<close>

text \<open>The number a directive prints for the period that begins at a moment.\<close>

definition field_value :: "datetime \<Rightarrow> char \<Rightarrow> int" where
  "field_value t c =
     (let d = dt_date t; iso = isocalendar d
      in if c = CHR ''Y'' then d_year d
         else if c = CHR ''G'' then fst iso
         else if c = CHR ''q'' then (d_month d - 1) div 3 + 1
         else if c = CHR ''m'' then d_month d
         else if c = CHR ''V'' then snd iso
         else if c = CHR ''d'' then d_day d
         else dt_hour t)"

fun render_token :: "datetime \<Rightarrow> tok \<Rightarrow> string" where
  "render_token t (Lit c) = [c]"
| "render_token t (Dir c) =
     (if c = CHR ''%'' then ''%'' else show_width (directive_width c) (nat (field_value t c)))"

definition tf_render :: "time_format \<Rightarrow> datetime \<Rightarrow> string" where
  "tf_render tf start = concat (map (render_token start) (tf_pattern tf))"

section \<open>The codec\<close>

text \<open>The directives of a token list that read a number.\<close>

fun dirs :: "tok list \<Rightarrow> string" where
  "dirs [] = []"
| "dirs (Lit c # ts) = dirs ts"
| "dirs (Dir c # ts) = (if c = CHR ''%'' then dirs ts else c # dirs ts)"

lemma read_directives_ok:
  "read_directives ts ds = Inr r \<Longrightarrow>
    r = ds @ dirs ts \<and> (\<forall>c\<in>set (dirs ts). map_of DIRECTIVES c \<noteq> None) \<and>
    (distinct ds \<longrightarrow> distinct r)"
proof (induction ts arbitrary: ds)
  case (Cons a ts)
  show ?case
  proof (cases a)
    case (Lit c)
    then show ?thesis using Cons by simp
  next
    case (Dir c)
    show ?thesis
    proof (cases "c = CHR ''%''")
      case True
      then show ?thesis using Cons Dir by simp
    next
      case False
      with Cons.prems Dir have c: "map_of DIRECTIVES c \<noteq> None" "c \<notin> set ds"
        and r: "read_directives ts (ds @ [c]) = Inr r"
        by (simp_all split: if_splits)
      show ?thesis using Cons.IH [OF r] c False Dir by auto
    qed
  qed
qed simp

lemma compile_ok:
  assumes "compile_time_format fmt g = Inr tf"
  shows "tf_format tf = fmt" "tf_grain tf = g" "tf_pattern tf = tokens fmt"
    "tf_directives tf = dirs (tokens fmt)" "distinct (tf_directives tf)"
    "set (tf_directives tf) = set (REQUIRED_DIRECTIVES g)"
    "\<forall>c\<in>set (dirs (tokens fmt)). map_of DIRECTIVES c \<noteq> None"
proof -
  obtain ds where ds: "read_directives (tokens fmt) [] = Inr ds"
    and tf: "tf = \<lparr>tf_format = fmt, tf_grain = g, tf_directives = ds, tf_pattern = tokens fmt\<rparr>"
    and req: "set ds = set (REQUIRED_DIRECTIVES g)"
    using assms by (auto simp: compile_time_format_def rbind_def split: sum.splits if_splits)
  show "tf_format tf = fmt" "tf_grain tf = g" "tf_pattern tf = tokens fmt"
    "tf_directives tf = dirs (tokens fmt)" "distinct (tf_directives tf)"
    "set (tf_directives tf) = set (REQUIRED_DIRECTIVES g)"
    "\<forall>c\<in>set (dirs (tokens fmt)). map_of DIRECTIVES c \<noteq> None"
    using read_directives_ok [OF ds] req by (auto simp: tf)
qed

lemma directive_cases:
  assumes "map_of DIRECTIVES c \<noteq> None"
  obtains "c = CHR ''Y''" "directive_width c = 4" | "c = CHR ''G''" "directive_width c = 4"
  | "c = CHR ''q''" "directive_width c = 1" | "c = CHR ''m''" "directive_width c = 2"
  | "c = CHR ''V''" "directive_width c = 2" | "c = CHR ''d''" "directive_width c = 2"
  | "c = CHR ''H''" "directive_width c = 2"
  using assms by (auto simp: directive_width_def DIRECTIVES_def split: if_splits)

lemma iso_bounds:
  assumes "valid_date d"
  shows "1 \<le> fst (isocalendar d)" "fst (isocalendar d) \<le> 9999"
    "1 \<le> snd (isocalendar d)" "snd (isocalendar d) \<le> 53"
  using isocalendar_year_range [OF assms prod.collapse [symmetric]]
    isocalendar_spec(1,2) [OF assms prod.collapse [symmetric]]
  by (auto simp: iso_weeks_def split: if_splits)

lemma hour_bounds:
  assumes "valid_datetime t"
  shows "0 \<le> dt_hour t" "dt_hour t \<le> 23"
proof -
  have m: "0 \<le> dt_micros t" "dt_micros t < 86400000000"
    using assms by (simp_all add: valid_datetime_def day_micros_def)
  then show "0 \<le> dt_hour t" by (simp add: dt_hour_def hour_micros_def)
  have "dt_micros t div 3600000000 \<le> 86399999999 div 3600000000"
    using m by (intro zdiv_mono1) simp_all
  then show "dt_hour t \<le> 23" by (simp add: dt_hour_def hour_micros_def)
qed

lemma quarter_bounds: "1 \<le> m \<Longrightarrow> m \<le> 12 \<Longrightarrow> 1 \<le> (m - 1) div 3 + 1 \<and> (m - 1) div 3 + 1 \<le> 4" for m :: int
  by presburger

lemma field_value_bounds:
  assumes "valid_datetime t" and "map_of DIRECTIVES c \<noteq> None"
  shows "0 \<le> field_value t c" "field_value t c < 10 ^ directive_width c"
    "c = CHR ''q'' \<Longrightarrow> 1 \<le> field_value t c \<and> field_value t c \<le> 4"
proof -
  have d: "valid_date (dt_date t)" using assms(1) by (simp add: valid_datetime_def)
  have b: "1 \<le> d_year (dt_date t)" "d_year (dt_date t) \<le> 9999" "1 \<le> d_month (dt_date t)"
    "d_month (dt_date t) \<le> 12" "1 \<le> d_day (dt_date t)" "d_day (dt_date t) \<le> 31"
    using d days_in_month_bounds(2) [of "d_year (dt_date t)" "d_month (dt_date t)"]
    by (auto simp: valid_date_def)
  note facts = b iso_bounds [OF d] hour_bounds [OF assms(1)] quarter_bounds [OF b(3,4)]
  show "0 \<le> field_value t c" "field_value t c < 10 ^ directive_width c"
    using assms(2) facts
    by (cases rule: directive_cases [OF assms(2)]; simp add: field_value_def Let_def)+
  show "c = CHR ''q'' \<Longrightarrow> 1 \<le> field_value t c \<and> field_value t c \<le> 4"
    using facts by (simp add: field_value_def Let_def)
qed

lemma quarter_digit: "1 \<le> n \<Longrightarrow> n \<le> 4 \<Longrightarrow> show_width 1 n \<in> {''1'', ''2'', ''3'', ''4''}"
proof -
  assume "1 \<le> n" "n \<le> 4"
  then have "n = 1 \<or> n = 2 \<or> n = 3 \<or> n = 4" by arith
  moreover have "show_width 1 1 = ''1''" "show_width 1 2 = ''2''" "show_width 1 3 = ''3''"
    "show_width 1 4 = ''4''" by code_simp+
  ultimately show ?thesis by auto
qed

lemma field_accepted:
  assumes "valid_datetime t" and "map_of DIRECTIVES c \<noteq> None"
  shows "list_all (field_char c) (show_width (directive_width c) (nat (field_value t c)))"
proof (cases "c = CHR ''q''")
  case True
  then have "directive_width c = 1" by (simp add: directive_width_def DIRECTIVES_def)
  moreover have "1 \<le> nat (field_value t c)" "nat (field_value t c) \<le> 4"
    using field_value_bounds(3) [OF assms True] by linarith+
  ultimately show ?thesis
    using quarter_digit [of "nat (field_value t c)"] True by (auto simp: field_char_def)
next
  case False
  then show ?thesis by (auto simp: list_all_iff field_char_def dest: show_width_digits)
qed

lemma field_number:
  assumes "valid_datetime t" and "map_of DIRECTIVES c \<noteq> None"
  shows "int (nat_of_digits (show_width (directive_width c) (nat (field_value t c)))) = field_value t c"
proof -
  have "nat (field_value t c) < 10 ^ directive_width c"
    using field_value_bounds(1,2) [OF assms] by (simp add: nat_less_iff)
  then show ?thesis
    using field_value_bounds(1) [OF assms] by (simp add: nat_of_digits_show_width)
qed

lemma fullmatch_render:
  assumes "valid_datetime t" and "\<forall>c\<in>set (dirs ts). map_of DIRECTIVES c \<noteq> None"
  shows "fullmatch ts (concat (map (render_token t) ts)) =
    Some (map (\<lambda>c. (c, field_value t c)) (dirs ts))"
  using assms(2)
proof (induction ts)
  case (Cons a ts)
  show ?case
  proof (cases a)
    case (Lit c)
    then show ?thesis using Cons by simp
  next
    case (Dir c)
    show ?thesis
    proof (cases "c = CHR ''%''")
      case True
      then show ?thesis using Cons Dir by simp
    next
      case False
      then have "map_of DIRECTIVES c \<noteq> None" using Cons.prems Dir by simp
      then show ?thesis
        using Cons False Dir field_accepted [OF assms(1), of c] field_number [OF assms(1), of c]
        by (simp add: Let_def)
    qed
  qed
qed simp

text \<open>A label has the length its format fixes, and only a text of that length is read.\<close>

fun tok_width :: "tok \<Rightarrow> nat" where
  "tok_width (Lit c) = 1"
| "tok_width (Dir c) = (if c = CHR ''%'' then 1 else directive_width c)"

lemma length_render: "length (concat (map (render_token t) ts)) = sum_list (map tok_width ts)"
proof (induction ts)
  case (Cons a ts)
  then show ?case by (cases a) simp_all
qed simp

lemma fullmatch_length: "fullmatch ts s = Some ps \<Longrightarrow> length s = sum_list (map tok_width ts)"
proof (induction ts arbitrary: s ps)
  case (Cons a ts)
  show ?case
  proof (cases "\<exists>c. a = Dir c \<and> c \<noteq> CHR ''%''")
    case True
    then obtain c where a: "a = Dir c" "c \<noteq> CHR ''%''" by blast
    then obtain qs where "directive_width c \<le> length s"
      "fullmatch ts (drop (directive_width c) s) = Some qs"
      using Cons.prems by (auto simp: Let_def min_def split: if_splits)
    then show ?thesis using Cons.IH a by fastforce
  next
    case False
    then show ?thesis
      using Cons by (cases a; cases s) (auto split: if_splits)
  qed
qed (simp split: if_splits)

lemma tokens_Nil_iff [simp]: "tokens fmt = [] \<longleftrightarrow> fmt = []"
  by (cases fmt rule: tokens.cases) simp_all

lemma tokens_hd: "fmt \<noteq> [] \<Longrightarrow> hd fmt \<noteq> CHR ''%'' \<Longrightarrow> hd (tokens fmt) = Lit (hd fmt)"
  by (cases fmt rule: tokens.cases) simp_all

lemma tokens_last: "fmt \<noteq> [] \<Longrightarrow> last (tokens fmt) \<in> {Lit (last fmt), Dir (last fmt)}"
  by (induction fmt rule: tokens.induct) auto

lemma concat_ends:
  assumes "xs \<noteq> []" and "\<And>x. x \<in> set xs \<Longrightarrow> f x \<noteq> []"
  shows "hd (concat (map f xs)) = hd (f (hd xs))" "last (concat (map f xs)) = last (f (last xs))"
    "concat (map f xs) \<noteq> []"
proof -
  obtain y ys where y: "xs = y # ys" using assms(1) by (cases xs) auto
  show "hd (concat (map f xs)) = hd (f (hd xs))" "concat (map f xs) \<noteq> []"
    using assms(2) [of y] by (simp_all add: y)
  obtain zs z where z: "xs = zs @ [z]" using assms(1) by (cases xs rule: rev_cases) auto
  show "last (concat (map f xs)) = last (f (last xs))"
    using assms(2) [of z] by (simp add: z)
qed

definition tok_ok :: "tok \<Rightarrow> bool" where
  "tok_ok a \<longleftrightarrow> (\<forall>c. a = Dir c \<longrightarrow> c = CHR ''%'' \<or> map_of DIRECTIVES c \<noteq> None)"

lemma tokens_ok:
  "\<forall>c\<in>set (dirs ts). map_of DIRECTIVES c \<noteq> None \<Longrightarrow> a \<in> set ts \<Longrightarrow> tok_ok a"
proof (induction ts)
  case (Cons b ts)
  then show ?case by (cases b) (auto simp: tok_ok_def split: if_splits)
qed simp

lemma render_token_solid:
  assumes "tok_ok a"
  shows "render_token t a \<noteq> []"
    "\<not> is_lit a \<Longrightarrow> x \<in> set (render_token t a) \<Longrightarrow> \<not> is_space x"
proof -
  have w: "0 < directive_width c" if "map_of DIRECTIVES c \<noteq> None" for c
    by (cases rule: directive_cases [OF that]) simp_all
  have "show_width (directive_width c) n \<noteq> []" if "map_of DIRECTIVES c \<noteq> None" for c n
    using w [OF that] length_show_width [of "directive_width c" n] by fastforce
  then show "render_token t a \<noteq> []"
    using assms by (cases a) (auto simp: tok_ok_def)
  show "\<not> is_lit a \<Longrightarrow> x \<in> set (render_token t a) \<Longrightarrow> \<not> is_space x"
    by (cases a) (auto simp: is_space_def dest!: show_width_digits is_digit_not_space split: if_splits)
qed

lemma render_space:
  fixes t :: datetime and fmt :: string
  assumes "fmt \<noteq> []" and "\<forall>c\<in>set (dirs (tokens fmt)). map_of DIRECTIVES c \<noteq> None"
  defines "s \<equiv> concat (map (render_token t) (tokens fmt))"
  shows "s \<noteq> []" "is_space (hd s) \<longleftrightarrow> is_space (hd fmt)" "is_space (last s) \<longleftrightarrow> is_space (last fmt)"
proof -
  have tk: "tokens fmt \<noteq> []" using assms(1) by simp
  have okk: "tok_ok a" if "a \<in> set (tokens fmt)" for a using tokens_ok [OF assms(2) that] .
  note ends = concat_ends [OF tk, of "render_token t", OF render_token_solid(1) [OF okk], folded s_def]
  show "s \<noteq> []" by (rule ends(3))
  have no: "\<not> is_space CHR ''%''" by (simp add: is_space_def)
  show "is_space (hd s) \<longleftrightarrow> is_space (hd fmt)"
  proof (cases "is_lit (hd (tokens fmt))")
    case True
    then have "hd (tokens fmt) = Lit (hd fmt)" using assms(1) by (cases fmt rule: tokens.cases) (auto split: if_splits)
    then show ?thesis using ends(1) by simp
  next
    case False
    then have "hd fmt = CHR ''%''" using tokens_hd [OF assms(1)] by (metis is_lit.simps(1))
    then show ?thesis
      using no False tk render_token_solid [OF okk [OF hd_in_set [OF tk]], where t = t] ends(1) by simp
  qed
  show "is_space (last s) \<longleftrightarrow> is_space (last fmt)"
  proof (cases "is_lit (last (tokens fmt))")
    case True
    then have "last (tokens fmt) = Lit (last fmt)" using tokens_last [OF assms(1)] by auto
    then show ?thesis using ends(2) by simp
  next
    case False
    then have l: "last (tokens fmt) = Dir (last fmt)" using tokens_last [OF assms(1)] by auto
    have "\<not> is_space (last fmt)"
      using okk [OF last_in_set [OF tk]] no unfolding l tok_ok_def
      by (auto simp: DIRECTIVES_def is_space_def split: if_splits)
    then show ?thesis
      using False render_token_solid [OF okk [OF last_in_set [OF tk]], where t = t] ends(2) by simp
  qed
qed

lemma length_strip_le: "length (lstrip s) \<le> length s" "length (rstrip s) \<le> length s"
  using length_dropWhile_le [of is_space s] length_dropWhile_le [of is_space "rev s"]
  by (simp_all add: lstrip_def rstrip_def)

lemma strip_shorter:
  assumes "s \<noteq> []" and "is_space (hd s) \<or> is_space (last s)"
  shows "length (strip s) < length s"
proof (cases "is_space (hd s)")
  case True
  then have "length (lstrip s) < length s"
    using assms(1) length_dropWhile_le [of is_space "tl s"]
    by (cases s) (simp_all add: lstrip_def)
  then show ?thesis
    using length_strip_le(2) [of "lstrip s"] by (simp add: strip_def)
next
  case False
  then have l: "lstrip s = s" and sp: "is_space (last s)"
    using assms by (cases s; simp add: lstrip_def)+
  obtain u x where s: "s = u @ [x]" using assms(1) by (cases s rule: rev_cases) auto
  have "length (rstrip s) < length s"
    using sp length_strip_le(2) [of u] by (simp add: s rstrip_def)
  then show ?thesis by (simp add: strip_def l)
qed

text \<open>The moments that begin a period of a grain.\<close>

definition period_start :: "time_grain \<Rightarrow> datetime \<Rightarrow> bool" where
  "period_start g t \<longleftrightarrow> valid_datetime t \<and>
     (case g of
        GHour \<Rightarrow> dt_micros t = dt_hour t * hour_micros
      | GDay \<Rightarrow> dt_micros t = 0
      | GWeek \<Rightarrow> dt_micros t = 0 \<and> weekday (dt_date t) = 0
      | GMonth \<Rightarrow> dt_micros t = 0 \<and> d_day (dt_date t) = 1
      | GQuarter \<Rightarrow> dt_micros t = 0 \<and> d_day (dt_date t) = 1 \<and> (d_month (dt_date t) - 1) mod 3 = 0
      | GYear \<Rightarrow> dt_micros t = 0 \<and> d_day (dt_date t) = 1 \<and> d_month (dt_date t) = 1)"

lemma map_of_fields:
  "map_of (map (\<lambda>c. (c, f c)) ds) c = (if c \<in> set ds then Some (f c) else None)"
  by (induction ds) auto

lemma mk_datetime_hour:
  "valid_datetime t \<Longrightarrow> dt_micros t = dt_hour t * hour_micros \<Longrightarrow>
    mk_datetime (d_year (dt_date t)) (d_month (dt_date t)) (d_day (dt_date t)) (dt_hour t) = Inr t"
  using hour_bounds [of t] by (simp add: mk_datetime_def valid_datetime_def datetime.expand)

lemma mk_datetime_midnight:
  "valid_datetime t \<Longrightarrow> dt_micros t = 0 \<Longrightarrow>
    mk_datetime (d_year (dt_date t)) (d_month (dt_date t)) (d_day (dt_date t)) 0 = Inr t"
  by (simp add: mk_datetime_def valid_datetime_def datetime.expand)

lemma quarter_month_back: "(m - 1) mod 3 = 0 \<Longrightarrow> 3 * ((m - 1) div 3 + 1 - 1) + 1 = m" for m :: int
  using mult_div_mod_eq [of 3 "m - 1"] by simp

lemma assemble_fields:
  assumes "period_start g t" and "set ds = set (REQUIRED_DIRECTIVES g)"
  shows "assemble g (map (\<lambda>c. (c, field_value t c)) ds) = Some t"
proof -
  define ps where "ps = map (\<lambda>c. (c, field_value t c)) ds"
  have v: "valid_datetime t" and d: "valid_date (dt_date t)"
    using assms(1) by (simp_all add: period_start_def valid_datetime_def)
  have m: "map_of ps c = (if c \<in> set (REQUIRED_DIRECTIVES g) then Some (field_value t c) else None)" for c
    by (simp add: ps_def map_of_fields assms(2))
  note defs = assemble_def part_def m field_value_def Let_def period_start_def
  have "assemble g ps = Some t"
  proof (cases g)
    case GWeek
    then have "fromisocalendar_monday (fst (isocalendar (dt_date t))) (snd (isocalendar (dt_date t))) =
        Inr (dt_date t)"
      using fromisocalendar_isocalendar [OF d _ prod.collapse [symmetric]] assms(1)
      by (simp add: period_start_def)
    then show ?thesis using GWeek assms(1) by (simp add: defs datetime.expand)
  next
    case GHour
    then show ?thesis using assms(1) mk_datetime_hour [OF v] by (simp add: defs)
  next
    case GQuarter
    then show ?thesis
      using assms(1) mk_datetime_midnight [OF v] quarter_month_back [of "d_month (dt_date t)"]
      by (simp add: defs)
  qed (use assms(1) mk_datetime_midnight [OF v] in \<open>simp_all add: defs\<close>)
  then show ?thesis by (simp add: ps_def)
qed

lemma render_read:
  assumes "compile_time_format fmt g = Inr tf" and "period_start g t"
  shows "tf_parse tf (tf_render tf t) = (if strip fmt = fmt then Some t else None)"
proof -
  note c = compile_ok [OF assms(1)]
  define s where "s = concat (map (render_token t) (tokens fmt))"
  have r: "tf_render tf t = s" by (simp add: tf_render_def c(3) s_def)
  have v: "valid_datetime t" using assms(2) by (simp add: period_start_def)
  have ne: "fmt \<noteq> []"
  proof
    assume "fmt = []"
    then have "set (REQUIRED_DIRECTIVES g) = {}" using c(4,6) by simp
    then show False by (cases g) simp_all
  qed
  note sp = render_space [OF ne c(7), of t, folded s_def]
  have m: "fullmatch (tokens fmt) s = Some (map (\<lambda>c. (c, field_value t c)) (dirs (tokens fmt)))"
    unfolding s_def by (rule fullmatch_render [OF v c(7)])
  show ?thesis
  proof (cases "is_space (hd fmt) \<or> is_space (last fmt)")
    case True
    then have "length (strip s) < length s" and "strip fmt \<noteq> fmt"
      using strip_shorter [OF sp(1)] strip_shorter [OF ne] sp by auto
    moreover have "fullmatch (tokens fmt) (strip s) = None"
      using fullmatch_length [of "tokens fmt" "strip s"] fullmatch_length [OF m] \<open>length (strip s) < length s\<close>
      by (cases "fullmatch (tokens fmt) (strip s)") auto
    ultimately show ?thesis by (simp add: tf_parse_def r c(3))
  next
    case False
    then have "strip s = s" "strip fmt = fmt" using sp by (simp_all add: strip_id)
    moreover have "assemble g (map (\<lambda>c. (c, field_value t c)) (dirs (tokens fmt))) = Some t"
      by (rule assemble_fields [OF assms(2)]) (use c(4,6) in simp)
    ultimately show ?thesis by (simp add: tf_parse_def r c(2,3) m)
  qed
qed

section \<open>Text order and time order\<close>

text \<open>Labels of one format compare as the lists of their numbers do.\<close>

lemma render_less_iff:
  assumes "valid_datetime t" and "valid_datetime u"
    and "\<forall>c\<in>set (dirs ts). map_of DIRECTIVES c \<noteq> None"
  shows "concat (map (render_token t) ts) < concat (map (render_token u) ts) \<longleftrightarrow>
    map (field_value t) (dirs ts) < map (field_value u) (dirs ts)"
  using assms(3)
proof (induction ts)
  case (Cons a ts)
  show ?case
  proof (cases "\<exists>c. a = Dir c \<and> c \<noteq> CHR ''%''")
    case True
    then obtain c where a: "a = Dir c" "c \<noteq> CHR ''%''" by blast
    then have c: "map_of DIRECTIVES c \<noteq> None" using Cons.prems by simp
    let ?w = "directive_width c" and ?m = "nat (field_value t c)" and ?n = "nat (field_value u c)"
    have b: "?m < 10 ^ ?w" "?n < 10 ^ ?w"
      using field_value_bounds(1,2) [OF _ c] assms(1,2) by (simp_all add: nat_less_iff)
    have eq: "show_width ?w ?m = show_width ?w ?n \<longleftrightarrow> ?m = ?n"
      using show_width_inj [OF b] by auto
    have mn: "?m < ?n \<longleftrightarrow> field_value t c < field_value u c" "?m = ?n \<longleftrightarrow> field_value t c = field_value u c"
      using field_value_bounds(1) [OF assms(1) c] field_value_bounds(1) [OF assms(2) c] by auto
    show ?thesis
      using Cons a by (simp only: dirs.simps render_token.simps list.map concat.simps if_False
          lex_append_same_length length_show_width show_width_less_iff [OF b] eq mn) auto
  next
    case False
    then show ?thesis using Cons by (cases a) auto
  qed
qed simp

lemma date_less_fields:
  "a < b \<longleftrightarrow> [d_year a, d_month a, d_day a] < [d_year b, d_month b, d_day b]" for a b :: date
  by (auto simp: less_date_def)

lemma month_less_quarter:
  "(m - 1) mod 3 = 0 \<Longrightarrow> (n - 1) mod 3 = 0 \<Longrightarrow> (m - 1) div 3 < (n - 1) div 3 \<longleftrightarrow> m < (n::int)"
  using mult_div_mod_eq [of 3 "m - 1"] mult_div_mod_eq [of 3 "n - 1"] by linarith

lemma fields_less_iff:
  assumes "period_start g t" and "period_start g u"
  shows "map (field_value t) (REQUIRED_DIRECTIVES g) < map (field_value u) (REQUIRED_DIRECTIVES g) \<longleftrightarrow> t < u"
proof (cases g)
  case GWeek
  have d: "valid_date (dt_date t)" "weekday (dt_date t) = 0" "dt_micros t = 0"
    "valid_date (dt_date u)" "weekday (dt_date u) = 0" "dt_micros u = 0"
    using assms GWeek by (simp_all add: period_start_def valid_datetime_def)
  show ?thesis
    using isocalendar_less_iff [OF d(1,2) prod.collapse [symmetric] d(4,5) prod.collapse [symmetric]] d(3,6)
    by (auto simp: GWeek field_value_def less_datetime_def Let_def)
next
  case GQuarter
  then show ?thesis
    using assms month_less_quarter [of "d_month (dt_date t)" "d_month (dt_date u)"]
      month_less_quarter [of "d_month (dt_date u)" "d_month (dt_date t)"]
    by (auto simp: field_value_def less_datetime_def date_less_fields period_start_def)
next
  case GHour
  have "hour_micros > 0" by (simp add: hour_micros_def)
  then show ?thesis
    using assms GHour
    by (auto simp: field_value_def less_datetime_def date_less_fields period_start_def date.expand)
qed (use assms in \<open>auto simp: field_value_def less_datetime_def date_less_fields period_start_def\<close>)

lemma render_order:
  assumes "compile_time_format fmt g = Inr tf" and "sorts_chronologically tf"
    and "period_start g t" and "period_start g u"
  shows "tf_render tf t < tf_render tf u \<longleftrightarrow> t < u"
proof -
  note c = compile_ok [OF assms(1)]
  have "dirs (tokens fmt) = REQUIRED_DIRECTIVES g"
    using assms(2) c(2,4) by (simp add: sorts_chronologically_def)
  moreover have "valid_datetime t" "valid_datetime u"
    using assms(3,4) by (simp_all add: period_start_def)
  ultimately show ?thesis
    using render_less_iff [OF _ _ c(7)] fields_less_iff [OF assms(3,4)] by (simp add: tf_render_def c(3))
qed

section \<open>The label contract\<close>

text \<open>
  What readers of period labels rely on: the printer and the reader of a format undo each other
  on the period starts of the format.
\<close>

locale label_codec =
  fixes prt :: "'f \<Rightarrow> datetime \<Rightarrow> string" and rd :: "'f \<Rightarrow> string \<Rightarrow> datetime option"
    and starts :: "'f \<Rightarrow> datetime set"
  assumes read_print: "t \<in> starts f \<Longrightarrow> rd f (prt f t) = Some t"
begin

lemma print_inj: "inj_on (prt f) (starts f)"
  by (rule inj_onI) (metis option.inject read_print)

lemma print_eq_iff: "t \<in> starts f \<Longrightarrow> u \<in> starts f \<Longrightarrow> prt f t = prt f u \<longleftrightarrow> t = u"
  using print_inj by (auto dest: inj_onD)

end

text \<open>
  A format whose labels also sort by time. The latest label by text order is then the label of
  the latest period, which is what a \<^verbatim>\<open>MAX\<close> over the label column returns.
\<close>

locale sorted_label_codec = label_codec +
  assumes print_less: "t \<in> starts f \<Longrightarrow> u \<in> starts f \<Longrightarrow> prt f t < prt f u \<longleftrightarrow> t < u"
begin

lemma print_le: "t \<in> starts f \<Longrightarrow> u \<in> starts f \<Longrightarrow> prt f t \<le> prt f u \<longleftrightarrow> t \<le> u"
  using print_less [of u f t] by (simp add: not_less [symmetric])

lemma max_label:
  assumes "finite A" and "A \<noteq> {}" and "A \<subseteq> starts f"
  shows "rd f (Max (prt f ` A)) = Some (Max A)"
proof -
  have m: "Max A \<in> starts f" using Max_in [OF assms(1,2)] assms(3) by blast
  have "Max (prt f ` A) = prt f (Max A)"
  proof (rule Max_eqI)
    fix y
    assume "y \<in> prt f ` A"
    then obtain t where t: "t \<in> A" "y = prt f t" by blast
    then have "t \<le> Max A" using assms(1) by simp
    then show "y \<le> prt f (Max A)" using t assms(3) m print_le [of t f "Max A"] by blast
  qed (use assms Max_in in auto)
  then show ?thesis using read_print [OF m] by simp
qed

end

text \<open>The compiled formats without outer white space, and the ones among them that sort.\<close>

definition label_starts :: "time_format \<Rightarrow> datetime set" where
  "label_starts tf =
     {t. compile_time_format (tf_format tf) (tf_grain tf) = Inr tf \<and>
         strip (tf_format tf) = tf_format tf \<and> period_start (tf_grain tf) t}"

definition sorted_starts :: "time_format \<Rightarrow> datetime set" where
  "sorted_starts tf = (if sorts_chronologically tf then label_starts tf else {})"

interpretation tf: label_codec tf_render tf_parse label_starts
  by unfold_locales (auto simp: label_starts_def render_read)

interpretation stf: sorted_label_codec tf_render tf_parse sorted_starts
  by unfold_locales
    (auto simp: sorted_starts_def tf.read_print render_order label_starts_def render_read split: if_splits)

section \<open>Properties\<close>


definition month_format :: time_format where
  "month_format = \<lparr>tf_format = ''%Y-%m'', tf_grain = GMonth, tf_directives = ''Ym'',
     tf_pattern = [Dir CHR ''Y'', Lit CHR ''-'', Dir CHR ''m'']\<rparr>"


text \<open>
  When \<^verbatim>\<open>sorts_chronologically\<close> holds, labels compare as text exactly as their periods
  compare in time, ISO weeks included, so the greatest label of a column is the label of its
  latest period.
\<close>

theorem sorted_labels_are_chronological:
  assumes "compile_time_format fmt g = Inr tf" and "sorts_chronologically tf"
    and "strip fmt = fmt" and "finite A" and "A \<noteq> {}" and "\<forall>t\<in>A. period_start g t"
  shows "(\<forall>t\<in>A. \<forall>u\<in>A. tf_render tf t < tf_render tf u \<longleftrightarrow> t < u) \<and>
    tf_parse tf (Max (tf_render tf ` A)) = Some (Max A)"
proof -
  have "A \<subseteq> sorted_starts tf"
    using assms compile_ok(1,2) [OF assms(1)] by (auto simp: sorted_starts_def label_starts_def)
  then show ?thesis
    using stf.max_label [OF assms(4,5)] stf.print_less [of _ tf] by blast
qed

lemma sorted_labels_are_chronological_witness:
  "sorts_chronologically month_format \<and>
   tf_parse month_format
     (Max (tf_render month_format ` {midnight (Date 2025 12 1), midnight (Date 2026 2 1)})) =
   Some (midnight (Date 2026 2 1))"
proof -
  have c: "compile_time_format ''%Y-%m'' GMonth = Inr month_format"
    and q: "sorts_chronologically month_format" and s: "strip ''%Y-%m'' = ''%Y-%m''"
    and p: "\<forall>t\<in>{midnight (Date 2025 12 1), midnight (Date 2026 2 1)}. period_start GMonth t"
    and m: "max (midnight (Date 2025 12 1)) (midnight (Date 2026 2 1)) = midnight (Date 2026 2 1)"
    by code_simp+
  show ?thesis
    using sorted_labels_are_chronological [OF c q s _ _ p] q m by simp
qed

end
