(* ===== verification/Periods.thy ===== *)
theory Periods
  imports Durations Time_Formats
begin

text \<open>
  \<^verbatim>\<open>src/canonic/trust/periods.py\<close>: the start and the end of a period, the reader of dimension
  values, and the check that flags a served result whose latest period has not ended.
  \<^verbatim>\<open>datetime.fromisoformat\<close> is a parameter of the reader (\<open>isoparse\<close>): the theorems hold whatever it
  reads.
\<close>

section \<open>Periods of a grain\<close>

fun grain_months :: "time_grain \<Rightarrow> int option" where
  "grain_months GMonth = Some 1"
| "grain_months GQuarter = Some 3"
| "grain_months GYear = Some 12"
| "grain_months g = None"

text \<open>\<^verbatim>\<open>start.replace(year=y, month=m, day=1)\<close>\<close>

definition replace_month :: "datetime \<Rightarrow> int \<Rightarrow> int \<Rightarrow> datetime res" where
  "replace_month t y m =
     (if valid_date (Date y m 1) then Inr (Datetime (Date y m 1) (dt_micros t)) else Inl ValueError)"

definition period_end :: "datetime \<Rightarrow> time_grain \<Rightarrow> datetime res" where
  "period_end start g =
     (case g of
        GHour \<Rightarrow> add_micros start hour_micros
      | GDay \<Rightarrow> add_micros start day_micros
      | GWeek \<Rightarrow> add_micros start (7 * day_micros)
      | _ \<Rightarrow>
          (let month_index = d_year (dt_date start) * 12 + (d_month (dt_date start) - 1) +
                             the (grain_months g)
           in replace_month start (month_index div 12) (month_index mod 12 + 1)))"

definition floor_to_grain :: "datetime \<Rightarrow> time_grain \<Rightarrow> datetime res" where
  "floor_to_grain moment g =
     (let day = dt_date moment
      in case g of
           GHour \<Rightarrow> Inr (Datetime day (dt_hour moment * hour_micros))
         | GDay \<Rightarrow> Inr (midnight day)
         | GWeek \<Rightarrow> map_sum id midnight (add_days day (- weekday day))
         | GMonth \<Rightarrow> Inr (midnight (Date (d_year day) (d_month day) 1))
         | GQuarter \<Rightarrow> Inr (midnight (Date (d_year day) (3 * ((d_month day - 1) div 3) + 1) 1))
         | GYear \<Rightarrow> Inr (midnight (Date (d_year day) 1 1)))"

section \<open>Reading a dimension value\<close>

text \<open>A value of a result row; a datetime carries its UTC offset when it is aware.\<close>

datatype cell =
    CDatetime datetime "int option"
  | CDate date
  | CBool bool
  | CInt int
  | CStr string
  | COther

text \<open>\<^verbatim>\<open>value.astimezone(UTC).replace(tzinfo=None) if value.tzinfo else value\<close>\<close>

fun to_naive_utc :: "datetime \<Rightarrow> int option \<Rightarrow> datetime res" where
  "to_naive_utc t None = Inr t"
| "to_naive_utc t (Some off) = add_micros t (- off)"

text \<open>\<^verbatim>\<open>str(n)\<close> of an integer.\<close>

definition show_int :: "int \<Rightarrow> string" where
  "show_int n = (if n < 0 then CHR ''-'' # show_nat (nat (- n)) else show_nat (nat n))"

text \<open>The four label expressions; a match gives the year and the second number.\<close>

definition four_digits :: "string \<Rightarrow> bool" where
  "four_digits s \<longleftrightarrow> 4 \<le> length s \<and> list_all is_digit (take 4 s)"

definition re_year :: "string \<Rightarrow> int option" where
  "re_year s = (if four_digits s \<and> length s = 4 then Some (int (nat_of_digits s)) else None)"

definition two_digits :: "string \<Rightarrow> int option" where
  "two_digits s =
     (if length s = 2 \<and> list_all is_digit s then Some (int (nat_of_digits s)) else None)"

definition re_month :: "string \<Rightarrow> (int \<times> int) option" where
  "re_month s =
     (if four_digits s then
        (case drop 4 s of
           [] \<Rightarrow> None
         | c # r \<Rightarrow> if c = CHR ''-''
             then map_option (Pair (int (nat_of_digits (take 4 s)))) (two_digits r) else None)
      else None)"

text \<open>The optional hyphen and the period letter of either case.\<close>

definition after_mark :: "char \<Rightarrow> char \<Rightarrow> string \<Rightarrow> string option" where
  "after_mark up lo s =
     (case (if s \<noteq> [] \<and> hd s = CHR ''-'' then tl s else s) of
        [] \<Rightarrow> None | c # r \<Rightarrow> if c = up \<or> c = lo then Some r else None)"

definition re_quarter :: "string \<Rightarrow> (int \<times> int) option" where
  "re_quarter s =
     (if four_digits s then
        (case after_mark CHR ''Q'' CHR ''q'' (drop 4 s) of
           None \<Rightarrow> None
         | Some r \<Rightarrow> if length r = 1 \<and> hd r \<in> set ''1234''
             then Some (int (nat_of_digits (take 4 s)), int (digit_value (hd r))) else None)
      else None)"

definition re_week :: "string \<Rightarrow> (int \<times> int) option" where
  "re_week s =
     (if four_digits s then
        (case after_mark CHR ''W'' CHR ''w'' (drop 4 s) of
           None \<Rightarrow> None
         | Some r \<Rightarrow> map_option (Pair (int (nat_of_digits (take 4 s)))) (two_digits r))
      else None)"

text \<open>A call inside \<^verbatim>\<open>try ... except ValueError: return None\<close>.\<close>

definition none_on_value_error :: "'a res \<Rightarrow> 'a option res" where
  "none_on_value_error r =
     (case r of Inr x \<Rightarrow> Inr (Some x) | Inl e \<Rightarrow> if is_value_error e then Inr None else Inl e)"

definition parse_label :: "(string \<Rightarrow> (datetime \<times> int option) option) \<Rightarrow> string \<Rightarrow> time_grain \<Rightarrow>
    datetime option res" where
  "parse_label isoparse text g =
     (case re_year text of Some y \<Rightarrow> none_on_value_error (mk_datetime y 1 1 0)
      | None \<Rightarrow>
     (case re_month text of
        Some (y, m) \<Rightarrow>
          if g = GWeek then none_on_value_error (map_sum id midnight (fromisocalendar_monday y m))
          else none_on_value_error (mk_datetime y m 1 0)
      | None \<Rightarrow>
     (case re_quarter text of
        Some (y, q) \<Rightarrow> none_on_value_error (mk_datetime y (3 * (q - 1) + 1) 1 0)
      | None \<Rightarrow>
     (case re_week text of
        Some (y, w) \<Rightarrow> none_on_value_error (map_sum id midnight (fromisocalendar_monday y w))
      | None \<Rightarrow>
     (case isoparse text of
        None \<Rightarrow> Inr None
      | Some (t, off) \<Rightarrow> none_on_value_error (to_naive_utc t off))))))"

definition parse_period_start :: "(string \<Rightarrow> (datetime \<times> int option) option) \<Rightarrow> cell \<Rightarrow> time_grain \<Rightarrow>
    time_format option \<Rightarrow> datetime option res" where
  "parse_period_start isoparse value g fmt =
     (case value of
        CDatetime t off \<Rightarrow> map_sum id Some (to_naive_utc t off)
      | CDate d \<Rightarrow> Inr (Some (midnight d))
      | _ \<Rightarrow>
        (case fmt of
           Some tf \<Rightarrow>
             (case value of
                CStr s \<Rightarrow> Inr (tf_parse tf s)
              | CInt n \<Rightarrow> Inr (tf_parse tf (show_int n))
              | _ \<Rightarrow> Inr None)
         | None \<Rightarrow>
             (case value of
                CInt n \<Rightarrow> Inr (if g = GYear \<and> 1 \<le> n \<and> n \<le> 9999 then Some (midnight (Date n 1 1)) else None)
              | CStr s \<Rightarrow> parse_label isoparse (strip s) g
              | _ \<Rightarrow> Inr None)))"

section \<open>Open periods\<close>

record open_period =
  op_dimension :: string
  op_grain :: time_grain
  op_start :: datetime
  op_format :: "time_format option"

record time_dimension =
  td_column :: string
  td_grain :: time_grain
  td_format :: "time_format option"

record probe_column =
  pc_kind :: string
  pc_subject :: string
  pc_grain :: "time_grain option"
  pc_format :: "time_format option"

record result_set =
  rs_names :: "string list"
  rs_rows :: "cell list list"

definition PROBE_LATEST_PERIOD :: string where
  "PROBE_LATEST_PERIOD = ''latest_period''"

fun index_of :: "'a \<Rightarrow> 'a list \<Rightarrow> nat" where
  "index_of x [] = 0"
| "index_of x (y # ys) = (if x = y then 0 else Suc (index_of x ys))"

definition row_cell :: "cell list \<Rightarrow> nat \<Rightarrow> cell res" where
  "row_cell row i = (if i < length row then Inr (row ! i) else Inl IndexError)"

text \<open>The readable starts of a column, in row order.\<close>

fun read_starts :: "(string \<Rightarrow> (datetime \<times> int option) option) \<Rightarrow> nat \<Rightarrow> time_grain \<Rightarrow> time_format option \<Rightarrow>
    cell list list \<Rightarrow> datetime list res" where
  "read_starts isoparse i g fmt [] = Inr []"
| "read_starts isoparse i g fmt (row # rows) =
     rbind (rbind (row_cell row i) (\<lambda>v. parse_period_start isoparse v g fmt)) (\<lambda>s.
     rbind (read_starts isoparse i g fmt rows) (\<lambda>ss.
     Inr (case s of None \<Rightarrow> ss | Some t \<Rightarrow> t # ss)))"

definition latest_open :: "(string \<Rightarrow> (datetime \<times> int option) option) \<Rightarrow> time_dimension \<Rightarrow> string list \<Rightarrow>
    cell list list \<Rightarrow> datetime \<Rightarrow> open_period option res" where
  "latest_open isoparse td names rows now =
     (if td_column td \<notin> set names then Inr None
      else rbind (read_starts isoparse (index_of (td_column td) names) (td_grain td) (td_format td) rows)
        (\<lambda>starts.
          if starts = [] then Inr None
          else rbind (period_end (Max (set starts)) (td_grain td)) (\<lambda>e.
            if e \<le> now then Inr None
            else Inr (Some \<lparr>op_dimension = td_column td, op_grain = td_grain td,
                            op_start = Max (set starts), op_format = td_format td\<rparr>))))"

definition probe_open :: "(string \<Rightarrow> (datetime \<times> int option) option) \<Rightarrow>
    (string \<times> string, cell) dict \<Rightarrow> datetime \<Rightarrow> probe_column \<Rightarrow> open_period option res" where
  "probe_open isoparse probes now p =
     (case pc_grain p of
        None \<Rightarrow> Inr None
      | Some g \<Rightarrow>
          if pc_kind p \<noteq> PROBE_LATEST_PERIOD then Inr None
          else
            rbind (parse_period_start isoparse
                (case map_of probes (pc_kind p, pc_subject p) of None \<Rightarrow> COther | Some v \<Rightarrow> v)
                g (pc_format p)) (\<lambda>latest.
              case latest of
                None \<Rightarrow> Inr None
              | Some t \<Rightarrow>
                  rbind (floor_to_grain t g) (\<lambda>start.
                  rbind (period_end start g) (\<lambda>e.
                    if now < e
                    then Inr (Some \<lparr>op_dimension = pc_subject p, op_grain = g, op_start = start,
                                    op_format = pc_format p\<rparr>)
                    else Inr None))))"

fun collect :: "('a \<Rightarrow> 'b option res) \<Rightarrow> 'a list \<Rightarrow> 'b list res" where
  "collect f [] = Inr []"
| "collect f (x # xs) = rbind (f x) (\<lambda>y. rbind (collect f xs) (\<lambda>ys.
     Inr (case y of None \<Rightarrow> ys | Some z \<Rightarrow> z # ys)))"

definition open_periods :: "(string \<Rightarrow> (datetime \<times> int option) option) \<Rightarrow> bool \<Rightarrow>
    time_dimension list \<Rightarrow> probe_column list \<Rightarrow> result_set option \<Rightarrow>
    (datetime \<times> int option) option \<Rightarrow> (string \<times> string, cell) dict \<Rightarrow> open_period list res" where
  "open_periods isoparse has_finality dims probe_cols result now probes =
     (case (result, now) of
        (Some rs, Some (t, off)) \<Rightarrow>
          if has_finality then Inr []
          else
            rbind (to_naive_utc t off) (\<lambda>now_utc.
            rbind (collect (\<lambda>td. latest_open isoparse td (rs_names rs) (rs_rows rs) now_utc) dims) (\<lambda>found.
            rbind (collect (probe_open isoparse probes now_utc) probe_cols) (\<lambda>more.
              Inr (found @ more))))
      | _ \<Rightarrow> Inr [])"

section \<open>Periods as units\<close>

fun grain_unit :: "time_grain \<Rightarrow> duration_unit" where
  "grain_unit GHour = HOUR"
| "grain_unit GDay = DAY"
| "grain_unit GWeek = WEEK"
| "grain_unit GMonth = MONTH"
| "grain_unit GQuarter = QUARTER"
| "grain_unit GYear = YEAR"

text \<open>The period of a grain a moment lies in, as a number.\<close>

definition grain_index :: "time_grain \<Rightarrow> datetime \<Rightarrow> int" where
  "grain_index g t =
     (if g = GHour then instant t div hour_micros else period_index (grain_unit g) (dt_date t))"

lemma grain_unit_rank: "g \<noteq> GHour \<Longrightarrow> 2 \<le> rank (grain_unit g)"
  by (cases g) simp_all

lemma floor_to_grain_day:
  assumes "valid_datetime t" and "g \<noteq> GHour"
  shows "floor_to_grain t g = Inr (midnight (unit_floor (grain_unit g) (dt_date t)))"
  using assms by (cases g) (simp_all add: floor_to_grain_def valid_datetime_def add_days_weekday Let_def)

lemma hour_split:
  assumes "valid_datetime t"
  shows "instant t div hour_micros = 24 * toordinal (dt_date t) + dt_hour t"
    "dt_hour t * hour_micros \<le> dt_micros t" "dt_micros t < (dt_hour t + 1) * hour_micros"
proof -
  have "instant t = dt_micros t + (24 * toordinal (dt_date t)) * hour_micros"
    by (simp add: instant_def day_micros_def hour_micros_def)
  moreover have h: "hour_micros \<noteq> 0" by (simp add: hour_micros_def)
  ultimately show "instant t div hour_micros = 24 * toordinal (dt_date t) + dt_hour t"
    by (simp add: dt_hour_def)
  have "dt_micros t = dt_hour t * hour_micros + dt_micros t mod hour_micros"
    by (simp add: dt_hour_def)
  moreover have "0 \<le> dt_micros t mod hour_micros" "dt_micros t mod hour_micros < hour_micros"
    by (simp_all add: hour_micros_def)
  ultimately show "dt_hour t * hour_micros \<le> dt_micros t" "dt_micros t < (dt_hour t + 1) * hour_micros"
    unfolding distrib_right by linarith+
qed

lemma dt_hour_of_hour [simp]: "dt_hour (Datetime d (h * hour_micros)) = h"
  by (simp add: dt_hour_def hour_micros_def)

lemma hour_start_valid:
  assumes "valid_datetime t"
  shows "valid_datetime (Datetime (dt_date t) (dt_hour t * hour_micros))"
  using assms hour_split(2) [OF assms] hour_bounds(1) [OF assms]
  by (simp add: valid_datetime_def hour_micros_def)

lemma quarter_start_mod: "(3 * ((m - 1) div 3) + 1 - 1) mod 3 = 0" for m :: int
  by simp

lemma period_start_iff_floor:
  assumes "valid_datetime t"
  shows "period_start g t \<longleftrightarrow> floor_to_grain t g = Inr t"
proof (cases "g = GHour")
  case True
  then show ?thesis
    using assms by (cases t) (auto simp: period_start_def floor_to_grain_def)
next
  case False
  have d: "valid_date (dt_date t)" using assms by (simp add: valid_datetime_def)
  have m: "monday_of (dt_date t) = dt_date t \<longleftrightarrow> weekday (dt_date t) = 0"
    using monday_of_spec [OF d] toordinal_inj [OF monday_of_spec(1) [OF d] d] by auto
  have q: "(x - 1) mod 3 = 0 \<longleftrightarrow> 3 * ((x - 1) div 3) + 1 = x" for x :: int
    using mult_div_mod_eq [of 3 "x - 1"] by linarith
  obtain x u where t: "t = Datetime x u" by (cases t)
  show ?thesis
    using False assms m q [of "d_month x"]
    by (cases g; cases x) (auto simp: floor_to_grain_day period_start_def t)
qed

lemma floor_is_start:
  assumes "valid_datetime t"
  shows "\<exists>s. floor_to_grain t g = Inr s \<and> period_start g s \<and> s \<le> t \<and> grain_index g s = grain_index g t"
proof (cases "g = GHour")
  case True
  then show ?thesis
    using hour_split [OF assms] hour_split(1) [OF hour_start_valid [OF assms]] hour_start_valid [OF assms]
    by (auto simp: floor_to_grain_def period_start_def less_eq_datetime_def grain_index_def)
next
  case False
  have d: "valid_date (dt_date t)" using assms by (simp add: valid_datetime_def)
  note L = unit_floor_period_unit [OF grain_unit_rank [OF False]]
  let ?s = "midnight (unit_floor (grain_unit g) (dt_date t))"
  have v: "valid_datetime ?s"
    using period_unit.flr_valid [OF L d] by (simp add: valid_datetime_def day_micros_def)
  have "period_start g ?s"
    using period_start_iff_floor [OF v] floor_to_grain_day [OF v False] period_unit.flr_idem [OF L d] by simp
  then show ?thesis
    using floor_to_grain_day [OF assms False] period_unit.flr_le [OF L d] period_unit.idx_flr [OF L d]
      False assms
    by (auto simp: grain_index_def less_eq_datetime_def valid_datetime_def)
qed

lemma add_micros_days:
  "add_micros (midnight d) (k * day_micros) = map_sum id midnight (add_days d k)"
proof -
  have "instant (midnight d) + k * day_micros = (toordinal d + k) * day_micros"
    by (simp add: instant_def distrib_right)
  moreover have "(n * day_micros) div day_micros = n" "(n * day_micros) mod day_micros = 0" for n
    using day_micros_pos by simp_all
  ultimately show ?thesis by (simp add: add_micros_def add_days_def Let_def)
qed

lemma period_end_day:
  assumes "period_start g s" and "g \<noteq> GHour"
  shows "period_end s g = map_sum id midnight (add_to_date (dt_date s) (Duration 1 (grain_unit g)) 1)"
proof -
  have s: "s = midnight (dt_date s)"
    using assms by (cases g; cases s) (auto simp: period_start_def)
  have one: "min 1 (days_in_month y m) = 1" for y m
    using days_in_month_bounds(1) [of y m] by simp
  have day: "grain_months g \<noteq> None \<Longrightarrow> d_day (dt_date s) = 1"
    using assms by (cases g) (auto simp: period_start_def)
  have w: "add_micros s day_micros = map_sum id midnight (add_days (dt_date s) 1)"
    "add_micros s (7 * day_micros) = map_sum id midnight (add_days (dt_date s) 7)"
    using add_micros_days [of "dt_date s" 1] add_micros_days [of "dt_date s" 7] s by simp_all
  have m: "dt_micros s = 0" using s by (cases s) simp
  show ?thesis
    using assms(2) day
    by (cases g)
      (simp_all add: period_end_def w add_to_date_def du_months_def du_days_def replace_month_def
        mk_date_def one m Let_def)
qed

lemma hour_dvd_instant: "period_start GHour s \<longleftrightarrow> valid_datetime s \<and> hour_micros dvd instant s"
proof (cases "valid_datetime s")
  case True
  have "hour_micros dvd toordinal (dt_date s) * day_micros"
    by (simp add: day_micros_def hour_micros_def)
  then have "hour_micros dvd instant s \<longleftrightarrow> hour_micros dvd dt_micros s"
    by (simp add: instant_def dvd_add_right_iff)
  also have "\<dots> \<longleftrightarrow> dt_micros s = dt_hour s * hour_micros"
    by (metis dt_hour_def dvd_div_mult_self dvd_triv_right)
  finally show ?thesis using True by (auto simp: period_start_def)
qed (simp add: period_start_def)

lemma period_end_spec:
  assumes "period_start g s" and "period_end s g = Inr e"
  shows "period_start g e \<and> grain_index g e = grain_index g s + 1"
proof (cases "g = GHour")
  case True
  then have a: "add_micros s hour_micros = Inr e" using assms(2) by (simp add: period_end_def)
  note e = add_micros_ok [OF a]
  have d: "hour_micros dvd instant s" using assms(1) True hour_dvd_instant by simp
  then have "hour_micros dvd instant e" using e(2) by simp
  moreover have "instant e div hour_micros = instant s div hour_micros + 1"
    unfolding e(2) by (simp add: hour_micros_def)
  ultimately show ?thesis using True e(1) hour_dvd_instant by (simp add: grain_index_def)
next
  case False
  have v: "valid_datetime s" and d: "valid_date (dt_date s)"
    using assms(1) by (simp_all add: period_start_def valid_datetime_def)
  obtain x where x: "add_to_date (dt_date s) (Duration 1 (grain_unit g)) 1 = Inr x" and e: "e = midnight x"
    using assms(2) period_end_day [OF assms(1) False]
    by (cases "add_to_date (dt_date s) (Duration 1 (grain_unit g)) 1") auto
  have "unit_floor (grain_unit g) (dt_date s) = dt_date s"
    using floor_to_grain_day [OF v False] period_start_iff_floor [OF v] assms(1) by (cases s) auto
  then have fl: "floor_date (dt_date s) (grain_unit g) = Inr (dt_date s)"
    using floor_date_eq [OF d grain_unit_rank [OF False]] by simp
  note ad = add_aligned [OF d fl x]
  then have "unit_floor (grain_unit g) x = x"
    using floor_date_eq [of x, OF _ grain_unit_rank [OF False]] by auto
  moreover have ve: "valid_datetime e"
    using ad by (simp add: e valid_datetime_def day_micros_def)
  ultimately have "period_start g e"
    using period_start_iff_floor [OF ve] floor_to_grain_day [OF ve False] by (simp add: e)
  then show ?thesis using ad False by (simp add: grain_index_def e)
qed

text \<open>Whatever the grain, the period numbers order moments the way their instants do.\<close>

lemma grain_index_mono:
  assumes "valid_datetime t" and "valid_datetime u" and "t \<le> u"
  shows "grain_index g t \<le> grain_index g u"
proof (cases "g = GHour")
  case True
  have "instant t \<le> instant u" using instant_le_iff [OF assms(1,2)] assms(3) by simp
  then have "instant t div hour_micros \<le> instant u div hour_micros"
    by (rule zdiv_mono1) (simp add: hour_micros_def)
  with True show ?thesis by (simp add: grain_index_def)
next
  case False
  have "dt_date t \<le> dt_date u" using assms(3) by (auto simp: less_eq_datetime_def)
  moreover have "valid_date (dt_date t)" "valid_date (dt_date u)"
    using assms by (simp_all add: valid_datetime_def)
  ultimately show ?thesis
    using period_unit.idx_mono [OF unit_floor_period_unit [OF grain_unit_rank [OF False]]] False
    by (simp add: grain_index_def)
qed

lemma grain_index_less: 
  assumes "valid_datetime t" and "valid_datetime u" and "grain_index g t < grain_index g u"
  shows "t < u"
  using grain_index_mono [OF assms(2,1), of g] assms(3) by (cases "u \<le> t") auto

lemma period_start_least:
  assumes "period_start g s" and "valid_datetime t" and "grain_index g s \<le> grain_index g t"
  shows "s \<le> t"
proof -
  have v: "valid_datetime s" using assms(1) by (simp add: period_start_def)
  obtain r where r: "floor_to_grain t g = Inr r" "period_start g r" "r \<le> t" "grain_index g r = grain_index g t"
    using floor_is_start [OF assms(2)] by blast
  have vr: "valid_datetime r" using r(2) by (simp add: period_start_def)
  show ?thesis
  proof (cases "grain_index g s = grain_index g t")
    case False
    then show ?thesis
      using assms(3) grain_index_less [OF v assms(2), of g] by simp
  next
    case True
    have "s = r"
    proof (cases "g = GHour")
      case h: True
      have "instant s = instant r"
        using True r(4) h assms(1) r(2) hour_dvd_instant
        by (metis (no_types, lifting) dvd_mult_div_cancel grain_index_def)
      then show ?thesis using instant_inj [OF v vr] by simp
    next
      case False
      note L = unit_floor_period_unit [OF grain_unit_rank [OF False]]
      have "unit_floor (grain_unit g) (dt_date s) = unit_floor (grain_unit g) (dt_date r)"
        using period_unit.flr_cong [OF L] v vr True r(4) False
        by (simp add: grain_index_def valid_datetime_def)
      then have "floor_to_grain s g = floor_to_grain r g"
        using floor_to_grain_day [OF v False] floor_to_grain_day [OF vr False] by simp
      then show ?thesis
        using period_start_iff_floor [OF v] period_start_iff_floor [OF vr] assms(1) r(2) by simp
    qed
    then show ?thesis using r(3) by simp
  qed
qed

text \<open>A period that is not the last one of the calendar has an end.\<close>

lemma period_end_exists:
  assumes s: "period_start g s" and l: "period_start g l" and less: "s < l"
  shows "\<exists>e. period_end s g = Inr e"
proof -
  have v: "valid_datetime s" "valid_datetime l" "valid_date (dt_date s)" "valid_date (dt_date l)"
    using s l by (simp_all add: period_start_def valid_datetime_def)
  have "grain_index g s < grain_index g l"
    using period_start_least [OF l v(1)] less by (cases "grain_index g l \<le> grain_index g s") auto
  then have idx: "grain_index g s + 1 \<le> grain_index g l" by simp
  show ?thesis
  proof (cases "g = GHour")
    case True
    have "instant s + hour_micros \<le> instant l"
      using idx True s l hour_dvd_instant
      by (auto simp: grain_index_def hour_micros_def elim!: dvdE)
    then have "(instant s + hour_micros) div day_micros \<le> instant l div day_micros"
      by (rule zdiv_mono1 [OF _ day_micros_pos])
    also have "instant l div day_micros = toordinal (dt_date l)"
      using v(2) by (simp add: instant_def valid_datetime_def day_micros_def)
    finally have hi: "(instant s + hour_micros) div day_micros \<le> max_ordinal"
      using toordinal_range(2) [OF v(4)] by simp
    have "instant s div day_micros \<le> (instant s + hour_micros) div day_micros"
      by (rule zdiv_mono1 [OF _ day_micros_pos]) (simp add: hour_micros_def)
    moreover have "instant s div day_micros = toordinal (dt_date s)"
      using v(1) by (simp add: instant_def valid_datetime_def day_micros_def)
    ultimately have "1 \<le> (instant s + hour_micros) div day_micros"
      using toordinal_range(1) [OF v(3)] by simp
    with hi True show ?thesis by (simp add: period_end_def add_micros_def Let_def)
  next
    case False
    let ?u = "grain_unit g" and ?d = "dt_date s" and ?x = "dt_date l"
    have al: "unit_floor ?u ?d = ?d" "unit_floor ?u ?x = ?x"
      using floor_to_grain_day [OF v(1) False] floor_to_grain_day [OF v(2) False] s l
        period_start_iff_floor [OF v(1)] period_start_iff_floor [OF v(2)] by (cases s; cases l; auto)+
    have i: "period_index ?u ?d + 1 \<le> period_index ?u ?x" using idx False by (simp add: grain_index_def)
    have "\<exists>e. add_to_date ?d (Duration 1 ?u) 1 = Inr e"
    proof (cases "unit_months ?u")
      case (Some k)
      have "0 < k" using Some by (cases ?u) auto
      have mi: "month_no ?d = k * period_index ?u ?d" "month_no ?x = k * period_index ?u ?x"
        using month_unit_aligned [OF v(3) Some] month_unit_aligned [OF v(4) Some] al by auto
      have "k * (period_index ?u ?d + 1) \<le> k * period_index ?u ?x"
        using i \<open>0 < k\<close> by simp
      then have "month_no ?d + 1 * (k * 1) \<le> month_no ?x"
        unfolding mi distrib_left by simp
      then show ?thesis
        using add_to_date_months [OF v(3), of "Duration 1 ?u" "k * 1" 1] Some \<open>0 < k\<close>
          month_no_range(1) [OF v(3)] month_no_range(2) [OF v(4)]
        by (auto simp: duration_months_eq)
    next
      case None
      then obtain k where k: "du_days (Duration 1 ?u) = Some k" "k = 1 \<and> ?u = DAY \<or> k = 7 \<and> ?u = WEEK"
        using False by (cases g) (auto simp: du_days_def)
      have "toordinal ?d + 1 * k \<le> toordinal ?x"
        using k(2) i al monday_aligned_iff [OF v(3)] monday_aligned_iff [OF v(4)] by auto
      then show ?thesis
        using add_to_date_days [OF v(3) k(1), of 1] toordinal_range [OF v(3)] toordinal_range [OF v(4)] k(2)
        by auto
    qed
    then show ?thesis using period_end_day [OF s False] by auto
  qed
qed

lemma period_end_mono:
  assumes "period_start g s" and "period_start g l" and "s \<le> l" and "period_end l g = Inr f"
  shows "\<exists>e. period_end s g = Inr e \<and> e \<le> f"
proof (cases "s = l")
  case False
  then have "s < l" using assms(3) by simp
  then obtain e where e: "period_end s g = Inr e" using period_end_exists [OF assms(1,2)] by blast
  have v: "valid_datetime s" "valid_datetime l" using assms by (simp_all add: period_start_def)
  have "grain_index g e \<le> grain_index g f"
    using period_end_spec [OF assms(1) e] period_end_spec [OF assms(2,4)]
      grain_index_mono [OF v assms(3), of g] by simp
  then have "e \<le> f"
    using period_start_least [of g e f] period_end_spec [OF assms(1) e] period_end_spec [OF assms(2,4)]
    by (auto simp: period_start_def)
  with e show ?thesis by blast
qed (use assms(4) in auto)

section \<open>What the check reports\<close>

lemma read_starts_mem:
  assumes "read_starts isoparse i g fmt rows = Inr ss"
  shows "t \<in> set ss \<longleftrightarrow>
    (\<exists>row\<in>set rows. rbind (row_cell row i) (\<lambda>v. parse_period_start isoparse v g fmt) = Inr (Some t))"
  using assms
proof (induction rows arbitrary: ss)
  case (Cons row rows)
  then obtain x xs where "rbind (row_cell row i) (\<lambda>v. parse_period_start isoparse v g fmt) = Inr x"
    "read_starts isoparse i g fmt rows = Inr xs" "ss = (case x of None \<Rightarrow> xs | Some t \<Rightarrow> t # xs)"
    by (auto simp: rbind_def split: sum.splits)
  then show ?case using Cons.IH by (cases x) auto
qed simp

lemma collect_mem:
  assumes "collect f xs = Inr ys"
  shows "y \<in> set ys \<longleftrightarrow> (\<exists>x\<in>set xs. f x = Inr (Some y))" "x \<in> set xs \<Longrightarrow> \<exists>r. f x = Inr r"
  using assms
proof (induction xs arbitrary: ys)
  case (Cons a xs)
  {
    case 1
    then obtain b bs where "f a = Inr b" "collect f xs = Inr bs" "ys = (case b of None \<Rightarrow> bs | Some z \<Rightarrow> z # bs)"
      by (auto simp: rbind_def split: sum.splits)
    then show ?case using Cons.IH by (cases b) auto
  next
    case 2
    then obtain b bs where "f a = Inr b" "collect f xs = Inr bs"
      by (auto simp: rbind_def split: sum.splits)
    then show ?case using Cons.IH 2 by auto
  }
qed auto

lemma open_periods_parts:
  assumes "open_periods isoparse False dims pcs (Some rs) (Some (t, off)) probes = Inr out"
    and "to_naive_utc t off = Inr now"
  obtains found more where
    "collect (\<lambda>td. latest_open isoparse td (rs_names rs) (rs_rows rs) now) dims = Inr found"
    "collect (probe_open isoparse probes now) pcs = Inr more" "out = found @ more"
  using assms by (auto simp: open_periods_def rbind_def split: sum.splits)

lemma latest_open_sound:
  assumes "latest_open isoparse td names rows now = Inr (Some p)"
  shows "op_dimension p = td_column td" "op_grain p = td_grain td"
    "\<exists>e. period_end (op_start p) (op_grain p) = Inr e \<and> now < e"
  using assms
  by (auto simp: latest_open_def rbind_def split: sum.splits if_splits)

lemma latest_open_None:
  assumes "latest_open isoparse td names rows now = Inr None" and "td_column td \<in> set names"
    and "row \<in> set rows"
    and "rbind (row_cell row (index_of (td_column td) names))
      (\<lambda>v. parse_period_start isoparse v (td_grain td) (td_format td)) = Inr (Some s)"
  shows "\<exists>l e. s \<le> l \<and> period_end l (td_grain td) = Inr e \<and> e \<le> now \<and>
    (\<exists>r\<in>set rows. rbind (row_cell r (index_of (td_column td) names))
      (\<lambda>v. parse_period_start isoparse v (td_grain td) (td_format td)) = Inr (Some l))"
proof -
  obtain ss where ss: "read_starts isoparse (index_of (td_column td) names) (td_grain td) (td_format td) rows = Inr ss"
    using assms(1,2) by (auto simp: latest_open_def rbind_def split: sum.splits)
  have "s \<in> set ss" using read_starts_mem [OF ss] assms(3,4) by blast
  then have ne: "ss \<noteq> []" and le: "s \<le> Max (set ss)" and mem: "Max (set ss) \<in> set ss"
    by (auto intro: Max_in)
  obtain e where "period_end (Max (set ss)) (td_grain td) = Inr e" "e \<le> now"
    using assms(1,2) ss ne by (auto simp: latest_open_def rbind_def split: sum.splits if_splits)
  with le mem show ?thesis using read_starts_mem [OF ss] by blast
qed

lemma probe_open_sound:
  assumes "probe_open isoparse probes now q = Inr (Some p)"
  shows "\<exists>e. period_end (op_start p) (op_grain p) = Inr e \<and> now < e"
  using assms
  by (auto simp: probe_open_def rbind_def split: sum.splits if_splits option.splits)

section \<open>Properties\<close>

text \<open>
  \<^verbatim>\<open>floor_to_grain\<close> and \<^verbatim>\<open>period_end\<close> bracket a moment: the floor is the start of a
  period, the moment lies from it up to, and not including, the period's end, and the end is the
  very next period start of the grain.
\<close>

theorem period_brackets_moment:
  assumes "valid_datetime t"
  shows "\<exists>s. floor_to_grain t g = Inr s \<and> period_start g s \<and> s \<le> t \<and>
    (\<forall>e. period_end s g = Inr e \<longrightarrow>
      t < e \<and> period_start g e \<and> (\<forall>r. period_start g r \<longrightarrow> s < r \<longrightarrow> e \<le> r))"
proof -
  obtain s where s: "floor_to_grain t g = Inr s" "period_start g s" "s \<le> t" "grain_index g s = grain_index g t"
    using floor_is_start [OF assms] by blast
  have vs: "valid_datetime s" using s(2) by (simp add: period_start_def)
  have "t < e \<and> period_start g e \<and> (\<forall>r. period_start g r \<longrightarrow> s < r \<longrightarrow> e \<le> r)"
    if "period_end s g = Inr e" for e
  proof (intro conjI allI impI)
    note e = period_end_spec [OF s(2) that]
    then have ve: "valid_datetime e" by (simp add: period_start_def)
    show "t < e" using grain_index_less [OF assms ve, of g] e s(4) by simp
    show "period_start g e" using e by simp
    fix r
    assume r: "period_start g r" "s < r"
    then have vr: "valid_datetime r" by (simp add: period_start_def)
    have "\<not> grain_index g r \<le> grain_index g s"
      using period_start_least [OF r(1) vs] r(2) by auto
    then show "e \<le> r" using period_start_least [of g e r] e vr by simp
  qed
  with s show ?thesis by blast
qed

lemma period_brackets_moment_witness:
  "\<exists>s. floor_to_grain (Datetime (Date 2026 10 18) 5) GWeek = Inr s \<and> period_start GWeek s \<and>
     period_end s GWeek = Inr (midnight (Date 2026 10 19)) \<and>
     Datetime (Date 2026 10 18) 5 < midnight (Date 2026 10 19)"
proof -
  have "valid_datetime (Datetime (Date 2026 10 18) 5)" by code_simp
  from period_brackets_moment [OF this, of GWeek]
  obtain s where s: "floor_to_grain (Datetime (Date 2026 10 18) 5) GWeek = Inr s" "period_start GWeek s"
    "\<And>e. period_end s GWeek = Inr e \<Longrightarrow> Datetime (Date 2026 10 18) 5 < e" by blast
  have "floor_to_grain (Datetime (Date 2026 10 18) 5) GWeek = Inr (midnight (Date 2026 10 12))"
    "period_end (midnight (Date 2026 10 12)) GWeek = Inr (midnight (Date 2026 10 19))"
    by code_simp+
  with s show ?thesis by auto
qed


definition sample_dim :: time_dimension where
  "sample_dim = \<lparr>td_column = ''month'', td_grain = GMonth, td_format = None\<rparr>"

definition sample_result :: result_set where
  "sample_result = \<lparr>rs_names = [''month''], rs_rows = [[CDate (Date 2026 9 1)]]\<rparr>"


text \<open>
  every period the check reports really is open: its end exists and lies after the clock.
  Nothing is reported when a finality rule governs the query.
\<close>

theorem reported_periods_are_open:
  assumes "open_periods isoparse fin dims pcs (Some rs) (Some (t, off)) probes = Inr out"
    and "to_naive_utc t off = Inr now" and "p \<in> set out"
  shows "\<not> fin \<and> (\<exists>e. period_end (op_start p) (op_grain p) = Inr e \<and> now < e)"
proof -
  have f: "\<not> fin" using assms(1,3) by (auto simp: open_periods_def split: if_splits)
  obtain found more where c: "collect (\<lambda>td. latest_open isoparse td (rs_names rs) (rs_rows rs) now) dims = Inr found"
    "collect (probe_open isoparse probes now) pcs = Inr more" and out: "out = found @ more"
    using open_periods_parts [of isoparse dims pcs rs t off probes out now] assms(1,2) f by auto
  then have "(\<exists>td. latest_open isoparse td (rs_names rs) (rs_rows rs) now = Inr (Some p)) \<or>
      (\<exists>q. probe_open isoparse probes now q = Inr (Some p))"
    using assms(3) collect_mem(1) [OF c(1), of p] collect_mem(1) [OF c(2), of p] by auto
  with f show ?thesis using latest_open_sound(3) probe_open_sound by blast
qed

lemma reported_periods_are_open_witness:
  "\<exists>p e. open_periods (\<lambda>_. None) False [sample_dim] [] (Some sample_result)
      (Some (midnight (Date 2026 9 18), None)) [] = Inr [p] \<and>
    period_end (op_start p) (op_grain p) = Inr e \<and> midnight (Date 2026 9 18) < e"
proof -
  let ?p = "\<lparr>op_dimension = ''month'', op_grain = GMonth, op_start = midnight (Date 2026 9 1),
    op_format = None\<rparr>"
  have a: "open_periods (\<lambda>_. None) False [sample_dim] [] (Some sample_result)
      (Some (midnight (Date 2026 9 18), None)) [] = Inr [?p]" by code_simp
  from reported_periods_are_open [OF a, of "midnight (Date 2026 9 18)" ?p] a show ?thesis by auto
qed

text \<open>
  C39: the end of a period cannot be computed exactly for the last period of the calendar: for a
  period start, \<^verbatim>\<open>period_end\<close> raises if and only if no later period start of the grain exists. A
  column that holds the sentinel 9999-12-31 therefore makes the check itself raise
  (\<^verbatim>\<open>OverflowError\<close> for days) instead of staying inactive.
\<close>

theorem period_end_raises_iff_last:
  assumes "period_start g s"
  shows "((\<exists>x. period_end s g = Inl x) \<longleftrightarrow> (\<forall>r. period_start g r \<longrightarrow> r \<le> s)) \<and>
    open_periods (\<lambda>_. None) False [sample_dim\<lparr>td_grain := GDay\<rparr>] []
      (Some (sample_result\<lparr>rs_rows := [[CDate (Date 9999 12 31)]]\<rparr>)) (Some (now, None)) [] =
    Inl OverflowError"
proof (rule conjI)
  show "(\<exists>x. period_end s g = Inl x) \<longleftrightarrow> (\<forall>r. period_start g r \<longrightarrow> r \<le> s)"
  proof (cases "period_end s g")
    case (Inl x)
    then show ?thesis using period_end_exists [OF assms] by (auto simp: not_less [symmetric])
  next
    case (Inr e)
    note e = period_end_spec [OF assms Inr]
    have "s < e"
      using grain_index_less [of s e g] e assms by (simp add: period_start_def)
    then show ?thesis using e Inr by (auto simp: not_le [symmetric])
  qed
  have p: "period_end (midnight (Date 9999 12 31)) GDay = Inl OverflowError" by code_simp
  show "open_periods (\<lambda>_. None) False [sample_dim\<lparr>td_grain := GDay\<rparr>] []
      (Some (sample_result\<lparr>rs_rows := [[CDate (Date 9999 12 31)]]\<rparr>)) (Some (now, None)) [] =
    Inl OverflowError"
    by (simp add: open_periods_def sample_dim_def sample_result_def latest_open_def rbind_def
        row_cell_def parse_period_start_def p)
qed

lemma period_end_raises_iff_last_witness:
  "period_end (midnight (Date 9999 10 1)) GQuarter = Inl ValueError \<and>
   {r. period_start GQuarter r} \<subseteq> {..midnight (Date 9999 10 1)}"
proof -
  have "period_start GQuarter (midnight (Date 9999 10 1))"
    "period_end (midnight (Date 9999 10 1)) GQuarter = Inl ValueError" by code_simp+
  with period_end_raises_iff_last [OF this(1)] show ?thesis by (simp add: subset_iff)
qed

end
