(* ===== verification/Semantic_Model.thy ===== *)
theory Semantic_Model
  imports Time_Formats
begin

text \<open>
  \<^verbatim>\<open>src/canonic/semantic/models.py\<close>: the schema of a semantic source, the validators that run
  when a source is constructed, and the derived properties the compiler reads. The SQL parser is
  third-party code, so what the validators use of it are parameters: \<open>cols\<close> gives the column
  names of an expression, or \<open>None\<close> when it does not parse, and \<open>find_agg\<close> the aggregate call
  of a measure.
\<close>

section \<open>Schema\<close>

datatype normalized_type = STRING_T | INT_T | DECIMAL_T | FLOAT_T | BOOL_T | DATE_T | TIMESTAMP_T | JSON_T

datatype additivity = ADDITIVE | SEMI_ADDITIVE | NON_ADDITIVE

datatype relationship = ONE_TO_ONE | MANY_TO_ONE | ONE_TO_MANY | MANY_TO_MANY

datatype provenance = BOARD_APPROVED | HUMAN_CURATED | INFERRED

fun type_value :: "normalized_type \<Rightarrow> string" where
  "type_value STRING_T = ''string''"
| "type_value INT_T = ''int''"
| "type_value DECIMAL_T = ''decimal''"
| "type_value FLOAT_T = ''float''"
| "type_value BOOL_T = ''bool''"
| "type_value DATE_T = ''date''"
| "type_value TIMESTAMP_T = ''timestamp''"
| "type_value JSON_T = ''json''"

record pack_source_meta =
  ps_pack :: string
  ps_version :: string
  ps_variant :: string

record column =
  col_name :: string
  col_type :: normalized_type
  col_nullable :: bool

record measure =
  me_name :: string
  me_expr :: string
  me_additivity :: additivity
  me_semi_additive_over :: "string list"

record dimension =
  dim_name :: string
  dim_column :: "string option"
  dim_expr :: "string option"
  dim_json_path :: "string list option"
  dim_type :: "normalized_type option"
  dim_granularity :: "string option"
  dim_time_grain :: "string option"
  dim_time_format :: "string option"
  dim_label :: "string option"
  dim_description :: "string option"
  dim_aliases :: "string list"

record join =
  jn_to :: string
  jn_on :: string
  jn_relationship :: relationship
  jn_name :: "string option"

record source_filter =
  sf_name :: string
  sf_expr :: string

record source_meta =
  sm_provenance :: provenance
  sm_source_fingerprint :: "string option"
  sm_definition_fingerprint :: "string option"
  sm_last_validated_at :: "datetime option"
  sm_frozen :: bool
  sm_pack_source :: "pack_source_meta option"

record semantic_source =
  ss_name :: string
  ss_connection :: string
  ss_table :: string
  ss_grain :: "string list"
  ss_columns :: "column list"
  ss_measures :: "measure list"
  ss_dimensions :: "dimension list"
  ss_joins :: "join list"
  ss_filters :: "source_filter list"
  ss_watermark :: "string option"
  ss_meta :: source_meta
  ss_description :: "string option"

section \<open>Measures\<close>

datatype agg = Sum | Count (distinct_arg: bool) | Min_agg | Max_agg | Other_agg

definition is_p0_compilable :: "(string \<Rightarrow> agg option) \<Rightarrow> measure \<Rightarrow> bool" where
  "is_p0_compilable find_agg me =
     (if me_additivity me \<noteq> ADDITIVE then False
      else (case find_agg (me_expr me) of
          None \<Rightarrow> False
        | Some (Count d) \<Rightarrow> \<not> d
        | Some a \<Rightarrow> a \<in> {Sum, Min_agg, Max_agg}))"

text \<open>
  A fingerprint is the digest of a JSON object; the digest of the object's sorted text is a
  parameter.
\<close>

datatype json = JNull | JStr string | JList "json list"

definition jopt :: "string option \<Rightarrow> json" where
  "jopt x = (case x of None \<Rightarrow> JNull | Some s \<Rightarrow> JStr s)"

definition compute_measure_fingerprint :: "((string \<times> json) list \<Rightarrow> string) \<Rightarrow> measure \<Rightarrow> string" where
  "compute_measure_fingerprint sha256 me = ''sha256:'' @ sha256 [(''expr'', JStr (me_expr me))]"

section \<open>Dimensions\<close>

definition PERIOD_GRAINS :: "string list" where
  "PERIOD_GRAINS = [''hour'', ''day'', ''week'', ''month'', ''quarter'', ''year'']"

definition is_derived :: "dimension \<Rightarrow> bool" where
  "is_derived d \<longleftrightarrow> dim_expr d \<noteq> None \<or> dim_json_path d \<noteq> None"

definition compute_dimension_fingerprint ::
    "((string \<times> json) list \<Rightarrow> string) \<Rightarrow> dimension \<Rightarrow> string option" where
  "compute_dimension_fingerprint sha256 d =
     (if \<not> is_derived d then None
      else Some (''sha256:'' @ sha256
        ([(''expr'', jopt (dim_expr d)),
          (''type'', jopt (map_option type_value (dim_type d))),
          (''description'', jopt (dim_description d))] @
         (case dim_json_path d of
            None \<Rightarrow> []
          | Some p \<Rightarrow> [(''column'', jopt (dim_column d)), (''json_path'', JList (map JStr p))]))))"

text \<open>\<^verbatim>\<open>_JSON_KEY_FORBIDDEN\<close>: control characters, quotes and the backslash.\<close>

definition json_key_forbidden :: "char \<Rightarrow> bool" where
  "json_key_forbidden c \<longleftrightarrow>
     (let n = (of_char c :: nat) in n < 32 \<or> n = 127 \<or> n = 39 \<or> n = 34 \<or> n = 92)"

definition bad_segment :: "string \<Rightarrow> bool" where
  "bad_segment s \<longleftrightarrow> s = [] \<or> list_ex json_key_forbidden s"

definition validate_json_path :: "dimension \<Rightarrow> unit res" where
  "validate_json_path d =
     checks [(dim_expr d \<noteq> None, ValueError),
             (dim_json_path d = Some [], ValueError),
             (\<exists>s \<in> set (case dim_json_path d of None \<Rightarrow> [] | Some p \<Rightarrow> p). bad_segment s, ValueError)]"

definition validate_column_xor_expr :: "dimension \<Rightarrow> unit res" where
  "validate_column_xor_expr d =
     rbind (checks [((dim_column d = None) = (dim_expr d = None), ValueError)]) (\<lambda>_.
     rbind (if dim_json_path d \<noteq> None then validate_json_path d else Inr ()) (\<lambda>_.
     checks
       [(is_derived d \<and> dim_type d = None, ValueError),
        (is_derived d \<and> dim_granularity d \<noteq> None \<and> dim_type d \<notin> {Some DATE_T, Some TIMESTAMP_T}, ValueError)]))"

definition validate_time_grain :: "dimension \<Rightarrow> unit res" where
  "validate_time_grain d =
     rbind (checks [(case dim_time_grain d of None \<Rightarrow> False | Some g \<Rightarrow> g \<notin> set PERIOD_GRAINS, ValueError)]) (\<lambda>_.
       case dim_time_format d of
         None \<Rightarrow> Inr ()
       | Some f \<Rightarrow>
           (case dim_time_grain d of
              None \<Rightarrow> Inl ValueError
            | Some g \<Rightarrow>
                (case grain_of_value g of
                   None \<Rightarrow> Inl KeyError
                 | Some tg \<Rightarrow>
                     (case compile_time_format f tg of Inl _ \<Rightarrow> Inl ValueError | Inr _ \<Rightarrow> Inr ()))))"

text \<open>Constructing a \<^verbatim>\<open>Dimension\<close> runs both validators in declaration order.\<close>

definition validate_dimension :: "dimension \<Rightarrow> unit res" where
  "validate_dimension d = rbind (validate_column_xor_expr d) (\<lambda>_. validate_time_grain d)"

definition period_format :: "dimension \<Rightarrow> time_format option res" where
  "period_format d =
     (case (dim_time_format d, dim_time_grain d) of
        (Some f, Some g) \<Rightarrow>
          (case grain_of_value g of
             None \<Rightarrow> Inl KeyError
           | Some tg \<Rightarrow> map_sum id Some (compile_time_format f tg))
      | _ \<Rightarrow> Inr None)"

definition period_grain :: "dimension \<Rightarrow> string option" where
  "period_grain d =
     (case dim_time_grain d of
        Some g \<Rightarrow> Some g
      | None \<Rightarrow>
          (let granularity = str_lower (case dim_granularity d of None \<Rightarrow> [] | Some g \<Rightarrow> g)
           in if granularity \<in> set PERIOD_GRAINS then Some granularity else None))"

text \<open>\<^verbatim>\<open>_columns_in_expr\<close>, then the columns a dimension reads.\<close>

definition columns_in_expr :: "(string \<Rightarrow> string list option) \<Rightarrow> string \<Rightarrow> string list res" where
  "columns_in_expr cols e =
     (case cols e of None \<Rightarrow> Inl ValueError | Some cs \<Rightarrow> Inr (remdups cs))"

definition backing_columns :: "(string \<Rightarrow> string list option) \<Rightarrow> dimension \<Rightarrow> string list res" where
  "backing_columns cols d =
     (case dim_column d of
        Some c \<Rightarrow> Inr [c]
      | None \<Rightarrow> (case dim_expr d of None \<Rightarrow> Inl AssertionError | Some e \<Rightarrow> columns_in_expr cols e))"

definition value_type :: "dimension \<Rightarrow> column list \<Rightarrow> normalized_type option" where
  "value_type d columns =
     (if is_derived d then dim_type d
      else map_option col_type (find (\<lambda>c. Some (col_name c) = dim_column d) columns))"

section \<open>Joins and sources\<close>

text \<open>\<^verbatim>\<open>self.name if self.name else self.to\<close>: an empty name counts as none.\<close>

definition jn_alias :: "join \<Rightarrow> string" where
  "jn_alias j = (case jn_name j of None \<Rightarrow> jn_to j | Some n \<Rightarrow> if n = [] then jn_to j else n)"

fun reject_duplicates_from :: "string \<Rightarrow> nat \<Rightarrow> string set \<Rightarrow> string list \<Rightarrow> unit res" where
  "reject_duplicates_from key i seen [] = Inr ()"
| "reject_duplicates_from key i seen (n # ns) =
     (if n \<in> seen then Inl (SemanticValidationError [PKey key, PIdx i])
      else reject_duplicates_from key (Suc i) (insert n seen) ns)"

definition reject_duplicates :: "string \<Rightarrow> string list \<Rightarrow> unit res" where
  "reject_duplicates key names = reject_duplicates_from key 0 {} names"

definition check_grain :: "string list \<Rightarrow> nat \<times> string \<Rightarrow> unit res" where
  "check_grain names ig =
     (if snd ig \<notin> set names then Inl (SemanticValidationError [PKey ''grain'', PIdx (fst ig)]) else Inr ())"

text \<open>The two reference loops over the sorted columns of an expression.\<close>

definition check_refs :: "string list \<Rightarrow> path_elem list \<Rightarrow> string list res \<Rightarrow> unit res" where
  "check_refs names path refs =
     (case refs of
        Inl e \<Rightarrow> if is_value_error e then Inl (SemanticValidationError path) else Inl e
      | Inr rs \<Rightarrow> rfor (\<lambda>r. if r \<notin> set names then Inl (SemanticValidationError path) else Inr ()) (sort rs))"

definition check_dimension :: "(string \<Rightarrow> string list option) \<Rightarrow> semantic_source \<Rightarrow> nat \<times> dimension \<Rightarrow> unit res" where
  "check_dimension cols src idx =
     (let names = map col_name (ss_columns src); i = fst idx; d = snd idx
      in case dim_column d of
           Some c \<Rightarrow>
             (if c \<notin> set names
              then Inl (SemanticValidationError [PKey ''dimensions'', PIdx i, PKey ''column''])
              else if dim_json_path d \<noteq> None \<and>
                map_option col_type (find (\<lambda>k. col_name k = c) (ss_columns src)) \<noteq> Some JSON_T
              then Inl (SemanticValidationError [PKey ''dimensions'', PIdx i, PKey ''json_path''])
              else Inr ())
         | None \<Rightarrow>
             check_refs names [PKey ''dimensions'', PIdx i, PKey ''expr''] (backing_columns cols d))"

definition check_measure :: "(string \<Rightarrow> string list option) \<Rightarrow> string list \<Rightarrow> nat \<times> measure \<Rightarrow> unit res" where
  "check_measure cols names im =
     check_refs names [PKey ''measures'', PIdx (fst im), PKey ''expr''] (columns_in_expr cols (me_expr (snd im)))"

definition enumerate_list :: "'a list \<Rightarrow> (nat \<times> 'a) list" where
  "enumerate_list xs = zip [0..<length xs] xs"

definition validate_references :: "(string \<Rightarrow> string list option) \<Rightarrow> semantic_source \<Rightarrow> unit res" where
  "validate_references cols src =
     (let names = map col_name (ss_columns src)
      in rbind (reject_duplicates ''columns'' names) (\<lambda>_.
         rbind (reject_duplicates ''measures'' (map me_name (ss_measures src))) (\<lambda>_.
         rbind (reject_duplicates ''dimensions'' (map dim_name (ss_dimensions src))) (\<lambda>_.
         rbind (reject_duplicates ''joins'' (map jn_alias (ss_joins src))) (\<lambda>_.
         rbind (rfor (check_grain names) (enumerate_list (ss_grain src))) (\<lambda>_.
         rbind (rfor (check_dimension cols src) (enumerate_list (ss_dimensions src))) (\<lambda>_.
         rfor (check_measure cols names) (enumerate_list (ss_measures src)))))))))"

text \<open>Constructing a \<^verbatim>\<open>SemanticSource\<close>: its dimensions are constructed first.\<close>

definition validate_source :: "(string \<Rightarrow> string list option) \<Rightarrow> semantic_source \<Rightarrow> unit res" where
  "validate_source cols src =
     rbind (rfor validate_dimension (ss_dimensions src)) (\<lambda>_. validate_references cols src)"

definition own_column :: "semantic_source \<Rightarrow> string \<Rightarrow> column option" where
  "own_column src name =
     (case find (\<lambda>d. dim_name d = name) (ss_dimensions src) of
        None \<Rightarrow> find (\<lambda>c. col_name c = name) (ss_columns src)
      | Some d \<Rightarrow>
          (case dim_column d of
             None \<Rightarrow> None
           | Some c \<Rightarrow> if dim_json_path d \<noteq> None then None
               else find (\<lambda>k. col_name k = c) (ss_columns src)))"

section \<open>What the validators accept\<close>

text \<open>The rules of a dimension, stated without the order of the checks.\<close>

definition dimension_wf :: "dimension \<Rightarrow> bool" where
  "dimension_wf d \<longleftrightarrow>
     (dim_column d = None) \<noteq> (dim_expr d = None) \<and>
     (\<forall>p. dim_json_path d = Some p \<longrightarrow>
        dim_column d \<noteq> None \<and> p \<noteq> [] \<and>
        (\<forall>s\<in>set p. s \<noteq> [] \<and> (\<forall>c\<in>set s. \<not> json_key_forbidden c))) \<and>
     (is_derived d \<longrightarrow> dim_type d \<noteq> None \<and>
        (dim_granularity d \<noteq> None \<longrightarrow> dim_type d = Some DATE_T \<or> dim_type d = Some TIMESTAMP_T)) \<and>
     (\<forall>g. dim_time_grain d = Some g \<longrightarrow> grain_of_value g \<noteq> None) \<and>
     (\<forall>f. dim_time_format d = Some f \<longrightarrow>
        (\<exists>g tg tf. dim_time_grain d = Some g \<and> grain_of_value g = Some tg \<and> compile_time_format f tg = Inr tf))"

definition refs_declared :: "(string \<Rightarrow> string list option) \<Rightarrow> string list \<Rightarrow> string \<Rightarrow> bool" where
  "refs_declared cols names e \<longleftrightarrow> (\<exists>cs. cols e = Some cs \<and> set cs \<subseteq> set names)"

definition dimension_refs_ok :: "(string \<Rightarrow> string list option) \<Rightarrow> semantic_source \<Rightarrow> dimension \<Rightarrow> bool" where
  "dimension_refs_ok cols src d \<longleftrightarrow>
     (case dim_column d of
        Some c \<Rightarrow> (\<exists>k\<in>set (ss_columns src). col_name k = c \<and> (dim_json_path d \<noteq> None \<longrightarrow> col_type k = JSON_T))
      | None \<Rightarrow> (\<exists>e. dim_expr d = Some e \<and> refs_declared cols (map col_name (ss_columns src)) e))"

definition source_wf :: "(string \<Rightarrow> string list option) \<Rightarrow> semantic_source \<Rightarrow> bool" where
  "source_wf cols src \<longleftrightarrow>
     distinct (map col_name (ss_columns src)) \<and> distinct (map me_name (ss_measures src)) \<and>
     distinct (map dim_name (ss_dimensions src)) \<and> distinct (map jn_alias (ss_joins src)) \<and>
     set (ss_grain src) \<subseteq> col_name ` set (ss_columns src) \<and>
     (\<forall>d\<in>set (ss_dimensions src). dimension_wf d \<and> dimension_refs_ok cols src d) \<and>
     (\<forall>m\<in>set (ss_measures src). refs_declared cols (map col_name (ss_columns src)) (me_expr m))"

lemma grain_of_value_iff: "grain_of_value g \<noteq> None \<longleftrightarrow> g \<in> set PERIOD_GRAINS"
  by (auto simp: grain_of_value_def PERIOD_GRAINS_def)

lemma bad_segment_iff: "\<not> bad_segment s \<longleftrightarrow> s \<noteq> [] \<and> (\<forall>c\<in>set s. \<not> json_key_forbidden c)"
  by (auto simp: bad_segment_def list_ex_iff)

lemma reject_duplicates_from_ok:
  "reject_duplicates_from key i seen ns = Inr () \<longleftrightarrow> distinct ns \<and> seen \<inter> set ns = {}"
  by (induction key i seen ns rule: reject_duplicates_from.induct) auto

lemma reject_duplicates_ok: "reject_duplicates key ns = Inr () \<longleftrightarrow> distinct ns"
  by (simp add: reject_duplicates_def reject_duplicates_from_ok)

text \<open>The index a duplicate is reported at is the first position whose name occurred before.\<close>

lemma reject_duplicates_from_Inl:
  assumes "reject_duplicates_from key i seen ns = Inl x"
  shows "\<exists>j<length ns. x = SemanticValidationError [PKey key, PIdx (i + j)] \<and>
    (ns ! j \<in> seen \<union> set (take j ns)) \<and> distinct (take j ns) \<and> seen \<inter> set (take j ns) = {}"
  using assms
proof (induction key i seen ns rule: reject_duplicates_from.induct)
  case (2 key i seen n ns)
  show ?case
  proof (cases "n \<in> seen")
    case True
    then show ?thesis using 2 by (intro exI [of _ 0]) auto
  next
    case False
    then obtain j where "j < length ns" "x = SemanticValidationError [PKey key, PIdx (Suc i + j)]"
      "ns ! j \<in> insert n seen \<union> set (take j ns)" "distinct (take j ns)"
      "insert n seen \<inter> set (take j ns) = {}"
      using 2 by auto
    then show ?thesis using False by (intro exI [of _ "Suc j"]) auto
  qed
qed simp

lemma rbind_unit_ok: "rbind m (\<lambda>_. k) = Inr () \<longleftrightarrow> is_ok m \<and> k = Inr ()" for m :: "'e + unit"
  by (cases m) auto

lemma is_ok_unit: "is_ok m \<longleftrightarrow> m = Inr ()" for m :: "'e + unit"
  by (cases m) auto

lemma validate_dimension_ok: "validate_dimension d = Inr () \<longleftrightarrow> dimension_wf d"
proof -
  have a: "validate_column_xor_expr d = Inr () \<longleftrightarrow>
     (dim_column d = None) \<noteq> (dim_expr d = None) \<and>
     (\<forall>p. dim_json_path d = Some p \<longrightarrow>
        dim_column d \<noteq> None \<and> p \<noteq> [] \<and> (\<forall>s\<in>set p. \<not> bad_segment s)) \<and>
     (is_derived d \<longrightarrow> dim_type d \<noteq> None \<and>
        (dim_granularity d \<noteq> None \<longrightarrow> dim_type d = Some DATE_T \<or> dim_type d = Some TIMESTAMP_T))"
    unfolding validate_column_xor_expr_def validate_json_path_def rbind_unit_ok is_ok_unit
    by (cases "dim_json_path d") auto
  have b: "validate_time_grain d = Inr () \<longleftrightarrow>
     (\<forall>g. dim_time_grain d = Some g \<longrightarrow> grain_of_value g \<noteq> None) \<and>
     (\<forall>f. dim_time_format d = Some f \<longrightarrow>
        (\<exists>g tg tf. dim_time_grain d = Some g \<and> grain_of_value g = Some tg \<and> compile_time_format f tg = Inr tf))"
    unfolding validate_time_grain_def rbind_unit_ok is_ok_unit grain_of_value_iff
    by (auto split: option.splits sum.splits)
  show ?thesis
    unfolding validate_dimension_def rbind_unit_ok is_ok_unit a b dimension_wf_def bad_segment_iff conj_assoc ..
qed

lemma rfor_enumerate_ok:
  assumes "\<And>i x. f (i, x) = Inr () \<longleftrightarrow> P x"
  shows "rfor f (enumerate_list xs) = Inr () \<longleftrightarrow> (\<forall>x\<in>set xs. P x)"
proof -
  have f: "f p = Inr () \<longleftrightarrow> P (snd p)" for p
    using assms [of "fst p" "snd p"] by simp
  have "set xs = snd ` set (enumerate_list xs)"
    unfolding enumerate_list_def set_map [symmetric] by (simp only: map_snd_zip length_upt)
  then show ?thesis unfolding rfor_ok_iff f by simp
qed

lemma check_refs_ok: "check_refs names path refs = Inr () \<longleftrightarrow> (\<exists>rs. refs = Inr rs \<and> set rs \<subseteq> set names)"
  by (cases refs) (auto simp: check_refs_def rfor_ok_iff split: if_splits)

lemma columns_in_expr_ok: "columns_in_expr cols e = Inr rs \<longleftrightarrow> (\<exists>cs. cols e = Some cs \<and> rs = remdups cs)"
  by (auto simp: columns_in_expr_def split: option.splits)

lemma find_distinct:
  assumes "distinct (map f xs)" and "x \<in> set xs"
  shows "find (\<lambda>y. f y = f x) xs = Some x"
  using assms by (induction xs) (auto simp: image_iff)

lemma check_dimension_ok:
  assumes "distinct (map col_name (ss_columns src))"
  shows "check_dimension cols src (i, d) = Inr () \<longleftrightarrow> dimension_refs_ok cols src d"
proof (cases "dim_column d")
  case None
  then show ?thesis
    by (auto simp: check_dimension_def check_refs_ok dimension_refs_ok_def backing_columns_def
        refs_declared_def columns_in_expr_ok split: option.splits)
next
  case (Some c)
  show ?thesis
  proof (cases "c \<in> col_name ` set (ss_columns src)")
    case True
    then obtain k where k: "k \<in> set (ss_columns src)" "col_name k = c" by blast
    have "find (\<lambda>y. col_name y = c) (ss_columns src) = Some k"
      using find_distinct [OF assms k(1)] k(2) by simp
    moreover have "k' = k" if "k' \<in> set (ss_columns src)" "col_name k' = c" for k'
      using assms that k by (metis distinct_map inj_onD)
    then have "(\<exists>x\<in>set (ss_columns src). col_name x = c \<and> Q x) \<longleftrightarrow> Q k" for Q
      using k by blast
    ultimately show ?thesis
      using Some True by (simp add: check_dimension_def dimension_refs_ok_def Let_def)
  next
    case False
    then show ?thesis
      using Some by (auto simp: check_dimension_def dimension_refs_ok_def Let_def image_iff)
  qed
qed

lemma validate_source_ok: "validate_source cols src = Inr () \<longleftrightarrow> source_wf cols src"
proof -
  have g: "rfor (check_grain names) (enumerate_list gs) = Inr () \<longleftrightarrow> (\<forall>x\<in>set gs. x \<in> set names)" for names gs
    by (rule rfor_enumerate_ok) (simp add: check_grain_def)
  have m: "rfor (check_measure cols names) (enumerate_list ms) = Inr () \<longleftrightarrow>
      (\<forall>x\<in>set ms. refs_declared cols names (me_expr x))" for names ms
    by (rule rfor_enumerate_ok) (auto simp: check_measure_def check_refs_ok refs_declared_def columns_in_expr_ok)
  show ?thesis
  proof (cases "distinct (map col_name (ss_columns src))")
    case True
    have d: "rfor (check_dimension cols src) (enumerate_list (ss_dimensions src)) = Inr () \<longleftrightarrow>
        (\<forall>x\<in>set (ss_dimensions src). dimension_refs_ok cols src x)"
      by (rule rfor_enumerate_ok) (rule check_dimension_ok [OF True])
    show ?thesis
      unfolding validate_source_def validate_references_def Let_def rbind_unit_ok is_ok_unit
        reject_duplicates_ok g m d
      unfolding rfor_ok_iff validate_dimension_ok source_wf_def by auto
  next
    case False
    then show ?thesis
      unfolding validate_source_def validate_references_def Let_def rbind_unit_ok is_ok_unit
        reject_duplicates_ok source_wf_def by blast
  qed
qed

section \<open>Properties\<close>

text \<open>
  A semantic source loads exactly when it obeys the written rules: names unique within
  their kind (join aliases included), grain columns declared, every dimension a column or an
  expression or a JSON path of the allowed shape, and every column that a dimension or a measure
  expression mentions declared on the source.
\<close>

theorem source_accepted_iff_wf: "validate_source cols src = Inr () \<longleftrightarrow> source_wf cols src"
  by (rule validate_source_ok)

text \<open>
  After a source has loaded, the reads the compiler does on its dimensions cannot raise: the
  columns behind a dimension are declared, the dimension has a type, its label format compiles,
  and a plain column dimension resolves to its own column.
\<close>

theorem loaded_source_reads_are_safe:
  assumes "validate_source cols src = Inr ()" and "d \<in> set (ss_dimensions src)"
  shows "(\<exists>cs. backing_columns cols d = Inr cs \<and> set cs \<subseteq> col_name ` set (ss_columns src)) \<and>
    (\<exists>t. value_type d (ss_columns src) = Some t) \<and>
    (\<exists>f. period_format d = Inr f) \<and>
    (\<forall>c. dim_column d = Some c \<longrightarrow> dim_json_path d = None \<longrightarrow>
      (\<exists>k. own_column src (dim_name d) = Some k \<and> col_name k = c))"
proof -
  have wf: "source_wf cols src" using assms(1) validate_source_ok by simp
  then have dw: "dimension_wf d" and dr: "dimension_refs_ok cols src d"
    and dn: "distinct (map dim_name (ss_dimensions src))" and cn: "distinct (map col_name (ss_columns src))"
    using assms(2) by (auto simp: source_wf_def)
  have f: "find (\<lambda>x. dim_name x = dim_name d) (ss_dimensions src) = Some d"
    by (rule find_distinct [OF dn assms(2)])
  have p: "\<exists>f. period_format d = Inr f"
    using dw by (auto simp: period_format_def dimension_wf_def split: option.splits)
  show ?thesis
  proof (cases "dim_column d")
    case (Some c)
    then obtain k where k: "k \<in> set (ss_columns src)" "col_name k = c"
      using dr by (auto simp: dimension_refs_ok_def)
    have fc: "find (\<lambda>y. col_name y = c) (ss_columns src) = Some k"
      using find_distinct [OF cn k(1)] k(2) by simp
    have "\<exists>t. value_type d (ss_columns src) = Some t"
      using dw fc Some by (auto simp: value_type_def dimension_wf_def)
    then show ?thesis
      using Some k f fc p by (auto simp: backing_columns_def own_column_def)
  next
    case None
    then show ?thesis
      using dr dw p
      by (auto simp: dimension_refs_ok_def refs_declared_def backing_columns_def columns_in_expr_def
          value_type_def dimension_wf_def is_derived_def)
  qed
qed

definition column_dimension :: "string \<Rightarrow> string \<Rightarrow> dimension" where
  "column_dimension n c = \<lparr>dim_name = n, dim_column = Some c, dim_expr = None, dim_json_path = None,
     dim_type = None, dim_granularity = None, dim_time_grain = None, dim_time_format = None,
     dim_label = None, dim_description = None, dim_aliases = []\<rparr>"

definition bare_source :: "string \<Rightarrow> string \<Rightarrow> semantic_source" where
  "bare_source n t = \<lparr>ss_name = n, ss_connection = ''wh'', ss_table = t, ss_grain = [], ss_columns = [],
     ss_measures = [], ss_dimensions = [], ss_joins = [], ss_filters = [], ss_watermark = None,
     ss_meta = \<lparr>sm_provenance = INFERRED, sm_source_fingerprint = None, sm_definition_fingerprint = None,
       sm_last_validated_at = None, sm_frozen = False, sm_pack_source = None\<rparr>, ss_description = None\<rparr>"

definition sample_source :: semantic_source where
  "sample_source = (bare_source ''orders'' ''mart.fct_orders'')
     \<lparr>ss_grain := [''id''],
      ss_columns := [\<lparr>col_name = ''id'', col_type = INT_T, col_nullable = False\<rparr>,
                     \<lparr>col_name = ''day'', col_type = DATE_T, col_nullable = False\<rparr>],
      ss_dimensions := [column_dimension ''order_day'' ''day'']\<rparr>"

lemma loaded_source_reads_are_safe_witness:
  "validate_source (\<lambda>_. None) sample_source = Inr () \<and>
   (\<exists>t. value_type (column_dimension ''order_day'' ''day'') (ss_columns sample_source) = Some t)"
proof -
  have "validate_source (\<lambda>_. None) sample_source = Inr ()" by code_simp
  moreover have "column_dimension ''order_day'' ''day'' \<in> set (ss_dimensions sample_source)"
    by (simp add: sample_source_def)
  ultimately show ?thesis using loaded_source_reads_are_safe by blast
qed

end
