(* ===== verification/Join_Planning.thy ===== *)
theory Join_Planning
  imports Semantic_Model
begin

text \<open>
  \<^verbatim>\<open>src/canonic/compiler/joins.py\<close>: the alias tree and the dimensions reachable from a source,
  the enumeration of simple join paths, and the join plan. The SQL rewriting of an \<^verbatim>\<open>ON\<close>
  clause is a parameter \<open>map_tables\<close> that replaces table qualifiers. The reachable alias and
  source pairs and the simple paths have declarative counterparts, and the search functions are
  proved sound and complete against them.
\<close>

type_synonym sources = "(string, semantic_source) dict"

section \<open>The join graph\<close>

record join_edge =
  je_from_source :: string
  je_from_alias :: string
  je_join :: join
  je_alias :: string
  je_on_sql :: string

record join_path_candidate =
  jc_via :: "string list"
  jc_route :: string
  jc_joins :: "(string \<times> string \<times> string \<times> string) list"

definition joins_of :: "sources \<Rightarrow> string \<Rightarrow> join list" where
  "joins_of srcs s = (case map_of srcs s of None \<Rightarrow> [] | Some src \<Rightarrow> ss_joins src)"

text \<open>Every alias a declared join introduces.\<close>

definition all_aliases :: "sources \<Rightarrow> string set" where
  "all_aliases srcs = jn_alias ` set (concat (map (ss_joins \<circ> snd) srcs))"

lemma finite_all_aliases [simp]: "finite (all_aliases srcs)"
  by (simp add: all_aliases_def)

lemma joins_of_aliases:
  assumes "j \<in> set (joins_of srcs s)"
  shows "jn_alias j \<in> all_aliases srcs"
proof -
  obtain src where src: "map_of srcs s = Some src" "j \<in> set (ss_joins src)"
    using assms by (cases "map_of srcs s") (simp_all add: joins_of_def)
  have "j \<in> set (concat (map (ss_joins \<circ> snd) srcs))"
    using map_of_SomeD [OF src(1)] src(2) by force
  then show ?thesis by (simp only: all_aliases_def) (rule imageI)
qed

section \<open>Alias tree\<close>

text \<open>The loop over the joins of one source: new aliases go to the dictionary and the queue.\<close>

fun add_children :: "join list \<Rightarrow> (string \<times> string) list \<Rightarrow> (string, string) dict \<Rightarrow>
    (string \<times> string) list \<times> (string, string) dict" where
  "add_children [] queue tree = (queue, tree)"
| "add_children (j # js) queue tree =
     (if jn_alias j \<notin> fst ` set tree
      then add_children js (queue @ [(jn_alias j, jn_to j)]) (tree @ [(jn_alias j, jn_to j)])
      else add_children js queue tree)"

text \<open>The pairs one such loop adds.\<close>

fun fresh :: "join list \<Rightarrow> (string, string) dict \<Rightarrow> (string \<times> string) list" where
  "fresh [] tree = []"
| "fresh (j # js) tree =
     (if jn_alias j \<notin> fst ` set tree
      then (jn_alias j, jn_to j) # fresh js (tree @ [(jn_alias j, jn_to j)])
      else fresh js tree)"

lemma add_children_fresh: "add_children js queue tree = (queue @ fresh js tree, tree @ fresh js tree)"
  by (induction js queue tree rule: add_children.induct) simp_all

lemma fresh_declared: "(a, s) \<in> set (fresh js tree) \<Longrightarrow> \<exists>j\<in>set js. a = jn_alias j \<and> s = jn_to j"
  by (induction js tree rule: fresh.induct) (auto split: if_splits)

lemma fresh_new: "a \<in> fst ` set (fresh js tree) \<Longrightarrow> a \<notin> fst ` set tree"
proof (induction js tree rule: fresh.induct)
  case (2 j js tree)
  then show ?case by (cases "jn_alias j \<in> fst ` set tree"; cases "a = jn_alias j") simp_all
qed simp

lemma fresh_covers: "j \<in> set js \<Longrightarrow> jn_alias j \<in> fst ` set (tree @ fresh js tree)"
proof (induction js tree rule: fresh.induct)
  case (2 i js tree)
  then show ?case by (cases "jn_alias i \<in> fst ` set tree") auto
qed simp

lemma fresh_distinct: "distinct (map fst tree) \<Longrightarrow> distinct (map fst (tree @ fresh js tree))"
proof (induction js tree rule: fresh.induct)
  case (2 i js tree)
  then show ?case by (cases "jn_alias i \<in> fst ` set tree") simp_all
qed simp

lemma alias_bfs_decreases:
  assumes "fresh (joins_of srcs s) tree \<noteq> []"
  shows "all_aliases srcs - fst ` set (tree @ fresh (joins_of srcs s) tree) \<subset>
    all_aliases srcs - fst ` set tree"
proof -
  obtain a t where a: "(a, t) \<in> set (fresh (joins_of srcs s) tree)"
    using assms by (cases "fresh (joins_of srcs s) tree") auto
  obtain j where "j \<in> set (joins_of srcs s)" "a = jn_alias j" using fresh_declared [OF a] by blast
  then have "a \<in> all_aliases srcs" using joins_of_aliases by simp
  moreover have fa: "a \<in> fst ` set (fresh (joins_of srcs s) tree)" using a by force
  moreover have "a \<notin> fst ` set tree" by (rule fresh_new [OF fa])
  ultimately show ?thesis by auto
qed

function alias_bfs :: "sources \<Rightarrow> (string \<times> string) list \<Rightarrow> (string, string) dict \<Rightarrow> (string, string) dict" where
  "alias_bfs srcs [] tree = tree"
| "alias_bfs srcs ((a, s) # queue) tree =
     (case add_children (joins_of srcs s) queue tree of (q', t') \<Rightarrow> alias_bfs srcs q' t')"
  by pat_completeness auto

termination
proof (relation "inv_image (finite_psubset <*lex*> less_than)
    (\<lambda>(srcs, queue, tree). (all_aliases srcs - fst ` set tree, length queue))", goal_cases)
  case 1
  show ?case by auto
next
  case (2 srcs a s queue tree)
  then show ?case
    using alias_bfs_decreases [of srcs s tree]
    by (cases "fresh (joins_of srcs s) tree = []") (auto simp: add_children_fresh finite_psubset_def)
qed

lemma alias_bfs_Cons:
  "alias_bfs srcs ((a, s) # queue) tree =
    alias_bfs srcs (queue @ fresh (joins_of srcs s) tree) (tree @ fresh (joins_of srcs s) tree)"
  by (simp add: add_children_fresh)

lemmas alias_bfs_rec = alias_bfs.simps(1) alias_bfs_Cons

declare alias_bfs.simps [simp del]

lemma alias_bfs_rule:
  assumes "\<And>tree. P [] tree"
    and "\<And>a s queue tree. P (queue @ fresh (joins_of srcs s) tree) (tree @ fresh (joins_of srcs s) tree) \<Longrightarrow>
      P ((a, s) # queue) tree"
  shows "P queue tree"
  using assms
  by (induction srcs queue tree rule: alias_bfs.induct) (auto simp: add_children_fresh)

definition build_alias_tree :: "string \<Rightarrow> sources \<Rightarrow> (string, string) dict" where
  "build_alias_tree owner srcs = alias_bfs srcs [(owner, owner)] [(owner, owner)]"

section \<open>Reachable dimensions\<close>

text \<open>
  The second traversal pops an alias, skips it when it was seen, lists its dimensions and queues
  the aliases of its joins that have not been seen yet.
\<close>

definition source_at :: "sources \<Rightarrow> (string, string) dict \<Rightarrow> string \<Rightarrow> semantic_source option" where
  "source_at srcs tree alias =
     map_of srcs (case map_of tree alias of None \<Rightarrow> alias | Some s \<Rightarrow> s)"

definition joins_at :: "sources \<Rightarrow> (string, string) dict \<Rightarrow> string \<Rightarrow> join list" where
  "joins_at srcs tree alias = (case source_at srcs tree alias of None \<Rightarrow> [] | Some src \<Rightarrow> ss_joins src)"

definition dims_at :: "sources \<Rightarrow> (string, string) dict \<Rightarrow> string \<Rightarrow> dimension list" where
  "dims_at srcs tree alias = (case source_at srcs tree alias of None \<Rightarrow> [] | Some src \<Rightarrow> ss_dimensions src)"

lemma joins_at_aliases: "j \<in> set (joins_at srcs tree a) \<Longrightarrow> jn_alias j \<in> all_aliases srcs"
  using joins_of_aliases [of j srcs] by (auto simp: joins_at_def source_at_def joins_of_def split: option.splits)

function dims_bfs :: "sources \<Rightarrow> (string, string) dict \<Rightarrow> string list \<Rightarrow> string set \<Rightarrow> (string \<times> string) list" where
  "dims_bfs srcs tree [] seen = []"
| "dims_bfs srcs tree (alias # queue) seen =
     (if alias \<in> seen then dims_bfs srcs tree queue seen
      else
        map (\<lambda>d. (alias, dim_name d)) (dims_at srcs tree alias) @
        dims_bfs srcs tree
          (queue @ filter (\<lambda>c. c \<notin> insert alias seen) (map jn_alias (joins_at srcs tree alias)))
          (insert alias seen))"
  by pat_completeness auto

termination
proof (relation "inv_image (finite_psubset <*lex*> less_than)
    (\<lambda>(srcs, tree, queue, seen). ((all_aliases srcs \<union> set queue) - seen, length queue))", goal_cases)
  case 1
  show ?case by auto
next
  case (2 srcs tree a queue seen)
  then have "all_aliases srcs \<union> set (a # queue) - seen = all_aliases srcs \<union> set queue - seen" by auto
  then show ?case by simp
next
  case (3 srcs tree a queue seen)
  let ?new = "filter (\<lambda>c. c \<notin> insert a seen) (map jn_alias (joins_at srcs tree a))"
  have "set ?new \<subseteq> all_aliases srcs" using joins_at_aliases by auto
  then have "all_aliases srcs \<union> set (queue @ ?new) - insert a seen \<subset>
      all_aliases srcs \<union> set (a # queue) - seen"
    using 3 by auto
  then show ?case by (simp add: finite_psubset_def)
qed

definition dim_entry :: "(string \<times> string) list \<Rightarrow> string \<times> string \<Rightarrow> string \<times> string" where
  "dim_entry all_dims ad =
     (case ad of (alias, dim) \<Rightarrow>
       (if 1 < length (filter (\<lambda>x. snd x = dim) all_dims) then alias @ ''.'' @ dim else dim, alias))"

text \<open>The first entry of every name is kept.\<close>

fun keep_first :: "string set \<Rightarrow> (string \<times> string) list \<Rightarrow> (string \<times> string) list" where
  "keep_first seen [] = []"
| "keep_first seen (e # es) =
     (if fst e \<in> seen then keep_first seen es else e # keep_first (insert (fst e) seen) es)"

definition reachable_dimension_names :: "string \<Rightarrow> sources \<Rightarrow> (string \<times> string) list" where
  "reachable_dimension_names source_name srcs =
     (let all_dims = dims_bfs srcs (build_alias_tree source_name srcs) [source_name] {}
      in keep_first {} (map (dim_entry all_dims) all_dims))"

section \<open>Paths and plans\<close>

text \<open>
  \<^verbatim>\<open>_rewrite_on\<close>: a qualifier that names the left source or table becomes the left alias, one
  that names the right source or table the right alias.
\<close>

definition rewrite_on :: "((string \<Rightarrow> string option) \<Rightarrow> string \<Rightarrow> string) \<Rightarrow>
    string \<Rightarrow> string \<Rightarrow> string \<Rightarrow> string \<Rightarrow> string \<Rightarrow> string \<Rightarrow> string \<Rightarrow> string" where
  "rewrite_on map_tables on_sql from_src from_alias to_src to_alias from_table to_table =
     map_tables (\<lambda>t. if t \<noteq> [] \<and> t \<in> {from_src, from_table} then Some from_alias
                     else if t \<noteq> [] \<and> t \<in> {to_src, to_table} then Some to_alias else None) on_sql"

definition mk_edge :: "((string \<Rightarrow> string option) \<Rightarrow> string \<Rightarrow> string) \<Rightarrow> sources \<Rightarrow>
    string \<Rightarrow> string \<Rightarrow> join \<Rightarrow> join_edge" where
  "mk_edge map_tables srcs node_alias node_src j =
     (let from_table = (case map_of srcs node_src of None \<Rightarrow> [] | Some s \<Rightarrow> after_last CHR ''.'' (ss_table s));
          to_table = (case map_of srcs (jn_to j) of None \<Rightarrow> jn_to j
                      | Some s \<Rightarrow> after_last CHR ''.'' (ss_table s))
      in \<lparr>je_from_source = node_src, je_from_alias = node_alias, je_join = j, je_alias = jn_alias j,
          je_on_sql = rewrite_on map_tables (jn_on j) node_src node_alias (jn_to j) (jn_alias j)
            from_table to_table\<rparr>)"

function walk :: "((string \<Rightarrow> string option) \<Rightarrow> string \<Rightarrow> string) \<Rightarrow> sources \<Rightarrow> string \<Rightarrow>
    string \<Rightarrow> string \<Rightarrow> string set \<Rightarrow> join_edge list list" where
  "walk mt srcs target node_alias node_src visited =
     (if node_alias = target then [[]]
      else concat (map (\<lambda>j.
        if jn_alias j \<in> visited then []
        else map (Cons (mk_edge mt srcs node_alias node_src j))
               (walk mt srcs target (jn_alias j) (jn_to j) (insert (jn_alias j) visited)))
        (joins_of srcs node_src)))"
  by pat_completeness auto

termination
proof (relation "inv_image finite_psubset (\<lambda>(mt, srcs, target, a, s, visited). all_aliases srcs - visited)",
    goal_cases)
  case 1
  show ?case by auto
next
  case (2 mt srcs target a s visited j)
  then have "jn_alias j \<in> all_aliases srcs" using joins_of_aliases by blast
  with 2 show ?case by (auto simp: finite_psubset_def)
qed

declare walk.simps [simp del]

definition all_simple_paths :: "((string \<Rightarrow> string option) \<Rightarrow> string \<Rightarrow> string) \<Rightarrow> string \<Rightarrow> string \<Rightarrow>
    sources \<Rightarrow> join_edge list list" where
  "all_simple_paths mt owner target srcs = walk mt srcs target owner owner {owner}"

definition filter_by_via :: "join_edge list list \<Rightarrow> string list \<Rightarrow> join_edge list list" where
  "filter_by_via paths via =
     filter (\<lambda>p. length via \<le> length p \<and> take (length via) (map je_alias p) = via) paths"

definition path_candidate :: "string \<Rightarrow> join_edge list \<Rightarrow> join_path_candidate" where
  "path_candidate owner p =
     \<lparr>jc_via = map je_alias p,
      jc_route = join_with '' -> '' (owner # map je_alias p),
      jc_joins = map (\<lambda>e. (je_from_source e, jn_to (je_join e), je_on_sql e, je_alias e)) p\<rparr>"

text \<open>The single path to one target, or the exception; the candidates go by their routes.\<close>

definition plan_target :: "((string \<Rightarrow> string option) \<Rightarrow> string \<Rightarrow> string) \<Rightarrow> string \<Rightarrow> sources \<Rightarrow>
    string list option \<Rightarrow> string \<Rightarrow> join_edge list res" where
  "plan_target mt owner srcs via target =
     (let paths = all_simple_paths mt owner target srcs;
          narrowed = (case via of
              None \<Rightarrow> paths
            | Some v \<Rightarrow> if 1 < length paths then filter_by_via paths v else paths)
      in if paths = [] then Inl (CanonicError Unreachable [target, owner] [])
         else if narrowed = [] then Inl (CanonicError Unreachable (owner # target # the via) [])
         else if 1 < length narrowed
         then Inl (CanonicError AmbiguousJoinPath [owner, target] (map (jc_route \<circ> path_candidate owner) narrowed))
         else Inr (hd narrowed))"

fun add_edges :: "join_edge list \<Rightarrow> join_edge list \<Rightarrow> string set \<Rightarrow> join_edge list \<times> string set" where
  "add_edges [] edges joined = (edges, joined)"
| "add_edges (e # es) edges joined =
     (if je_alias e \<notin> joined then add_edges es (edges @ [e]) (insert (je_alias e) joined)
      else add_edges es edges joined)"

fun plan_targets :: "((string \<Rightarrow> string option) \<Rightarrow> string \<Rightarrow> string) \<Rightarrow> string \<Rightarrow> sources \<Rightarrow>
    string list option \<Rightarrow> string list \<Rightarrow> join_edge list \<Rightarrow> string set \<Rightarrow> join_edge list res" where
  "plan_targets mt owner srcs via [] edges joined = Inr edges"
| "plan_targets mt owner srcs via (t # ts) edges joined =
     (if t \<in> joined then plan_targets mt owner srcs via ts edges joined
      else rbind (plan_target mt owner srcs via t) (\<lambda>p.
        case add_edges p edges joined of (edges', joined') \<Rightarrow>
          plan_targets mt owner srcs via ts edges' joined'))"

definition plan_joins :: "((string \<Rightarrow> string option) \<Rightarrow> string \<Rightarrow> string) \<Rightarrow> string \<Rightarrow> string list \<Rightarrow>
    sources \<Rightarrow> string list option \<Rightarrow> join_edge list res" where
  "plan_joins mt owner targets srcs via = plan_targets mt owner srcs via (sorted_set targets) [] {owner}"

section \<open>Reachability\<close>

text \<open>An alias and the source it stands for, reached from the owner over declared joins.\<close>

inductive reaches :: "sources \<Rightarrow> string \<Rightarrow> string \<Rightarrow> string \<Rightarrow> bool" for srcs owner where
  reaches_owner: "reaches srcs owner owner owner"
| reaches_join: "reaches srcs owner a s \<Longrightarrow> j \<in> set (joins_of srcs s) \<Longrightarrow>
    reaches srcs owner (jn_alias j) (jn_to j)"

inductive_cases reachesE: "reaches srcs owner a s"

text \<open>No alias stands for two sources. Aliases are unique within a source, not across sources.\<close>

definition unambiguous :: "sources \<Rightarrow> string \<Rightarrow> bool" where
  "unambiguous srcs owner \<longleftrightarrow>
     (\<forall>a s t. reaches srcs owner a s \<longrightarrow> reaches srcs owner a t \<longrightarrow> s = t)"

lemma alias_bfs_sound:
  "(\<And>x. x \<in> set tree \<union> set queue \<Longrightarrow> reaches srcs owner (fst x) (snd x)) \<Longrightarrow>
    x \<in> set (alias_bfs srcs queue tree) \<Longrightarrow> reaches srcs owner (fst x) (snd x)"
proof (induction queue tree rule: alias_bfs_rule [where srcs = srcs])
  case (2 b t queue tree)
  have "reaches srcs owner (fst c) (snd c)" if c: "c \<in> set (fresh (joins_of srcs t) tree)" for c
  proof -
    have "reaches srcs owner b t" using 2(2) [of "(b, t)"] by simp
    then show ?thesis using fresh_declared [of "fst c" "snd c"] c reaches_join by fastforce
  qed
  then show ?case using 2 by (auto simp: alias_bfs_rec)
qed (auto simp: alias_bfs_rec)

definition closed_but :: "sources \<Rightarrow> (string \<times> string) list \<Rightarrow> (string, string) dict \<Rightarrow> bool" where
  "closed_but srcs queue tree \<longleftrightarrow>
     (\<forall>a s j. (a, s) \<in> set tree \<longrightarrow> (a, s) \<notin> set queue \<longrightarrow> j \<in> set (joins_of srcs s) \<longrightarrow> jn_alias j \<in> fst ` set tree)"

lemma closed_but_step:
  assumes "closed_but srcs ((b, t) # queue) tree"
  shows "closed_but srcs (queue @ fresh (joins_of srcs t) tree) (tree @ fresh (joins_of srcs t) tree)"
  unfolding closed_but_def
proof (intro allI impI)
  let ?new = "fresh (joins_of srcs t) tree"
  fix a s j
  assume m: "(a, s) \<in> set (tree @ ?new)" "(a, s) \<notin> set (queue @ ?new)" and j: "j \<in> set (joins_of srcs s)"
  show "jn_alias j \<in> fst ` set (tree @ ?new)"
  proof (cases "(a, s) = (b, t)")
    case True
    then show ?thesis using fresh_covers j by blast
  next
    case False
    then have "jn_alias j \<in> fst ` set tree"
      using m j assms unfolding closed_but_def by (metis Un_iff set_ConsD set_append)
    then show ?thesis by (auto simp: image_Un)
  qed
qed

lemma alias_bfs_closed:
  "distinct (map fst tree) \<Longrightarrow> closed_but srcs queue tree \<Longrightarrow>
    distinct (map fst (alias_bfs srcs queue tree)) \<and> set tree \<subseteq> set (alias_bfs srcs queue tree) \<and>
    closed_but srcs [] (alias_bfs srcs queue tree)"
proof (induction queue tree rule: alias_bfs_rule [where srcs = srcs])
  case (2 b t queue tree)
  then show ?case
    using fresh_distinct [OF 2(2)] closed_but_step [OF 2(3)] by (simp add: alias_bfs_rec)
qed (simp add: alias_bfs_rec)

lemma alias_tree_sound: "(a, s) \<in> set (build_alias_tree owner srcs) \<Longrightarrow> reaches srcs owner a s"
  unfolding build_alias_tree_def
  using alias_bfs_sound [of "[(owner, owner)]" "[(owner, owner)]" srcs owner "(a, s)"] reaches_owner by simp

lemma alias_tree_closed:
  "distinct (map fst (build_alias_tree owner srcs))" "(owner, owner) \<in> set (build_alias_tree owner srcs)"
  "(a, s) \<in> set (build_alias_tree owner srcs) \<Longrightarrow> j \<in> set (joins_of srcs s) \<Longrightarrow>
    jn_alias j \<in> fst ` set (build_alias_tree owner srcs)"
  using alias_bfs_closed [of "[(owner, owner)]" srcs "[(owner, owner)]"]
  unfolding build_alias_tree_def by (auto simp: closed_but_def)

lemma alias_tree_complete:
  assumes "unambiguous srcs owner" and "reaches srcs owner a s"
  shows "(a, s) \<in> set (build_alias_tree owner srcs)"
  using assms(2)
proof induction
  case reaches_owner
  show ?case by (rule alias_tree_closed)
next
  case (reaches_join a s j)
  then obtain t where t: "(jn_alias j, t) \<in> set (build_alias_tree owner srcs)"
    using alias_tree_closed(3) by fastforce
  have "t = jn_to j"
    using assms(1) alias_tree_sound [OF t] reaches.reaches_join [OF reaches_join(1,2)]
    unfolding unambiguous_def by blast
  with t show ?case by simp
qed

section \<open>Simple paths\<close>

fun linked :: "((string \<Rightarrow> string option) \<Rightarrow> string \<Rightarrow> string) \<Rightarrow> sources \<Rightarrow> string \<Rightarrow> string \<Rightarrow>
    join_edge list \<Rightarrow> bool" where
  "linked mt srcs a s [] = True"
| "linked mt srcs a s (e # es) =
     ((\<exists>j\<in>set (joins_of srcs s). e = mk_edge mt srcs a s j) \<and>
      linked mt srcs (je_alias e) (jn_to (je_join e)) es)"

text \<open>Declared joins that link up from the owner, visit no alias twice and end at the target.\<close>

definition simple_path :: "((string \<Rightarrow> string option) \<Rightarrow> string \<Rightarrow> string) \<Rightarrow> sources \<Rightarrow> string \<Rightarrow> string \<Rightarrow>
    join_edge list \<Rightarrow> bool" where
  "simple_path mt srcs owner target p \<longleftrightarrow>
     linked mt srcs owner owner p \<and> distinct (owner # map je_alias p) \<and> last (owner # map je_alias p) = target"

lemma mk_edge_sel [simp]:
  "je_alias (mk_edge mt srcs a s j) = jn_alias j" "je_join (mk_edge mt srcs a s j) = j"
  "je_from_alias (mk_edge mt srcs a s j) = a" "je_from_source (mk_edge mt srcs a s j) = s"
  by (simp_all add: mk_edge_def Let_def)

lemma walk_mem:
  "a \<in> visited \<Longrightarrow> p \<in> set (walk mt srcs target a s visited) \<longleftrightarrow>
    linked mt srcs a s p \<and> distinct (map je_alias p) \<and> set (map je_alias p) \<inter> visited = {} \<and>
    last (a # map je_alias p) = target"
proof (induction mt srcs target a s visited arbitrary: p rule: walk.induct)
  case (1 mt srcs target a s visited)
  show ?case
  proof (cases "a = target")
    case True
    have nil: "p = []" if "last (a # map je_alias p) = target" "set (map je_alias p) \<inter> visited = {}"
    proof (cases p rule: rev_cases)
      case (snoc q e)
      then show ?thesis using that 1(2) True by simp
    qed simp
    have "walk mt srcs target a s visited = [[]]" using True by (subst walk.simps) simp
    then have "p \<in> set (walk mt srcs target a s visited) \<longleftrightarrow> p = []" by simp
    also have "\<dots> \<longleftrightarrow> linked mt srcs a s p \<and> distinct (map je_alias p) \<and>
        set (map je_alias p) \<inter> visited = {} \<and> last (a # map je_alias p) = target"
      using nil True by fastforce
    finally show ?thesis .
  next
    case False
    have w: "p \<in> set (walk mt srcs target a s visited) \<longleftrightarrow>
        (\<exists>j\<in>set (joins_of srcs s). jn_alias j \<notin> visited \<and>
          (\<exists>q. p = mk_edge mt srcs a s j # q \<and>
            q \<in> set (walk mt srcs target (jn_alias j) (jn_to j) (insert (jn_alias j) visited))))"
      using False by (subst walk.simps) auto
    have ih: "q \<in> set (walk mt srcs target (jn_alias j) (jn_to j) (insert (jn_alias j) visited)) \<longleftrightarrow>
        linked mt srcs (jn_alias j) (jn_to j) q \<and> distinct (map je_alias q) \<and>
        set (map je_alias q) \<inter> insert (jn_alias j) visited = {} \<and> last (jn_alias j # map je_alias q) = target"
      if "j \<in> set (joins_of srcs s)" "jn_alias j \<notin> visited" for j q
      using 1(1) [OF False that] by simp
    show ?thesis
    proof (cases p)
      case Nil
      then show ?thesis using w False by auto
    next
      case (Cons e q)
      have "p \<in> set (walk mt srcs target a s visited) \<longleftrightarrow>
          (\<exists>j\<in>set (joins_of srcs s). e = mk_edge mt srcs a s j \<and> jn_alias j \<notin> visited \<and>
            linked mt srcs (jn_alias j) (jn_to j) q \<and> distinct (map je_alias q) \<and>
            set (map je_alias q) \<inter> insert (jn_alias j) visited = {} \<and>
            last (jn_alias j # map je_alias q) = target)"
        unfolding w unfolding Cons list.inject by (rule bex_cong [OF refl]) (auto simp: ih cong: conj_cong)
      also have "\<dots> \<longleftrightarrow>
          (\<exists>j\<in>set (joins_of srcs s). e = mk_edge mt srcs a s j \<and> je_alias e \<notin> visited \<and>
            linked mt srcs (je_alias e) (jn_to (je_join e)) q \<and> distinct (map je_alias q) \<and>
            set (map je_alias q) \<inter> insert (je_alias e) visited = {} \<and>
            last (je_alias e # map je_alias q) = target)"
        by (rule bex_cong) auto
      finally show ?thesis unfolding Cons by auto
    qed
  qed
qed

lemma simple_paths_complete: "p \<in> set (all_simple_paths mt owner target srcs) \<longleftrightarrow> simple_path mt srcs owner target p"
  unfolding all_simple_paths_def simple_path_def using walk_mem [of owner "{owner}"] by auto

text \<open>With unique aliases per source, which loading guarantees, no path is listed twice.\<close>

definition joins_unique :: "sources \<Rightarrow> bool" where
  "joins_unique srcs \<longleftrightarrow> (\<forall>s. distinct (map jn_alias (joins_of srcs s)))"

lemma distinct_concat_map:
  assumes "distinct xs" and "\<And>x. x \<in> set xs \<Longrightarrow> distinct (f x)"
    and "\<And>x y. x \<in> set xs \<Longrightarrow> y \<in> set xs \<Longrightarrow> x \<noteq> y \<Longrightarrow> set (f x) \<inter> set (f y) = {}"
  shows "distinct (concat (map f xs))"
  using assms
proof (induction xs)
  case (Cons x xs)
  then have "set (f x) \<inter> (\<Union>y\<in>set xs. set (f y)) = {}" by fastforce
  with Cons show ?case by auto
qed simp

lemma walk_distinct:
  assumes "joins_unique srcs"
  shows "distinct (walk mt srcs target a s visited)"
  using assms
proof (induction mt srcs target a s visited rule: walk.induct)
  case (1 mt srcs target a s visited)
  show ?case
  proof (cases "a = target")
    case True
    have "walk mt srcs target a s visited = [[]]" using True by (subst walk.simps) simp
    then show ?thesis by simp
  next
    case False
    let ?f = "\<lambda>j. if jn_alias j \<in> visited then []
        else map (Cons (mk_edge mt srcs a s j))
               (walk mt srcs target (jn_alias j) (jn_to j) (insert (jn_alias j) visited))"
    have u: "distinct (map jn_alias (joins_of srcs s))" using 1(2) by (simp add: joins_unique_def)
    have "distinct (concat (map ?f (joins_of srcs s)))"
    proof (rule distinct_concat_map)
      show "distinct (joins_of srcs s)" using u by (simp add: distinct_map)
      show "distinct (?f j)" if "j \<in> set (joins_of srcs s)" for j
        using 1(1) [OF False that _ 1(2)] by (simp add: distinct_map inj_on_def)
      show "set (?f i) \<inter> set (?f j) = {}"
        if "i \<in> set (joins_of srcs s)" "j \<in> set (joins_of srcs s)" "i \<noteq> j" for i j
      proof -
        have "mk_edge mt srcs a s i \<noteq> mk_edge mt srcs a s j"
          using that(3) mk_edge_sel(2) by metis
        then show ?thesis by auto
      qed
    qed
    then show ?thesis using False by (subst walk.simps) simp
  qed
qed

lemma distinct_length_cases:
  assumes "distinct xs"
  shows "xs \<noteq> [] \<and> \<not> 1 < length xs \<longleftrightarrow> (\<exists>x. xs = [x])" "1 < length xs \<longleftrightarrow> (\<exists>x\<in>set xs. \<exists>y\<in>set xs. x \<noteq> y)"
proof -
  show "xs \<noteq> [] \<and> \<not> 1 < length xs \<longleftrightarrow> (\<exists>x. xs = [x])"
    by (cases xs rule: remdups_adj.cases) auto
  show "1 < length xs \<longleftrightarrow> (\<exists>x\<in>set xs. \<exists>y\<in>set xs. x \<noteq> y)"
    using assms by (cases xs rule: remdups_adj.cases) auto
qed

text \<open>The candidates that remain for a target: all paths, or those that begin with \<^verbatim>\<open>via\<close>.\<close>

definition candidate :: "((string \<Rightarrow> string option) \<Rightarrow> string \<Rightarrow> string) \<Rightarrow> sources \<Rightarrow> string \<Rightarrow>
    string list option \<Rightarrow> string \<Rightarrow> join_edge list \<Rightarrow> bool" where
  "candidate mt srcs owner via target p \<longleftrightarrow>
     simple_path mt srcs owner target p \<and>
     (\<forall>v. via = Some v \<longrightarrow> (\<forall>q. simple_path mt srcs owner target q \<longrightarrow> q = p) \<or>
        take (length v) (map je_alias p) = v)"

lemma plan_target_cases:
  assumes "joins_unique srcs"
  shows "plan_target mt owner srcs via target = Inr p \<longleftrightarrow>
      candidate mt srcs owner via target p \<and> (\<forall>q. candidate mt srcs owner via target q \<longrightarrow> q = p)"
    and "(\<exists>as. plan_target mt owner srcs via target = Inl (CanonicError Unreachable as [])) \<longleftrightarrow>
      (\<forall>q. \<not> candidate mt srcs owner via target q)"
    and "(\<exists>as cs. plan_target mt owner srcs via target = Inl (CanonicError AmbiguousJoinPath as cs)) \<longleftrightarrow>
      (\<exists>q r. candidate mt srcs owner via target q \<and> candidate mt srcs owner via target r \<and> q \<noteq> r)"
proof -
  define paths where "paths = all_simple_paths mt owner target srcs"
  define narrowed where "narrowed = (case via of None \<Rightarrow> paths
    | Some v \<Rightarrow> if 1 < length paths then filter_by_via paths v else paths)"
  have d: "distinct paths" unfolding paths_def all_simple_paths_def by (rule walk_distinct [OF assms])
  then have dn: "distinct narrowed"
    by (auto simp: narrowed_def filter_by_via_def split: option.splits)
  have sp: "q \<in> set paths \<longleftrightarrow> simple_path mt srcs owner target q" for q
    unfolding paths_def by (rule simple_paths_complete)
  have one: "(\<forall>q. q \<in> set paths \<longrightarrow> q = r) \<longleftrightarrow> \<not> 1 < length paths" if "r \<in> set paths" for r
    using distinct_length_cases(2) [OF d] that by metis
  have c: "q \<in> set narrowed \<longleftrightarrow> candidate mt srcs owner via target q" for q
  proof (cases via)
    case (Some v)
    have pre: "length v \<le> length q \<and> take (length v) (map je_alias q) = v \<longleftrightarrow> take (length v) (map je_alias q) = v"
      by (metis length_map length_take min.cobounded1)
    show ?thesis
      using Some one [of q] pre unfolding candidate_def sp [symmetric]
      by (auto simp: narrowed_def filter_by_via_def)
  qed (simp add: narrowed_def candidate_def sp)
  have ne: "paths = [] \<Longrightarrow> narrowed = []" by (auto simp: narrowed_def split: option.splits)
  note eq = plan_target_def [of mt owner srcs via target, folded paths_def, unfolded Let_def, folded narrowed_def]
  note cs = distinct_length_cases [OF dn]
  show "plan_target mt owner srcs via target = Inr p \<longleftrightarrow>
      candidate mt srcs owner via target p \<and> (\<forall>q. candidate mt srcs owner via target q \<longrightarrow> q = p)"
  proof (cases "narrowed \<noteq> [] \<and> \<not> 1 < length narrowed")
    case True
    then obtain x where x: "narrowed = [x]" using cs(1) by blast
    then show ?thesis using eq ne c by auto
  next
    case False
    then have "plan_target mt owner srcs via target \<noteq> Inr p" using eq by auto
    moreover have "narrowed = [] \<or> (\<exists>q\<in>set narrowed. \<exists>r\<in>set narrowed. q \<noteq> r)" using False cs(2) by blast
    ultimately show ?thesis using c by (metis empty_iff empty_set)
  qed
  show "(\<exists>as. plan_target mt owner srcs via target = Inl (CanonicError Unreachable as [])) \<longleftrightarrow>
      (\<forall>q. \<not> candidate mt srcs owner via target q)"
    using eq ne c by (cases narrowed) auto
  show "(\<exists>as cs. plan_target mt owner srcs via target = Inl (CanonicError AmbiguousJoinPath as cs)) \<longleftrightarrow>
      (\<exists>q r. candidate mt srcs owner via target q \<and> candidate mt srcs owner via target r \<and> q \<noteq> r)"
    using eq ne cs(2) unfolding c [symmetric] by auto
qed

section \<open>Plans\<close>

text \<open>
  Edges in an order in which they can be joined: what an edge starts from is the root or was
  brought in by an earlier edge. The keys are aliases, or aliases with their sources.
\<close>

definition chained :: "'k \<Rightarrow> (join_edge \<Rightarrow> 'k) \<Rightarrow> (join_edge \<Rightarrow> 'k) \<Rightarrow> join_edge list \<Rightarrow> bool" where
  "chained r fr tt es \<longleftrightarrow> (\<forall>i<length es. fr (es ! i) \<in> set (r # map tt (take i es)))"

lemma chained_Nil [simp]: "chained r fr tt []"
  by (simp add: chained_def)

lemma chained_snoc: "chained r fr tt (es @ [e]) \<longleftrightarrow> chained r fr tt es \<and> fr e \<in> set (r # map tt es)"
  by (auto simp: chained_def nth_append less_Suc_eq)

fun follows :: "(join_edge \<Rightarrow> 'k) \<Rightarrow> (join_edge \<Rightarrow> 'k) \<Rightarrow> 'k \<Rightarrow> join_edge list \<Rightarrow> bool" where
  "follows fr tt k [] = True"
| "follows fr tt k (e # es) \<longleftrightarrow> fr e = k \<and> follows fr tt (tt e) es"

definition same_keys :: "(join_edge \<Rightarrow> 'k) \<Rightarrow> join_edge set \<Rightarrow> bool" where
  "same_keys tt E \<longleftrightarrow> (\<forall>e\<in>E. \<forall>f\<in>E. je_alias e = je_alias f \<longrightarrow> tt e = tt f)"

lemma same_keysD: "same_keys tt E \<Longrightarrow> e \<in> E \<Longrightarrow> f \<in> E \<Longrightarrow> je_alias e = je_alias f \<Longrightarrow> tt e = tt f"
  unfolding same_keys_def by blast

lemma same_keys_mono: "same_keys tt E \<Longrightarrow> F \<subseteq> E \<Longrightarrow> same_keys tt F"
  unfolding same_keys_def by (meson subsetD)

lemma add_edges_spec:
  "follows fr tt k p \<Longrightarrow> k \<in> set (r # map tt edges) \<Longrightarrow> chained r fr tt edges \<Longrightarrow>
   distinct (owner # map je_alias edges) \<Longrightarrow> owner \<notin> je_alias ` set p \<Longrightarrow>
   same_keys tt (set edges \<union> set p) \<Longrightarrow>
   \<exists>new. add_edges p edges (insert owner (je_alias ` set edges)) =
       (edges @ new, insert owner (je_alias ` set (edges @ new))) \<and>
     set new \<subseteq> set p \<and> chained r fr tt (edges @ new) \<and> distinct (owner # map je_alias (edges @ new)) \<and>
     je_alias ` set p \<subseteq> je_alias ` set (edges @ new)"
proof (induction p arbitrary: k edges)
  case (Cons e p)
  show ?case
  proof (cases "je_alias e \<in> je_alias ` set edges")
    case True
    then obtain f where f: "f \<in> set edges" "je_alias f = je_alias e" by auto
    then have "tt e = tt f" using same_keysD [OF Cons.prems(6), of e f] by simp
    then have k: "tt e \<in> set (r # map tt edges)" using f by simp
    have sk: "same_keys tt (set edges \<union> set p)" by (rule same_keys_mono [OF Cons.prems(6)]) auto
    have fp: "follows fr tt (tt e) p" "owner \<notin> je_alias ` set p" using Cons.prems(1,5) by simp_all
    obtain new where n: "add_edges p edges (insert owner (je_alias ` set edges)) =
         (edges @ new, insert owner (je_alias ` set (edges @ new)))"
       "set new \<subseteq> set p" "chained r fr tt (edges @ new)" "distinct (owner # map je_alias (edges @ new))"
       "je_alias ` set p \<subseteq> je_alias ` set (edges @ new)"
      using Cons.IH [OF fp(1) k Cons.prems(3,4) fp(2) sk] by blast
    have "add_edges (e # p) edges (insert owner (je_alias ` set edges)) =
        add_edges p edges (insert owner (je_alias ` set edges))" using True by simp
    then show ?thesis using n True by (intro exI [of _ new]) auto
  next
    case False
    have ne: "je_alias e \<noteq> owner" using Cons.prems(5) by auto
    have ch: "chained r fr tt (edges @ [e])" using Cons.prems(1,2,3) by (simp add: chained_snoc)
    have sk: "same_keys tt (set (edges @ [e]) \<union> set p)" by (rule same_keys_mono [OF Cons.prems(6)]) auto
    have fp: "follows fr tt (tt e) p" "owner \<notin> je_alias ` set p" using Cons.prems(1,5) by simp_all
    have k: "tt e \<in> set (r # map tt (edges @ [e]))" by simp
    have ds: "distinct (owner # map je_alias (edges @ [e]))" using Cons.prems(4) ne False by simp
    obtain new where n: "add_edges p (edges @ [e]) (insert owner (je_alias ` set (edges @ [e]))) =
         ((edges @ [e]) @ new, insert owner (je_alias ` set ((edges @ [e]) @ new)))"
       "set new \<subseteq> set p" "chained r fr tt ((edges @ [e]) @ new)"
       "distinct (owner # map je_alias ((edges @ [e]) @ new))"
       "je_alias ` set p \<subseteq> je_alias ` set ((edges @ [e]) @ new)"
      using Cons.IH [OF fp(1) k ch ds fp(2) sk] by blast
    have "add_edges (e # p) edges (insert owner (je_alias ` set edges)) =
        add_edges p (edges @ [e]) (insert owner (je_alias ` set (edges @ [e])))"
      using False ne by (simp add: insert_commute)
    then show ?thesis using n by (intro exI [of _ "e # new"]) auto
  qed
qed simp

text \<open>One pass over the targets, for any key that is fixed by the alias on the edges it may add.\<close>

lemma plan_targets_spec:
  assumes "\<And>p t. plan_target mt owner srcs via t = Inr p \<Longrightarrow>
      follows fr tt r p \<and> set p \<subseteq> E \<and> owner \<notin> je_alias ` set p \<and> t \<in> insert owner (je_alias ` set p)"
    and "same_keys tt E"
  shows "plan_targets mt owner srcs via ts edges (insert owner (je_alias ` set edges)) = Inr out \<Longrightarrow>
    chained r fr tt edges \<Longrightarrow> distinct (owner # map je_alias edges) \<Longrightarrow> set edges \<subseteq> E \<Longrightarrow>
    chained r fr tt out \<and> distinct (owner # map je_alias out) \<and> set edges \<subseteq> set out \<and> set out \<subseteq> E \<and>
    set ts \<subseteq> insert owner (je_alias ` set out)"
proof (induction ts arbitrary: edges)
  case (Cons t ts)
  show ?case
  proof (cases "t \<in> insert owner (je_alias ` set edges)")
    case True
    then have "plan_targets mt owner srcs via ts edges (insert owner (je_alias ` set edges)) = Inr out"
      using Cons.prems(1) by simp
    from Cons.IH [OF this Cons.prems(2,3,4)] have ih: "chained r fr tt out \<and> distinct (owner # map je_alias out) \<and>
        set edges \<subseteq> set out \<and> set out \<subseteq> E \<and> set ts \<subseteq> insert owner (je_alias ` set out)" .
    then have "je_alias ` set edges \<subseteq> je_alias ` set out" by blast
    with True ih show ?thesis by auto
  next
    case False
    then obtain p where p: "plan_target mt owner srcs via t = Inr p"
      using Cons.prems(1) by (auto simp: rbind_Inr_iff)
    note P = assms(1) [OF p]
    have sub: "set p \<subseteq> E" and tp: "t \<in> insert owner (je_alias ` set p)" using P by simp_all
    have sk: "same_keys tt (set edges \<union> set p)"
      by (rule same_keys_mono [OF assms(2)]) (use sub Cons.prems(4) in simp)
    obtain new where n: "add_edges p edges (insert owner (je_alias ` set edges)) =
         (edges @ new, insert owner (je_alias ` set (edges @ new)))"
       "set new \<subseteq> set p" "chained r fr tt (edges @ new)" "distinct (owner # map je_alias (edges @ new))"
       "je_alias ` set p \<subseteq> je_alias ` set (edges @ new)"
      using add_edges_spec [of fr tt r p r edges owner] P Cons.prems(2,3) sk by auto
    have "plan_targets mt owner srcs via ts (edges @ new) (insert owner (je_alias ` set (edges @ new))) = Inr out"
      using Cons.prems(1) False p n(1) by simp
    moreover have "set (edges @ new) \<subseteq> E" using n(2) sub Cons.prems(4) by (simp only: set_append) blast
    ultimately have ih: "chained r fr tt out \<and> distinct (owner # map je_alias out) \<and> set (edges @ new) \<subseteq> set out \<and>
        set out \<subseteq> E \<and> set ts \<subseteq> insert owner (je_alias ` set out)"
      using Cons.IH n(3,4) by blast
    then have "je_alias ` set (edges @ new) \<subseteq> je_alias ` set out" by (intro image_mono) simp
    then have "je_alias ` set p \<subseteq> je_alias ` set out" by (rule subset_trans [OF n(5)])
    then have "t \<in> insert owner (je_alias ` set out)" using tp by (rule subsetD [OF insert_mono])
    with ih show ?thesis by simp
  qed
qed simp

lemma plan_target_path: "plan_target mt owner srcs via t = Inr p \<Longrightarrow> simple_path mt srcs owner t p"
proof -
  assume a: "plan_target mt owner srcs via t = Inr p"
  have "p \<in> set (all_simple_paths mt owner t srcs)"
    using a by (cases "all_simple_paths mt owner t srcs")
      (auto simp: plan_target_def Let_def filter_by_via_def hd_in_set split: if_splits option.splits
        dest!: hd_in_set)
  then show ?thesis by (simp add: simple_paths_complete)
qed

text \<open>The edges of declared joins whose left side is reachable.\<close>

definition declared_edges :: "((string \<Rightarrow> string option) \<Rightarrow> string \<Rightarrow> string) \<Rightarrow> sources \<Rightarrow> string \<Rightarrow> join_edge set" where
  "declared_edges mt srcs owner =
     {e. \<exists>a s. reaches srcs owner a s \<and> (\<exists>j\<in>set (joins_of srcs s). e = mk_edge mt srcs a s j)}"

abbreviation edge_from :: "join_edge \<Rightarrow> string \<times> string" where
  "edge_from e \<equiv> (je_from_alias e, je_from_source e)"

abbreviation edge_to :: "join_edge \<Rightarrow> string \<times> string" where
  "edge_to e \<equiv> (je_alias e, jn_to (je_join e))"

lemma linked_follows:
  "linked mt srcs a s p \<Longrightarrow> follows je_from_alias je_alias a p \<and> follows edge_from edge_to (a, s) p"
  by (induction p arbitrary: a s) auto

lemma linked_declared:
  "linked mt srcs a s p \<Longrightarrow> reaches srcs owner a s \<Longrightarrow> set p \<subseteq> declared_edges mt srcs owner"
proof (induction p arbitrary: a s)
  case (Cons e p)
  then obtain j where j: "j \<in> set (joins_of srcs s)" "e = mk_edge mt srcs a s j" by auto
  then have "reaches srcs owner (je_alias e) (jn_to (je_join e))"
    using reaches_join [OF Cons.prems(2)] by simp
  then have "set p \<subseteq> declared_edges mt srcs owner"
    using Cons.IH [of "je_alias e" "jn_to (je_join e)"] Cons.prems(1) by simp
  moreover have "e \<in> declared_edges mt srcs owner"
    using j Cons.prems(2) unfolding declared_edges_def by blast
  ultimately show ?case by simp
qed simp

lemma plan_target_facts:
  assumes "plan_target mt owner srcs via t = Inr p"
  shows "follows je_from_alias je_alias owner p \<and> set p \<subseteq> declared_edges mt srcs owner \<and>
      owner \<notin> je_alias ` set p \<and> t \<in> insert owner (je_alias ` set p)"
    and "follows edge_from edge_to (owner, owner) p \<and> set p \<subseteq> declared_edges mt srcs owner \<and>
      owner \<notin> je_alias ` set p \<and> t \<in> insert owner (je_alias ` set p)"
proof -
  have sp: "linked mt srcs owner owner p" "owner \<notin> je_alias ` set p" "last (owner # map je_alias p) = t"
    using plan_target_path [OF assms] by (simp_all add: simple_path_def)
  have "last (owner # map je_alias p) \<in> set (owner # map je_alias p)" by (rule last_in_set) simp
  then have "t \<in> insert owner (je_alias ` set p)" using sp(3) by simp
  then show "follows je_from_alias je_alias owner p \<and> set p \<subseteq> declared_edges mt srcs owner \<and>
      owner \<notin> je_alias ` set p \<and> t \<in> insert owner (je_alias ` set p)"
    "follows edge_from edge_to (owner, owner) p \<and> set p \<subseteq> declared_edges mt srcs owner \<and>
      owner \<notin> je_alias ` set p \<and> t \<in> insert owner (je_alias ` set p)"
    using linked_follows [OF sp(1)] linked_declared [OF sp(1) reaches_owner] sp(2) by blast+
qed

lemma plan_joins_aliases:
  assumes "plan_joins mt owner ts srcs via = Inr out"
  shows "chained owner je_from_alias je_alias out \<and> distinct (owner # map je_alias out) \<and>
    set out \<subseteq> declared_edges mt srcs owner \<and> set ts \<subseteq> insert owner (je_alias ` set out)"
proof -
  have "same_keys je_alias E" for E by (simp add: same_keys_def)
  note spec = plan_targets_spec [OF plan_target_facts(1) this, where edges = "[]"]
  show ?thesis
    using spec [where mt = mt and owner = owner and srcs = srcs and via = via and ts = "sorted_set ts" and out = out]
      assms by (simp add: plan_joins_def)
qed

lemma declared_to: "e \<in> declared_edges mt srcs owner \<Longrightarrow> reaches srcs owner (je_alias e) (jn_to (je_join e))"
  unfolding declared_edges_def using reaches_join by auto

lemma plan_joins_sources:
  assumes "plan_joins mt owner ts srcs via = Inr out" and "unambiguous srcs owner"
  shows "chained (owner, owner) edge_from edge_to out"
proof -
  have "same_keys edge_to (declared_edges mt srcs owner)"
    unfolding same_keys_def
  proof (intro ballI impI)
    fix e f
    assume ef: "e \<in> declared_edges mt srcs owner" "f \<in> declared_edges mt srcs owner" "je_alias e = je_alias f"
    have "jn_to (je_join e) = jn_to (je_join f)"
      using assms(2) declared_to [OF ef(1)] declared_to [OF ef(2)] ef(3) unfolding unambiguous_def by metis
    with ef(3) show "edge_to e = edge_to f" by simp
  qed
  note spec = plan_targets_spec [OF plan_target_facts(2) this, where edges = "[]"]
  show ?thesis
    using spec [where via = via and ts = "sorted_set ts" and out = out] assms(1) by (simp add: plan_joins_def)
qed

section \<open>Properties\<close>

text \<open>
  \<^verbatim>\<open>build_alias_tree\<close> terminates with one entry per alias, lists only aliases that declared
  joins reach, and lists all of them with their sources whenever no alias stands for two sources.
\<close>

theorem alias_tree_exact:
  "distinct (map fst (build_alias_tree owner srcs)) \<and>
   (\<forall>a s. (a, s) \<in> set (build_alias_tree owner srcs) \<longrightarrow> reaches srcs owner a s) \<and>
   (unambiguous srcs owner \<longrightarrow>
     (\<forall>a s. reaches srcs owner a s \<longrightarrow> (a, s) \<in> set (build_alias_tree owner srcs)))"
  using alias_tree_closed(1) alias_tree_sound alias_tree_complete by blast

text \<open>
  The path search returns exactly the simple paths of declared joins from the owner to the
  target alias, each once when the aliases of every source are unique.
\<close>

theorem simple_paths_exact:
  "set (all_simple_paths mt owner target srcs) = {p. simple_path mt srcs owner target p} \<and>
   (joins_unique srcs \<longrightarrow> distinct (all_simple_paths mt owner target srcs))"
proof (intro conjI impI)
  show "set (all_simple_paths mt owner target srcs) = {p. simple_path mt srcs owner target p}"
    by (simp add: set_eq_iff simple_paths_complete)
  show "joins_unique srcs \<Longrightarrow> distinct (all_simple_paths mt owner target srcs)"
    unfolding all_simple_paths_def by (rule walk_distinct)
qed

text \<open>
  The planner never guesses. For a target it returns a path exactly when that path is the
  only candidate, reports \<^verbatim>\<open>UNREACHABLE\<close> exactly when there is no candidate and
  \<^verbatim>\<open>AMBIGUOUS_JOIN_PATH\<close> exactly when there are two. Candidates are the simple paths, cut down to
  those that begin with \<^verbatim>\<open>via\<close> when there is more than one.
\<close>

theorem plan_target_decides:
  assumes "joins_unique srcs"
  shows "(plan_target mt owner srcs via target = Inr p \<longleftrightarrow>
      candidate mt srcs owner via target p \<and> (\<forall>q. candidate mt srcs owner via target q \<longrightarrow> q = p)) \<and>
    ((\<exists>as. plan_target mt owner srcs via target = Inl (CanonicError Unreachable as [])) \<longleftrightarrow>
      (\<forall>q. \<not> candidate mt srcs owner via target q)) \<and>
    ((\<exists>as cs. plan_target mt owner srcs via target = Inl (CanonicError AmbiguousJoinPath as cs)) \<longleftrightarrow>
      (\<exists>q r. candidate mt srcs owner via target q \<and> candidate mt srcs owner via target r \<and> q \<noteq> r))"
  by (intro conjI plan_target_cases [OF assms])

text \<open>
  C27: a join plan can be executed as it stands. It covers every target, joins no alias twice and
  never the owner again, uses only declared joins, and every edge starts at the owner or at an
  alias that an earlier edge has joined. It does not depend on the order or repetition of targets.
\<close>

theorem join_plan_is_connected:
  assumes "plan_joins mt owner ts srcs via = Inr edges"
  shows "set ts \<subseteq> set (owner # map je_alias edges) \<and> distinct (owner # map je_alias edges) \<and>
    set edges \<subseteq> declared_edges mt srcs owner \<and>
    (\<forall>i<length edges. je_from_alias (edges ! i) \<in> set (owner # map je_alias (take i edges))) \<and>
    (\<forall>us. set us = set ts \<longrightarrow> plan_joins mt owner us srcs via = Inr edges)"
proof -
  have "plan_joins mt owner us srcs via = Inr edges" if "set us = set ts" for us
    using assms sorted_set_cong [OF that] by (simp add: plan_joins_def)
  then show ?thesis using plan_joins_aliases [OF assms] unfolding chained_def by auto
qed

definition sample_join :: "string \<Rightarrow> string option \<Rightarrow> join" where
  "sample_join t n = \<lparr>jn_to = t, jn_on = ''k = k'', jn_relationship = MANY_TO_ONE, jn_name = n\<rparr>"

definition joined_source :: "string \<Rightarrow> join list \<Rightarrow> string \<times> semantic_source" where
  "joined_source n js = (n, (bare_source n n)\<lparr>ss_joins := js\<rparr>)"

definition rental_sources :: sources where
  "rental_sources =
     [joined_source ''rentals'' [sample_join ''locations'' (Some ''pickup''), sample_join ''cars'' None],
      joined_source ''cars'' [sample_join ''makers'' None],
      joined_source ''locations'' [], joined_source ''makers'' []]"

lemma rental_joins_unique: "joins_unique rental_sources"
  by (auto simp: joins_unique_def joins_of_def rental_sources_def joined_source_def sample_join_def
      jn_alias_def)

lemma plan_target_decides_witness:
  "\<exists>p. candidate (\<lambda>_ s. s) rental_sources ''rentals'' None ''makers'' p \<and> map je_alias p = [''cars'', ''makers'']"
proof -
  let ?p = "[mk_edge (\<lambda>_ s. s) rental_sources ''rentals'' ''rentals'' (sample_join ''cars'' None),
    mk_edge (\<lambda>_ s. s) rental_sources ''cars'' ''cars'' (sample_join ''makers'' None)]"
  have "plan_target (\<lambda>_ s. s) ''rentals'' rental_sources None ''makers'' = Inr ?p" by code_simp
  then have "candidate (\<lambda>_ s. s) rental_sources ''rentals'' None ''makers'' ?p"
    using plan_target_decides [OF rental_joins_unique, of "\<lambda>_ s. s" "''rentals''" None "''makers''" ?p] by blast
  then show ?thesis by (intro exI [of _ ?p]) (simp add: sample_join_def jn_alias_def)
qed

lemma join_plan_is_connected_witness:
  "\<exists>edges. plan_joins (\<lambda>_ s. s) ''rentals'' [''makers'', ''pickup'', ''cars''] rental_sources None = Inr edges \<and>
     map je_alias edges = [''cars'', ''makers'', ''pickup''] \<and> distinct (''rentals'' # map je_alias edges)"
proof -
  let ?E = "[mk_edge (\<lambda>_ s. s) rental_sources ''rentals'' ''rentals'' (sample_join ''cars'' None),
    mk_edge (\<lambda>_ s. s) rental_sources ''cars'' ''cars'' (sample_join ''makers'' None),
    mk_edge (\<lambda>_ s. s) rental_sources ''rentals'' ''rentals'' (sample_join ''locations'' (Some ''pickup''))]"
  have a: "plan_joins (\<lambda>_ s. s) ''rentals'' [''makers'', ''pickup'', ''cars''] rental_sources None = Inr ?E"
    by code_simp
  show ?thesis
    using join_plan_is_connected [OF a] a by (intro exI [of _ ?E]) (simp add: sample_join_def jn_alias_def)
qed

text \<open>Two routes that use the same alias for different sources.\<close>

definition clashing_sources :: sources where
  "clashing_sources =
     [joined_source ''a'' [sample_join ''b'' None, sample_join ''d'' None],
      joined_source ''b'' [sample_join ''c'' (Some ''x'')],
      joined_source ''d'' [sample_join ''e'' (Some ''x'')],
      joined_source ''c'' [sample_join ''t'' None],
      joined_source ''e'' [sample_join ''u'' None],
      joined_source ''t'' [], joined_source ''u'' []]"

lemma clashing_plan:
  "plan_joins (\<lambda>_ s. s) ''a'' [''t'', ''u''] clashing_sources None =
     Inr [mk_edge (\<lambda>_ s. s) clashing_sources ''a'' ''a'' (sample_join ''b'' None),
          mk_edge (\<lambda>_ s. s) clashing_sources ''b'' ''b'' (sample_join ''c'' (Some ''x'')),
          mk_edge (\<lambda>_ s. s) clashing_sources ''x'' ''c'' (sample_join ''t'' None),
          mk_edge (\<lambda>_ s. s) clashing_sources ''a'' ''a'' (sample_join ''d'' None),
          mk_edge (\<lambda>_ s. s) clashing_sources ''x'' ''e'' (sample_join ''u'' None)]"
  by code_simp

text \<open>
  C37: when no alias stands for two sources, the table behind the alias an edge starts from is
  the source the edge was declared on, so the rewritten \<^verbatim>\<open>ON\<close> clause refers to columns of the
  right table. Without that condition the plan can be wrong: aliases are only unique per source,
  and a plan that reaches the same alias on two routes keeps the first table and attaches the
  second route's joins to it (here \<^verbatim>\<open>u\<close> is joined from alias \<^verbatim>\<open>x\<close> as if it were \<^verbatim>\<open>e\<close>, but
  the plan joined \<^verbatim>\<open>x\<close> as \<^verbatim>\<open>c\<close>).
\<close>

theorem join_plan_tables_match:
  "(plan_joins mt owner ts srcs via = Inr edges \<and> unambiguous srcs owner \<longrightarrow>
     (\<forall>i<length edges. (je_from_alias (edges ! i), je_from_source (edges ! i)) \<in>
       set ((owner, owner) # map (\<lambda>e. (je_alias e, jn_to (je_join e))) (take i edges)))) \<and>
   (\<exists>out. plan_joins (\<lambda>_ s. s) ''a'' [''t'', ''u''] clashing_sources None = Inr out \<and>
     (\<exists>e\<in>set out. je_from_source e \<noteq> ''a'' \<and>
       (\<forall>f\<in>set out. je_alias f = je_from_alias e \<longrightarrow> jn_to (je_join f) \<noteq> je_from_source e)))"
proof (intro conjI impI)
  assume "plan_joins mt owner ts srcs via = Inr edges \<and> unambiguous srcs owner"
  then have "chained (owner, owner) edge_from edge_to edges" using plan_joins_sources by blast
  then show "\<forall>i<length edges. (je_from_alias (edges ! i), je_from_source (edges ! i)) \<in>
       set ((owner, owner) # map (\<lambda>e. (je_alias e, jn_to (je_join e))) (take i edges))"
    unfolding chained_def .
next
  show "\<exists>out. plan_joins (\<lambda>_ s. s) ''a'' [''t'', ''u''] clashing_sources None = Inr out \<and>
     (\<exists>e\<in>set out. je_from_source e \<noteq> ''a'' \<and>
       (\<forall>f\<in>set out. je_alias f = je_from_alias e \<longrightarrow> jn_to (je_join f) \<noteq> je_from_source e))"
    unfolding clashing_plan by (simp add: sample_join_def jn_alias_def)
qed

lemma rental_reaches:
  "reaches rental_sources ''rentals'' a s \<Longrightarrow>
    (a, s) \<in> {(''rentals'', ''rentals''), (''pickup'', ''locations''), (''cars'', ''cars''), (''makers'', ''makers'')}"
  by (induction rule: reaches.induct)
    (auto simp: joins_of_def rental_sources_def joined_source_def sample_join_def jn_alias_def bare_source_def)

lemma rental_unambiguous: "unambiguous rental_sources ''rentals''"
  unfolding unambiguous_def by (auto dest!: rental_reaches)

lemma rental_tree:
  "build_alias_tree ''rentals'' rental_sources =
    [(''rentals'', ''rentals''), (''pickup'', ''locations''), (''cars'', ''cars''), (''makers'', ''makers'')]"
  by code_simp

lemma alias_tree_exact_witness:
  "reaches rental_sources ''rentals'' ''makers'' ''makers'' \<and> unambiguous rental_sources ''rentals'' \<and>
   {(a, s). reaches rental_sources ''rentals'' a s} \<subseteq> set (build_alias_tree ''rentals'' rental_sources)"
proof -
  note exact = alias_tree_exact [of "''rentals''" rental_sources]
  have "reaches rental_sources ''rentals'' a s \<longrightarrow> (a, s) \<in> set (build_alias_tree ''rentals'' rental_sources)" for a s
    using exact rental_unambiguous by (elim conjE) (drule (1) mp, blast)
  then have "{(a, s). reaches rental_sources ''rentals'' a s} \<subseteq> set (build_alias_tree ''rentals'' rental_sources)"
    by blast
  moreover have "reaches rental_sources ''rentals'' ''makers'' ''makers''"
  proof -
    have "(''makers'', ''makers'') \<in> set (build_alias_tree ''rentals'' rental_sources)" by (simp add: rental_tree)
    then show ?thesis using exact by blast
  qed
  ultimately show ?thesis using rental_unambiguous by simp
qed

lemma simple_paths_exact_witness:
  "joins_unique rental_sources \<and> distinct (all_simple_paths (\<lambda>_ s. s) ''rentals'' ''makers'' rental_sources) \<and>
   (\<exists>p. simple_path (\<lambda>_ s. s) rental_sources ''rentals'' ''makers'' p)"
proof -
  have "all_simple_paths (\<lambda>_ s. s) ''rentals'' ''makers'' rental_sources \<noteq> []" by code_simp
  then obtain p where "p \<in> set (all_simple_paths (\<lambda>_ s. s) ''rentals'' ''makers'' rental_sources)"
    by (cases "all_simple_paths (\<lambda>_ s. s) ''rentals'' ''makers'' rental_sources") auto
  then show ?thesis
    using simple_paths_exact [of "\<lambda>_ s. s" "''rentals''" "''makers''" rental_sources] rental_joins_unique by blast
qed

lemma join_plan_tables_match_witness:
  "\<exists>e. plan_joins (\<lambda>_ s. s) ''rentals'' [''cars''] rental_sources None = Inr [e] \<and>
     (je_from_alias e, je_from_source e) = (''rentals'', ''rentals'')"
proof -
  let ?e = "mk_edge (\<lambda>_ s. s) rental_sources ''rentals'' ''rentals'' (sample_join ''cars'' None)"
  have a: "plan_joins (\<lambda>_ s. s) ''rentals'' [''cars''] rental_sources None = Inr [?e]" by code_simp
  show ?thesis
    using join_plan_tables_match [of "\<lambda>_ s. s" "''rentals''" "[''cars'']" rental_sources None "[?e]"]
      a rental_unambiguous by (intro exI [of _ ?e]) simp
qed

end
