(* ===== verification/Tiers.thy ===== *)
theory Tiers
  imports Errors
begin

text \<open>
  \<^verbatim>\<open>src/canonic/trust/models.py\<close>: the three trust tiers in their declared order, the floor
  check of \<^verbatim>\<open>min_trust\<close>, and the verdict and score records.
\<close>

datatype trust_tier = CAUTION | PROVISIONAL | TRUSTED

fun tier_value :: "trust_tier \<Rightarrow> string" where
  "tier_value CAUTION = ''caution''"
| "tier_value PROVISIONAL = ''provisional''"
| "tier_value TRUSTED = ''trusted''"

definition all_tiers :: "trust_tier list" where
  "all_tiers = [CAUTION, PROVISIONAL, TRUSTED]"

definition tier_of_value :: "string \<Rightarrow> trust_tier option" where
  "tier_of_value s = find (\<lambda>t. tier_value t = s) all_tiers"

text \<open>\<^verbatim>\<open>list(TrustTier).index(tier)\<close>\<close>

fun tier_index :: "trust_tier \<Rightarrow> nat" where
  "tier_index CAUTION = 0"
| "tier_index PROVISIONAL = 1"
| "tier_index TRUSTED = 2"

definition tier_meets :: "trust_tier \<Rightarrow> trust_tier \<Rightarrow> bool" where
  "tier_meets tier flr \<longleftrightarrow> tier_index flr \<le> tier_index tier"

record signal_verdict =
  sv_cap :: "trust_tier option"
  sv_reason :: "string option"

record trust_score =
  ts_tier :: trust_tier
  ts_reasons :: "string list"

text \<open>The declared order as a linear order, so that minima of tiers are available.\<close>

instantiation trust_tier :: linorder
begin

definition less_eq_trust_tier :: "trust_tier \<Rightarrow> trust_tier \<Rightarrow> bool" where
  "less_eq_trust_tier a b \<longleftrightarrow> tier_index a \<le> tier_index b"

definition less_trust_tier :: "trust_tier \<Rightarrow> trust_tier \<Rightarrow> bool" where
  "less_trust_tier a b \<longleftrightarrow> tier_index a < tier_index b"

lemma tier_index_inj: "tier_index a = tier_index b \<Longrightarrow> a = b"
  by (cases a; cases b) simp_all

instance
  by standard (auto simp: less_eq_trust_tier_def less_trust_tier_def intro: tier_index_inj)

end

lemma tier_meets_iff_le: "tier_meets t f \<longleftrightarrow> f \<le> t"
  by (simp add: tier_meets_def less_eq_trust_tier_def)

lemma tier_le_TRUSTED [simp]: "t \<le> TRUSTED"
  by (cases t) (simp_all add: less_eq_trust_tier_def)

lemma tier_of_value_value [simp]: "tier_of_value (tier_value t) = Some t"
  by (cases t) (simp_all add: tier_of_value_def all_tiers_def)

end
