(* ===== verification/Contract_Model.thy ===== *)
theory Contract_Model
  imports Complex_Main Durations Semantic_Model Tiers
begin

text \<open>
  \<^verbatim>\<open>src/canonic/contracts/models.py\<close> and \<^verbatim>\<open>kinds.py\<close>: the contract records (metric bindings,
  guardrails, finality rules, assertions, tenancy and role policies), the registry of binding
  kinds, and the validators that run when a record is constructed. What the validators use of the
  SQL parser is a parameter (\<open>derived_names\<close>, the input names an arithmetic expression reads, or
  \<open>None\<close> when it is not plain arithmetic). A \<^verbatim>\<open>float\<close> that is only compared is a rational.
\<close>

section \<open>Enumerations\<close>

datatype status = ACTIVE | DEPRECATED
datatype severity = ERROR_SEV | WARN
datatype guardrail_kind = MANDATORY_FILTER | REQUIRED_DIMENSION | RESTRICT_SOURCE | MIN_TRUST
datatype binding_kind = SINGLE | RATIO | WEIGHTED_AVG | SEMI_ADDITIVE_KIND | DISTINCT_COUNT | PERCENTILE
  | OPAQUE | CUMULATIVE | OFFSET | DERIVED | CONVERSION
datatype collapse_agg = LAST_AGG | FIRST_AGG | AVG_AGG | MIN_AGG | MAX_AGG
datatype on_zero_denominator = ZD_NULL | ZD_ZERO | ZD_ERROR
datatype on_gap = SKIP | FILL_OBSERVED
datatype history = EXCLUDE | INCLUDE
datatype period_agg = PA_FIRST | PA_LAST | PA_AVERAGE
datatype conversion_calculation = CONVERSION_RATE | CONVERSIONS
datatype on_missing_principal = MP_DENY | ALLOW_UNSCOPED
datatype undeclared_source = US_DENY | US_WARN
datatype mask_strategy = MS_PARTIAL | MS_HASH | MS_NULL
datatype example_origin_kind = EO_ASSERTION | EO_OBSERVED_QUERY | EO_USAGE_EVIDENCE

section \<open>Bindings\<close>

record conversion_pair =
  cp_base :: string
  cp_conversion :: string

record derived_input =
  di_metric :: string
  di_alias :: "string option"

text \<open>\<^verbatim>\<open>self.alias or self.metric\<close>\<close>

definition di_name :: "derived_input \<Rightarrow> string" where
  "di_name i = (case di_alias i of None \<Rightarrow> di_metric i | Some a \<Rightarrow> if a = [] then di_metric i else a)"

record canonical_ref =
  cr_kind :: binding_kind
  cr_source :: "string option"
  cr_measure :: "string option"
  cr_numerator :: "string option"
  cr_denominator :: "string option"
  cr_weighted_sum :: "string option"
  cr_weight :: "string option"
  cr_numerator_parts :: "string list option"
  cr_on_zero :: on_zero_denominator
  cr_collapse_dimension :: "string option"
  cr_collapse_agg :: "collapse_agg option"
  cr_distinct_on :: "string option"
  cr_column :: "string option"
  cr_quantile :: "rat option"
  cr_native_grain :: "string list option"
  cr_order_by :: "string list option"
  cr_on_gap :: on_gap
  cr_history :: history
  cr_window :: "duration option"
  cr_grain_to_date :: "duration_unit option"
  cr_period_agg :: period_agg
  cr_base :: "string option"
  cr_time_dimension :: "string option"
  cr_offset :: "duration option"
  cr_expr :: "string option"
  cr_inputs :: "derived_input list option"
  cr_base_metric :: "string option"
  cr_conversion_metric :: "string option"
  cr_entity :: "conversion_pair option"
  cr_base_time :: "string option"
  cr_conversion_time :: "string option"
  cr_calculation :: "conversion_calculation option"
  cr_constant_properties :: "conversion_pair list option"
  cr_population_filter :: "string option"

definition is_bounded :: "canonical_ref \<Rightarrow> bool" where
  "is_bounded c \<longleftrightarrow> cr_window c \<noteq> None \<or> cr_grain_to_date c \<noteq> None"

definition needs_day_spine :: "canonical_ref \<Rightarrow> bool" where
  "needs_day_spine c \<longleftrightarrow> is_bounded c \<or> cr_period_agg c \<noteq> PA_LAST"

definition cve :: "string \<Rightarrow> exn" where
  "cve field = ContractValidationError [PKey field]"

text \<open>\<^verbatim>\<open>not xs\<close> for an optional list: absent or empty.\<close>

definition empty_opt :: "'a list option \<Rightarrow> bool" where
  "empty_opt x = (case x of None \<Rightarrow> True | Some xs \<Rightarrow> xs = [])"

definition has_dup :: "'a list \<Rightarrow> bool" where
  "has_dup xs \<longleftrightarrow> \<not> distinct xs"

definition validate_offset :: "canonical_ref \<Rightarrow> unit res" where
  "validate_offset c =
     checks
       [(cr_base c = None, cve ''base''),
        (cr_time_dimension c = None, cve ''time_dimension''),
        (cr_offset c = None, cve ''offset''),
        (case cr_offset c of None \<Rightarrow> False | Some d \<Rightarrow> rank (du_unit d) < rank DAY, cve ''offset'')]"

definition validate_derived :: "(string \<Rightarrow> string list option) \<Rightarrow> canonical_ref \<Rightarrow> unit res" where
  "validate_derived derived_names c =
     (case cr_expr c of
        None \<Rightarrow> Inl (cve ''expr'')
      | Some e \<Rightarrow>
        (if empty_opt (cr_inputs c) then Inl (cve ''inputs'')
         else
           (let declared = map di_name (the (cr_inputs c))
            in if has_dup declared then Inl (cve ''inputs'')
               else (case derived_names e of
                   None \<Rightarrow> Inl (cve ''expr'')
                 | Some used \<Rightarrow>
                     checks [(\<not> set used \<subseteq> set declared, cve ''expr''),
                             (\<not> set declared \<subseteq> set used, cve ''inputs'')]))))"

definition validate_conversion :: "canonical_ref \<Rightarrow> unit res" where
  "validate_conversion c =
     checks
       [(cr_base_metric c = None, cve ''base_metric''),
        (cr_conversion_metric c = None, cve ''conversion_metric''),
        (cr_entity c = None, cve ''entity''),
        (cr_base_time c = None, cve ''base_time''),
        (cr_conversion_time c = None, cve ''conversion_time''),
        (cr_population_filter c \<noteq> None, cve ''population_filter'')]"

text \<open>Fields that belong to one kind, in the order of the table.\<close>

definition validate_kind_fields :: "canonical_ref \<Rightarrow> unit res" where
  "validate_kind_fields c =
     (let k = cr_kind c
      in checks
        [(cr_base c \<noteq> None \<and> k \<noteq> OFFSET, cve ''base''),
         (cr_time_dimension c \<noteq> None \<and> k \<noteq> OFFSET, cve ''time_dimension''),
         (cr_offset c \<noteq> None \<and> k \<noteq> OFFSET, cve ''offset''),
         (cr_expr c \<noteq> None \<and> k \<noteq> DERIVED, cve ''expr''),
         (cr_inputs c \<noteq> None \<and> k \<noteq> DERIVED, cve ''inputs''),
         (cr_base_metric c \<noteq> None \<and> k \<noteq> CONVERSION, cve ''base_metric''),
         (cr_conversion_metric c \<noteq> None \<and> k \<noteq> CONVERSION, cve ''conversion_metric''),
         (cr_entity c \<noteq> None \<and> k \<noteq> CONVERSION, cve ''entity''),
         (cr_base_time c \<noteq> None \<and> k \<noteq> CONVERSION, cve ''base_time''),
         (cr_conversion_time c \<noteq> None \<and> k \<noteq> CONVERSION, cve ''conversion_time''),
         (cr_calculation c \<noteq> None \<and> k \<noteq> CONVERSION, cve ''calculation''),
         (cr_constant_properties c \<noteq> None \<and> k \<noteq> CONVERSION, cve ''constant_properties'')])"

definition frame_fields :: "canonical_ref \<Rightarrow> string list" where
  "frame_fields c =
     (if cr_window c \<noteq> None then [''window''] else []) @
     (if cr_grain_to_date c \<noteq> None then [''grain_to_date''] else []) @
     (if cr_period_agg c \<noteq> PA_LAST then [''period_agg''] else [])"

definition validate_frame :: "canonical_ref \<Rightarrow> unit res" where
  "validate_frame c =
     (let ff = frame_fields c
      in if ff = [] then Inr ()
         else if cr_kind c = CONVERSION \<and> ff = [''window''] then Inr ()
         else checks
           [(cr_kind c \<noteq> CUMULATIVE, cve (hd ff)),
            (cr_window c \<noteq> None \<and> cr_grain_to_date c \<noteq> None, cve ''window''),
            (case cr_window c of None \<Rightarrow> False | Some d \<Rightarrow> rank (du_unit d) < rank DAY, cve ''window''),
            (case cr_grain_to_date c of None \<Rightarrow> False | Some u \<Rightarrow> rank u < rank DAY, cve ''grain_to_date''),
            (case cr_order_by c of None \<Rightarrow> False | Some os \<Rightarrow> length os \<noteq> 1, cve ''order_by''),
            (is_bounded c \<and> cr_on_gap c = FILL_OBSERVED, cve ''on_gap''),
            (is_bounded c \<and> cr_history c = INCLUDE, cve ''history'')])"

definition validate_numerator_parts :: "canonical_ref \<Rightarrow> unit res" where
  "validate_numerator_parts c =
     (case cr_numerator_parts c of
        None \<Rightarrow> Inr ()
      | Some parts \<Rightarrow> checks
          [(cr_kind c \<notin> {RATIO, WEIGHTED_AVG}, cve ''numerator_parts''),
           (length parts < 2, cve ''numerator_parts''),
           (has_dup parts, cve ''numerator_parts'')])"

text \<open>The required fields of each kind.\<close>

definition validate_required :: "(string \<Rightarrow> string list option) \<Rightarrow> canonical_ref \<Rightarrow> unit res" where
  "validate_required derived_names c =
     (let src = (cr_source c = None, cve ''source''); mea = (cr_measure c = None, cve ''measure'')
      in case cr_kind c of
           SINGLE \<Rightarrow> checks [src, mea]
         | RATIO \<Rightarrow> checks [(cr_numerator c = None, cve ''numerator''), (cr_denominator c = None, cve ''denominator'')]
         | WEIGHTED_AVG \<Rightarrow> checks [(cr_weighted_sum c = None, cve ''weighted_sum''), (cr_weight c = None, cve ''weight'')]
         | SEMI_ADDITIVE_KIND \<Rightarrow> checks [src, mea, (cr_collapse_dimension c = None, cve ''collapse_dimension''),
             (cr_collapse_agg c = None, cve ''collapse_agg'')]
         | DISTINCT_COUNT \<Rightarrow> checks [src, (cr_distinct_on c = None, cve ''distinct_on'')]
         | PERCENTILE \<Rightarrow> checks [src, (cr_column c = None, cve ''column''),
             (case cr_quantile c of None \<Rightarrow> True | Some q \<Rightarrow> \<not> (0 < q \<and> q < 1), cve ''quantile'')]
         | OPAQUE \<Rightarrow> checks [src, mea, (empty_opt (cr_native_grain c), cve ''native_grain'')]
         | CUMULATIVE \<Rightarrow> checks [src, mea, (empty_opt (cr_order_by c), cve ''order_by''),
             (case cr_order_by c of None \<Rightarrow> False | Some os \<Rightarrow> has_dup os, cve ''order_by'')]
         | OFFSET \<Rightarrow> validate_offset c
         | DERIVED \<Rightarrow> validate_derived derived_names c
         | CONVERSION \<Rightarrow> validate_conversion c)"

definition validate_shape :: "(string \<Rightarrow> string list option) \<Rightarrow> canonical_ref \<Rightarrow> unit res" where
  "validate_shape derived_names c =
     rbind (validate_required derived_names c) (\<lambda>_.
     rbind (validate_kind_fields c) (\<lambda>_.
     rbind (validate_frame c) (\<lambda>_.
     validate_numerator_parts c)))"

section \<open>The registry of kinds\<close>

record binding_kind_spec =
  ks_kind :: binding_kind
  ks_source_bound :: bool
  ks_composite :: bool
  ks_recompute :: bool
  ks_describable :: bool
  ks_column_attr :: "string option"
  ks_component_attrs :: "(string \<times> string) option"

definition all_kinds :: "binding_kind list" where
  "all_kinds = [SINGLE, SEMI_ADDITIVE_KIND, DISTINCT_COUNT, PERCENTILE, OPAQUE, CUMULATIVE, RATIO,
     WEIGHTED_AVG, OFFSET, DERIVED, CONVERSION]"

fun spec_for :: "binding_kind \<Rightarrow> binding_kind_spec" where
  "spec_for SINGLE = \<lparr>ks_kind = SINGLE, ks_source_bound = True, ks_composite = False, ks_recompute = False,
     ks_describable = True, ks_column_attr = Some ''measure'', ks_component_attrs = None\<rparr>"
| "spec_for SEMI_ADDITIVE_KIND = \<lparr>ks_kind = SEMI_ADDITIVE_KIND, ks_source_bound = True, ks_composite = False,
     ks_recompute = False, ks_describable = True, ks_column_attr = Some ''measure'', ks_component_attrs = None\<rparr>"
| "spec_for DISTINCT_COUNT = \<lparr>ks_kind = DISTINCT_COUNT, ks_source_bound = True, ks_composite = False,
     ks_recompute = True, ks_describable = True, ks_column_attr = Some ''distinct_on'', ks_component_attrs = None\<rparr>"
| "spec_for PERCENTILE = \<lparr>ks_kind = PERCENTILE, ks_source_bound = True, ks_composite = False,
     ks_recompute = True, ks_describable = True, ks_column_attr = Some ''column'', ks_component_attrs = None\<rparr>"
| "spec_for OPAQUE = \<lparr>ks_kind = OPAQUE, ks_source_bound = True, ks_composite = False,
     ks_recompute = False, ks_describable = False, ks_column_attr = Some ''measure'', ks_component_attrs = None\<rparr>"
| "spec_for CUMULATIVE = \<lparr>ks_kind = CUMULATIVE, ks_source_bound = True, ks_composite = False,
     ks_recompute = False, ks_describable = True, ks_column_attr = Some ''measure'', ks_component_attrs = None\<rparr>"
| "spec_for RATIO = \<lparr>ks_kind = RATIO, ks_source_bound = False, ks_composite = True, ks_recompute = False,
     ks_describable = False, ks_column_attr = None, ks_component_attrs = Some (''numerator'', ''denominator'')\<rparr>"
| "spec_for WEIGHTED_AVG = \<lparr>ks_kind = WEIGHTED_AVG, ks_source_bound = False, ks_composite = True,
     ks_recompute = False, ks_describable = False, ks_column_attr = None,
     ks_component_attrs = Some (''weighted_sum'', ''weight'')\<rparr>"
| "spec_for k = \<lparr>ks_kind = k, ks_source_bound = False, ks_composite = False, ks_recompute = False,
     ks_describable = False, ks_column_attr = None, ks_component_attrs = None\<rparr>"

text \<open>\<^verbatim>\<open>getattr(ref, name)\<close> for the attribute names the registry uses.\<close>

definition get_attr :: "canonical_ref \<Rightarrow> string \<Rightarrow> string option" where
  "get_attr c a =
     (if a = ''measure'' then cr_measure c
      else if a = ''distinct_on'' then cr_distinct_on c
      else if a = ''column'' then cr_column c
      else if a = ''numerator'' then cr_numerator c
      else if a = ''denominator'' then cr_denominator c
      else if a = ''weighted_sum'' then cr_weighted_sum c
      else if a = ''weight'' then cr_weight c
      else None)"

definition column_field :: "binding_kind_spec \<Rightarrow> canonical_ref \<Rightarrow> string option" where
  "column_field spec c = (case ks_column_attr spec of None \<Rightarrow> None | Some a \<Rightarrow> get_attr c a)"

definition component_names :: "binding_kind_spec \<Rightarrow> canonical_ref \<Rightarrow> string option \<times> string option" where
  "component_names spec c =
     (case ks_component_attrs spec of None \<Rightarrow> (None, None) | Some (a, b) \<Rightarrow> (get_attr c a, get_attr c b))"

definition opt_list :: "'a option \<Rightarrow> 'a list" where
  "opt_list x = (case x of None \<Rightarrow> [] | Some y \<Rightarrow> [y])"

definition dependency_names :: "binding_kind_spec \<Rightarrow> canonical_ref \<Rightarrow> string list" where
  "dependency_names spec c =
     (if ks_component_attrs spec \<noteq> None
      then opt_list (fst (component_names spec c)) @ opt_list (snd (component_names spec c))
      else (case cr_base c of
          Some b \<Rightarrow> [b]
        | None \<Rightarrow>
            (case (cr_base_metric c, cr_conversion_metric c) of
               (Some b, Some v) \<Rightarrow> [b, v]
             | _ \<Rightarrow> map di_metric (case cr_inputs c of None \<Rightarrow> [] | Some is \<Rightarrow> is))))"

definition SOURCE_BOUND_KINDS :: "binding_kind list" where
  "SOURCE_BOUND_KINDS = filter (\<lambda>k. ks_source_bound (spec_for k)) all_kinds"

definition COMPOSITE_KINDS :: "binding_kind list" where
  "COMPOSITE_KINDS = filter (\<lambda>k. ks_composite (spec_for k)) all_kinds"

definition RECOMPUTE_KINDS :: "binding_kind list" where
  "RECOMPUTE_KINDS = filter (\<lambda>k. ks_recompute (spec_for k)) all_kinds"

definition DESCRIBABLE_KINDS :: "binding_kind list" where
  "DESCRIBABLE_KINDS = filter (\<lambda>k. ks_describable (spec_for k)) all_kinds"

section \<open>Metric bindings, guardrails and assertions\<close>

record deprecated_alternative =
  da_source :: string
  da_ref :: string
  da_reason :: string

record example_query =
  eq_metrics :: "string list"
  eq_dimensions :: "string list"
  eq_filters :: "string list"

record example =
  ex_query :: example_query
  ex_origin :: string
  ex_frequency :: "int option"

fun origin_kind_value :: "example_origin_kind \<Rightarrow> string" where
  "origin_kind_value EO_ASSERTION = ''assertion''"
| "origin_kind_value EO_OBSERVED_QUERY = ''observed_query''"
| "origin_kind_value EO_USAGE_EVIDENCE = ''usage_evidence''"

definition make_origin :: "example_origin_kind \<Rightarrow> string option \<Rightarrow> string" where
  "make_origin k ref =
     (if k = EO_OBSERVED_QUERY then origin_kind_value k
      else (case ref of
          None \<Rightarrow> origin_kind_value k
        | Some r \<Rightarrow> if r = [] then origin_kind_value k else origin_kind_value k @ '':'' @ r))"

definition origin_kind :: "string \<Rightarrow> example_origin_kind res" where
  "origin_kind origin =
     (let raw = hd (split_on CHR '':'' origin)
      in case find (\<lambda>k. origin_kind_value k = raw) [EO_ASSERTION, EO_OBSERVED_QUERY, EO_USAGE_EVIDENCE] of
           None \<Rightarrow> Inl ValueError | Some k \<Rightarrow> Inr k)"

record metric_binding =
  mb_metric :: string
  mb_owner :: "string option"
  mb_canonical :: canonical_ref
  mb_provenance :: provenance
  mb_label :: "string option"
  mb_aliases :: "string list"
  mb_deprecated :: "deprecated_alternative list"
  mb_examples :: "example list"
  mb_status :: status
  mb_knowledge_refs :: "string list"
  mb_pack_source :: "pack_source_meta option"

definition validate_aliases :: "metric_binding \<Rightarrow> unit res" where
  "validate_aliases b =
     (case find (\<lambda>ia. snd ia = mb_metric b) (enumerate_list (mb_aliases b)) of
        None \<Rightarrow> Inr ()
      | Some ia \<Rightarrow> Inl (ContractValidationError [PKey ''aliases'', PIdx (fst ia)]))"

record applies_to =
  at_source :: "string option"
  at_measure :: "string option"
  at_metric :: "string option"

definition validate_applies_to :: "applies_to \<Rightarrow> unit res" where
  "validate_applies_to a = checks [((at_source a \<noteq> None) = (at_metric a \<noteq> None), cve ''applies_to'')]"

definition validate_restrict_to :: "string \<Rightarrow> unit res" where
  "validate_restrict_to role = checks [(role \<notin> {''final'', ''provisional''}, cve ''role'')]"

record guardrail =
  gr_id :: string
  gr_applies_to :: applies_to
  gr_kind :: guardrail_kind
  gr_filter :: "string option"
  gr_restrict_to :: "string option"
  gr_level :: "string option"
  gr_dimension :: "string option"
  gr_context :: "string option"
  gr_severity :: severity
  gr_rationale :: string
  gr_knowledge_refs :: "string list"
  gr_provenance :: provenance

text \<open>\<^verbatim>\<open>not s\<close> for an optional string.\<close>

abbreviation blank :: "string option \<Rightarrow> bool" where
  "blank s \<equiv> empty_opt s"

definition validate_guardrail :: "guardrail \<Rightarrow> unit res" where
  "validate_guardrail g =
     checks
       [(gr_kind g = MANDATORY_FILTER \<and> blank (gr_filter g), cve ''filter''),
        (gr_kind g = REQUIRED_DIMENSION \<and> blank (gr_dimension g), cve ''dimension''),
        (gr_kind g = RESTRICT_SOURCE \<and> gr_restrict_to g = None, cve ''restrict_to''),
        (gr_kind g = RESTRICT_SOURCE \<and> blank (gr_context g), cve ''context''),
        (gr_kind g = MIN_TRUST \<and> (case gr_level g of None \<Rightarrow> True | Some l \<Rightarrow> tier_of_value l = None), cve ''level''),
        (gr_kind g = MIN_TRUST \<and> blank (gr_context g), cve ''context'')]"

text \<open>The metric names an assertion's query requests, and whether it is in executable form.\<close>

record assertion =
  as_id :: string
  as_metrics :: "string list"
  as_executable :: bool

record realization =
  rz_source :: string
  rz_role :: string
  rz_watermark :: "string option"
  rz_tz :: "string option"

record finality_rule =
  fr_metric :: string
  fr_realizations :: "realization list"
  fr_coalescing :: "string option"
  fr_result_flag :: "string option"
  fr_board_only_final :: bool

section \<open>Policies\<close>

record scoped_source =
  sc_source :: string
  sc_column :: string

record tenancy_policy =
  tp_claim :: string
  tp_on_missing :: on_missing_principal
  tp_scoped :: "scoped_source list"
  tp_shared :: "string list"
  tp_undeclared :: undeclared_source

definition validate_no_overlap :: "tenancy_policy \<Rightarrow> unit res" where
  "validate_no_overlap p =
     checks [(\<exists>s\<in>set (tp_scoped p). sc_source s \<in> set (tp_shared p), cve ''shared_sources'')]"

record allow_deny_policy =
  ad_allow :: "string list option"
  ad_deny :: "string list"

record masking_rule =
  mr_column :: string
  mr_strategy :: mask_strategy

text \<open>
  A role definition keeps which fields were authored (\<^verbatim>\<open>model_fields_set\<close>): a field left at its
  default is \<open>None\<close>.
\<close>

record role_def =
  rd_inherits :: "string option"
  rd_metrics :: "allow_deny_policy option"
  rd_dimensions :: "allow_deny_policy option"
  rd_knowledge :: "string list option"
  rd_run_sql :: "bool option"
  rd_tenancy_exempt :: "bool option"
  rd_masking :: "masking_rule list option"

record role_policy =
  rp_claim :: string
  rp_default_role :: "string option"
  rp_roles :: "(string, role_def) dict"

text \<open>The \<^verbatim>\<open>while\<close> loop that follows one role's \<^verbatim>\<open>inherits\<close> chain.\<close>

function check_chain :: "(string, role_def) dict \<Rightarrow> string \<Rightarrow> string set \<Rightarrow> string option \<Rightarrow> unit res" where
  "check_chain roles name seen None = Inr ()"
| "check_chain roles name seen (Some c) =
     (case map_of roles c of
        None \<Rightarrow> Inl (ContractValidationError [PKey ''roles'', PKey name, PKey ''inherits''])
      | Some r \<Rightarrow>
          if c \<in> seen then Inl (ContractValidationError [PKey ''roles'', PKey name, PKey ''inherits''])
          else check_chain roles name (insert c seen) (rd_inherits r))"
  by pat_completeness auto

termination
proof (relation "inv_image finite_psubset (\<lambda>(roles, name, seen, c). fst ` set roles - seen)", goal_cases)
  case 1
  show ?case by auto
next
  case (2 roles name seen c r)
  have "c \<in> fst ` set roles" using map_of_SomeD [OF 2(1)] by force
  with 2 show ?case by (auto simp: finite_psubset_def)
qed

definition validate_roles :: "role_policy \<Rightarrow> unit res" where
  "validate_roles p =
     rbind (checks [(case rp_default_role p of None \<Rightarrow> False | Some d \<Rightarrow> map_of (rp_roles p) d = None,
                     cve ''default_role'')]) (\<lambda>_.
       rfor (\<lambda>nr. check_chain (rp_roles p) (fst nr) {fst nr} (rd_inherits (snd nr))) (rp_roles p))"

section \<open>What a validated reference guarantees\<close>

lemma rbind_unit: "rbind m (\<lambda>_. k) = Inr () \<longleftrightarrow> m = Inr () \<and> k = Inr ()" for m :: "exn + unit"
  by (cases m) auto

lemma validate_shape_parts:
  "validate_shape dn c = Inr () \<longleftrightarrow>
    validate_required dn c = Inr () \<and> validate_kind_fields c = Inr () \<and> validate_frame c = Inr () \<and>
    validate_numerator_parts c = Inr ()"
  unfolding validate_shape_def rbind_unit by simp

lemma empty_opt_iff: "empty_opt x \<longleftrightarrow> x = None \<or> x = Some []"
  by (cases x) (simp_all add: empty_opt_def)

lemma if_Inl_ok: "(if b then Inl e else r) = Inr () \<longleftrightarrow> \<not> b \<and> r = Inr ()"
  by simp

lemma required_ok:
  assumes "validate_required dn c = Inr ()"
  shows "cr_kind c \<in> {SINGLE, SEMI_ADDITIVE_KIND, OPAQUE, CUMULATIVE} \<Longrightarrow> cr_source c \<noteq> None \<and> cr_measure c \<noteq> None"
    "cr_kind c \<in> {DISTINCT_COUNT, PERCENTILE} \<Longrightarrow> cr_source c \<noteq> None"
    "cr_kind c = RATIO \<Longrightarrow> cr_numerator c \<noteq> None \<and> cr_denominator c \<noteq> None"
    "cr_kind c = WEIGHTED_AVG \<Longrightarrow> cr_weighted_sum c \<noteq> None \<and> cr_weight c \<noteq> None"
    "cr_kind c = SEMI_ADDITIVE_KIND \<Longrightarrow> cr_collapse_dimension c \<noteq> None \<and> cr_collapse_agg c \<noteq> None"
    "cr_kind c = DISTINCT_COUNT \<Longrightarrow> cr_distinct_on c \<noteq> None"
    "cr_kind c = PERCENTILE \<Longrightarrow> cr_column c \<noteq> None \<and> (\<exists>q. cr_quantile c = Some q \<and> 0 < q \<and> q < 1)"
    "cr_kind c = OPAQUE \<Longrightarrow> \<not> empty_opt (cr_native_grain c)"
    "cr_kind c = CUMULATIVE \<Longrightarrow> \<exists>os. cr_order_by c = Some os \<and> os \<noteq> [] \<and> distinct os"
    "cr_kind c = OFFSET \<Longrightarrow> cr_base c \<noteq> None \<and> cr_time_dimension c \<noteq> None \<and> (\<exists>d. cr_offset c = Some d \<and> rank DAY \<le> rank (du_unit d))"
    "cr_kind c = DERIVED \<Longrightarrow> cr_expr c \<noteq> None \<and> (\<exists>is. cr_inputs c = Some is \<and> is \<noteq> [] \<and> distinct (map di_name is))"
    "cr_kind c = CONVERSION \<Longrightarrow> cr_base_metric c \<noteq> None \<and> cr_conversion_metric c \<noteq> None \<and> cr_entity c \<noteq> None \<and>
      cr_base_time c \<noteq> None \<and> cr_conversion_time c \<noteq> None \<and> cr_population_filter c = None"
  using assms
  by (auto simp: validate_required_def Let_def if_Inl_ok empty_opt_iff validate_offset_def validate_conversion_def
      validate_derived_def has_dup_def not_less split: option.splits if_splits)

lemma kind_fields_ok:
  assumes "validate_kind_fields c = Inr ()"
  shows "cr_kind c \<noteq> OFFSET \<Longrightarrow> cr_base c = None"
    "cr_kind c \<noteq> DERIVED \<Longrightarrow> cr_inputs c = None"
    "cr_kind c \<noteq> CONVERSION \<Longrightarrow> cr_base_metric c = None \<and> cr_conversion_metric c = None"
  using assms unfolding validate_kind_fields_def Let_def checks_ok_iff by simp_all

section \<open>Inheritance chains\<close>

text \<open>A chain of \<^verbatim>\<open>inherits\<close> references that ends at a role without a parent.\<close>

inductive chain_ends :: "(string, role_def) dict \<Rightarrow> string \<Rightarrow> bool" for roles where
  chain_root: "map_of roles n = Some r \<Longrightarrow> rd_inherits r = None \<Longrightarrow> chain_ends roles n"
| chain_step: "map_of roles n = Some r \<Longrightarrow> rd_inherits r = Some m \<Longrightarrow> chain_ends roles m \<Longrightarrow> chain_ends roles n"

inductive_cases chain_endsE: "chain_ends roles n"

lemma check_chain_ends:
  "check_chain roles name seen (Some c) = Inr () \<Longrightarrow> chain_ends roles c"
proof (induction roles name seen "Some c" arbitrary: c rule: check_chain.induct)
  case (2 roles name seen c)
  then obtain r where r: "map_of roles c = Some r" "c \<notin> seen"
    "check_chain roles name (insert c seen) (rd_inherits r) = Inr ()"
    by (auto split: option.splits if_splits)
  show ?case
  proof (cases "rd_inherits r")
    case None
    then show ?thesis using r(1) by (rule chain_root [rotated])
  next
    case (Some m)
    then have "chain_ends roles m" using 2(1) [OF r(1,2)] r(3) by simp
    then show ?thesis by (rule chain_step [OF r(1) Some])
  qed
qed

lemma validated_roles_end:
  assumes "validate_roles p = Inr ()" and "distinct (map fst (rp_roles p))" and "map_of (rp_roles p) n = Some r"
  shows "chain_ends (rp_roles p) n"
proof (cases "rd_inherits r")
  case None
  then show ?thesis using assms(3) by (rule chain_root [rotated])
next
  case (Some m)
  have "(n, r) \<in> set (rp_roles p)" by (rule map_of_SomeD [OF assms(3)])
  then have "check_chain (rp_roles p) n {n} (rd_inherits r) = Inr ()"
    using assms(1) unfolding validate_roles_def rbind_unit rfor_ok_iff by force
  then show ?thesis using Some check_chain_ends chain_step [OF assms(3) Some] by metis
qed

section \<open>Properties\<close>

text \<open>
  For a reference that passed its validators the kind decides what the metric reads. A
  source-bound kind names a source and the column its registry entry points at, and depends on
  no other metric; every other kind names at least one metric it is computed from. Cycle checks,
  trust and discovery rely on this when they walk \<^verbatim>\<open>dependency_names\<close>.
\<close>

theorem kind_decides_dependencies:
  assumes "validate_shape dn c = Inr ()"
  shows "if cr_kind c \<in> set SOURCE_BOUND_KINDS
    then dependency_names (spec_for (cr_kind c)) c = [] \<and> cr_source c \<noteq> None \<and>
      column_field (spec_for (cr_kind c)) c \<noteq> None
    else dependency_names (spec_for (cr_kind c)) c \<noteq> []"
proof -
  have r: "validate_required dn c = Inr ()" and k: "validate_kind_fields c = Inr ()"
    using assms validate_shape_parts by auto
  show ?thesis
    using required_ok [OF r] kind_fields_ok [OF k]
    by (cases "cr_kind c")
      (auto simp: SOURCE_BOUND_KINDS_def all_kinds_def dependency_names_def component_names_def
        column_field_def get_attr_def opt_list_def)
qed

definition plain_ref :: canonical_ref where
  "plain_ref = \<lparr>cr_kind = SINGLE, cr_source = None, cr_measure = None, cr_numerator = None, cr_denominator = None,
     cr_weighted_sum = None, cr_weight = None, cr_numerator_parts = None, cr_on_zero = ZD_NULL,
     cr_collapse_dimension = None, cr_collapse_agg = None, cr_distinct_on = None, cr_column = None,
     cr_quantile = None, cr_native_grain = None, cr_order_by = None, cr_on_gap = SKIP, cr_history = EXCLUDE,
     cr_window = None, cr_grain_to_date = None, cr_period_agg = PA_LAST, cr_base = None, cr_time_dimension = None,
     cr_offset = None, cr_expr = None, cr_inputs = None, cr_base_metric = None, cr_conversion_metric = None,
     cr_entity = None, cr_base_time = None, cr_conversion_time = None, cr_calculation = None,
     cr_constant_properties = None, cr_population_filter = None\<rparr>"

definition ratio_ref :: "string \<Rightarrow> string \<Rightarrow> canonical_ref" where
  "ratio_ref n d = plain_ref\<lparr>cr_kind := RATIO, cr_numerator := Some n, cr_denominator := Some d\<rparr>"

definition single_ref :: "string \<Rightarrow> string \<Rightarrow> canonical_ref" where
  "single_ref s m = plain_ref\<lparr>cr_source := Some s, cr_measure := Some m\<rparr>"

lemma kind_decides_dependencies_witness:
  "validate_shape (\<lambda>_. None) (ratio_ref ''a'' ''b'') = Inr () \<and>
   dependency_names (spec_for RATIO) (ratio_ref ''a'' ''b'') \<noteq> []"
proof -
  have v: "validate_shape (\<lambda>_. None) (ratio_ref ''a'' ''b'') = Inr ()" by code_simp
  have k: "cr_kind (ratio_ref ''a'' ''b'') = RATIO" by (simp add: ratio_ref_def)
  have n: "RATIO \<notin> set SOURCE_BOUND_KINDS" by code_simp
  show ?thesis using kind_decides_dependencies [OF v] v k n by simp
qed

end
