(* ===== verification/Principals.thy ===== *)
theory Principals
  imports Contract_Model
begin

text \<open>
  \<^verbatim>\<open>src/canonic/contracts/principal.py\<close>: tenant identifiers, their normalisation from a token
  claim, the caller's identity, and the flattened allow and deny surface the compiler consults.
\<close>

section \<open>Tenants\<close>

datatype tenant_value = TInt int | TStr string

text \<open>\<^verbatim>\<open>tenant_sort_key\<close>: numbers first, then strings.\<close>

fun tenant_sort_key :: "tenant_value \<Rightarrow> nat \<times> int \<times> string" where
  "tenant_sort_key (TInt n) = (0, n, [])"
| "tenant_sort_key (TStr s) = (1, 0, s)"

lemma tenant_sort_key_inj: "tenant_sort_key a = tenant_sort_key b \<Longrightarrow> a = b"
  by (cases a; cases b) simp_all

instantiation tenant_value :: linorder
begin

definition less_eq_tenant_value :: "tenant_value \<Rightarrow> tenant_value \<Rightarrow> bool" where
  "less_eq_tenant_value a b \<longleftrightarrow> tenant_sort_key a \<le> tenant_sort_key b"

definition less_tenant_value :: "tenant_value \<Rightarrow> tenant_value \<Rightarrow> bool" where
  "less_tenant_value a b \<longleftrightarrow> tenant_sort_key a < tenant_sort_key b"

instance
proof
  fix a b c :: tenant_value
  show "a < b \<longleftrightarrow> a \<le> b \<and> \<not> b \<le> a"
    unfolding less_eq_tenant_value_def less_tenant_value_def by (rule less_le_not_le)
  show "a \<le> a" by (simp add: less_eq_tenant_value_def)
  show "a \<le> b \<Longrightarrow> b \<le> c \<Longrightarrow> a \<le> c"
    unfolding less_eq_tenant_value_def by (rule order_trans)
  show "a \<le> b \<Longrightarrow> b \<le> a \<Longrightarrow> a = b"
    unfolding less_eq_tenant_value_def by (rule tenant_sort_key_inj) (rule antisym)
  show "a \<le> b \<or> b \<le> a" unfolding less_eq_tenant_value_def by (rule linear)
qed

end

text \<open>One element of a raw claim, and the claim itself.\<close>

datatype raw_value = RNone | RBool bool | RInt int | RFloat rat | RStr string | ROther

datatype raw_claim = Scalar raw_value | Items "raw_value list"

definition DEFAULT_MAX_TENANTS :: nat where
  "DEFAULT_MAX_TENANTS = 100"

definition tenant_unresolved :: exn where
  "tenant_unresolved = CanonicError TenantUnresolved [] []"

text \<open>\<^verbatim>\<open>_tenant_element\<close>\<close>

fun tenant_element :: "raw_value \<Rightarrow> tenant_value option res" where
  "tenant_element RNone = Inr None"
| "tenant_element (RBool b) = Inl tenant_unresolved"
| "tenant_element (RInt n) = Inr (Some (TInt n))"
| "tenant_element (RFloat q) = (if q \<in> \<int> then Inr (Some (TInt \<lfloor>q\<rfloor>)) else Inl tenant_unresolved)"
| "tenant_element (RStr s) = Inr (if strip s \<noteq> [] then Some (TStr s) else None)"
| "tenant_element ROther = Inl tenant_unresolved"

definition claim_items :: "raw_claim \<Rightarrow> raw_value list" where
  "claim_items c = (case c of Scalar v \<Rightarrow> [v] | Items vs \<Rightarrow> vs)"

fun present :: "'a option list \<Rightarrow> 'a list" where
  "present [] = []"
| "present (None # xs) = present xs"
| "present (Some x # xs) = x # present xs"

definition normalize_tenants :: "nat \<Rightarrow> raw_claim \<Rightarrow> tenant_value list res" where
  "normalize_tenants limit raw =
     rbind (rmap tenant_element (claim_items raw)) (\<lambda>vs.
       let values = sorted_set (present vs)
       in if limit < length values then Inl (CanonicError TenantLimitExceeded [] []) else Inr values)"

section \<open>Principals and policies\<close>

record principal =
  pr_tenants :: "tenant_value list"
  pr_roles :: "string list"
  pr_source :: string
  pr_system_exempt :: bool

datatype tenant_scope = NoTenant | OneTenant tenant_value | ManyTenants "tenant_value list"

definition tenant_scope :: "principal \<Rightarrow> tenant_scope" where
  "tenant_scope p =
     (case pr_tenants p of
        [] \<Rightarrow> NoTenant
      | [t] \<Rightarrow> OneTenant t
      | ts \<Rightarrow> ManyTenants ts)"

definition SYSTEM_PRINCIPAL :: principal where
  "SYSTEM_PRINCIPAL = \<lparr>pr_tenants = [], pr_roles = [], pr_source = ''system'', pr_system_exempt = True\<rparr>"

record effective_policy =
  ep_allow_metrics :: "string set"
  ep_deny_metrics :: "string set"
  ep_allow_dimensions :: "string set"
  ep_deny_dimensions :: "string set"
  ep_allow_tags :: "string set"
  ep_run_sql :: bool
  ep_tenancy_exempt :: bool
  ep_masking :: "masking_rule list"
  ep_roles :: "string list"

definition WILDCARD :: string where
  "WILDCARD = ''*''"

definition metric_allowed :: "effective_policy \<Rightarrow> string \<Rightarrow> bool" where
  "metric_allowed p name =
     (if name \<in> ep_deny_metrics p then False
      else WILDCARD \<in> ep_allow_metrics p \<or> name \<in> ep_allow_metrics p)"

definition dimension_allowed :: "effective_policy \<Rightarrow> string \<Rightarrow> bool" where
  "dimension_allowed p name =
     (let bare = after_last CHR ''.'' name
      in if name \<in> ep_deny_dimensions p \<or> bare \<in> ep_deny_dimensions p then False
         else WILDCARD \<in> ep_allow_dimensions p \<or> name \<in> ep_allow_dimensions p \<or>
              bare \<in> ep_allow_dimensions p)"

definition tag_allowed :: "effective_policy \<Rightarrow> string \<Rightarrow> bool" where
  "tag_allowed p tag \<longleftrightarrow> WILDCARD \<in> ep_allow_tags p \<or> tag \<in> ep_allow_tags p"

section \<open>Normalisation\<close>

lemma set_present: "set (present vs) = {x. Some x \<in> set vs}"
  by (induction vs rule: present.induct) auto

lemma tenant_element_Inl: "tenant_element r = Inl e \<Longrightarrow> e = tenant_unresolved"
  by (cases r) (auto split: if_splits)

definition identifiers :: "raw_claim \<Rightarrow> tenant_value set" where
  "identifiers c = {t. \<exists>r\<in>set (claim_items c). tenant_element r = Inr (Some t)}"

definition well_typed_claim :: "raw_claim \<Rightarrow> bool" where
  "well_typed_claim c \<longleftrightarrow> (\<forall>r\<in>set (claim_items c). is_ok (tenant_element r))"

lemma rmap_values:
  assumes "rmap f xs = Inr ys"
  shows "{x. Some x \<in> set ys} = {t. \<exists>r\<in>set xs. f r = Inr (Some t)}"
  using assms
proof (induction xs arbitrary: ys)
  case (Cons a xs)
  then obtain b bs where "f a = Inr b" "rmap f xs = Inr bs" "ys = b # bs"
    by (auto simp: rmap_Inr_Cons simp del: rmap.simps)
  then show ?case using Cons.IH by auto
qed simp

lemma rmap_all_ok: "rmap f xs = Inr ys \<Longrightarrow> x \<in> set xs \<Longrightarrow> is_ok (f x)"
proof (induction xs arbitrary: ys)
  case (Cons a xs)
  then show ?case by (cases "x = a") (auto simp: rmap_Inr_Cons simp del: rmap.simps)
qed simp

lemma normalize_eq:
  "normalize_tenants limit c =
    (if \<not> well_typed_claim c then Inl tenant_unresolved
     else if limit < card (identifiers c) then Inl (CanonicError TenantLimitExceeded [] [])
     else Inr (sorted_list_of_set (identifiers c)))"
proof (cases "rmap tenant_element (claim_items c)")
  case (Inl e)
  obtain r where r: "r \<in> set (claim_items c)" "tenant_element r = Inl e" using rmap_Inl [OF Inl] by blast
  then have "\<not> well_typed_claim c" unfolding well_typed_claim_def by (metis is_ok_simps(1))
  moreover have "e = tenant_unresolved" by (rule tenant_element_Inl [OF r(2)])
  ultimately show ?thesis using Inl by (simp add: normalize_tenants_def)
next
  case (Inr vs)
  have "well_typed_claim c"
    unfolding well_typed_claim_def by (rule ballI) (rule rmap_all_ok [OF Inr])
  moreover have s: "set (present vs) = identifiers c"
    using rmap_values [OF Inr] by (simp add: set_present identifiers_def)
  moreover have "finite (identifiers c)" unfolding s [symmetric] by simp
  then have "sorted_set (present vs) = sorted_list_of_set (identifiers c)"
    using s by (intro sorted_distinct_set_unique) simp_all
  ultimately show ?thesis
    using Inr distinct_card [OF distinct_sorted_set, of "present vs"]
    by (simp add: normalize_tenants_def Let_def)
qed

section \<open>Properties\<close>

text \<open>
  The tenants of a token depend only on which identifiers the claim carries. A claim with
  an element that cannot be an identifier is refused; otherwise the result is the sorted,
  duplicate-free list of its identifiers, refused when there are more than the limit. Order,
  repetition, nulls and blank strings make no difference, so equal tenant sets compile to equal
  SQL.
\<close>

theorem tenants_are_canonical:
  "normalize_tenants limit c =
    (if \<exists>r\<in>set (claim_items c). tenant_element r = Inl tenant_unresolved then Inl tenant_unresolved
     else if limit < card (identifiers c) then Inl (CanonicError TenantLimitExceeded [] [])
     else Inr (sorted_list_of_set (identifiers c)))"
proof -
  have "(\<exists>r\<in>set (claim_items c). tenant_element r = Inl tenant_unresolved) \<longleftrightarrow> \<not> well_typed_claim c"
    unfolding well_typed_claim_def is_ok_iff
    by (metis sum.exhaust_sel tenant_element_Inl Inl_Inr_False)
  then show ?thesis using normalize_eq [of limit c] by simp
qed

lemma tenants_are_canonical_witness:
  "normalize_tenants 100 (Items [RStr ''b'', RInt 2, RNone, RStr ''  '', RInt 2, RStr ''a'']) =
     Inr [TInt 2, TStr ''a'', TStr ''b''] \<and>
   identifiers (Items [RStr ''b'', RInt 2, RNone, RStr ''  '', RInt 2, RStr ''a'']) =
     {TInt 2, TStr ''a'', TStr ''b''}"
proof -
  let ?c = "Items [RStr ''b'', RInt 2, RNone, RStr ''  '', RInt 2, RStr ''a'']"
  have v: "normalize_tenants 100 ?c = Inr [TInt 2, TStr ''a'', TStr ''b'']" by code_simp
  have "finite (identifiers ?c)"
    by (rule finite_subset [of _ "(\<lambda>r. the (projr (tenant_element r))) ` set (claim_items ?c)"])
      (force simp: identifiers_def image_iff)+
  then have "set (sorted_list_of_set (identifiers ?c)) = identifiers ?c" by simp
  moreover have "sorted_list_of_set (identifiers ?c) = [TInt 2, TStr ''a'', TStr ''b'']"
    using tenants_are_canonical [of 100 ?c] v by (simp split: if_splits)
  ultimately show ?thesis using v by (metis list.set(1) list.set(2) set_simps(1))
qed

end
