(* ===== verification/Finality.thy ===== *)
theory Finality
  imports Contract_Model
begin

text \<open>
  \<^verbatim>\<open>src/canonic/contracts/finality.py\<close>: the watermark grammar, its evaluation on the business
  calendar, and the structural rules of a finality rule. The time-zone database is outside the
  repository: \<open>to_zone tz t\<close> gives the local wall-clock time of a UTC moment, or \<open>None\<close> for an
  unknown zone.
\<close>

section \<open>Watermarks\<close>

definition prev_business_day :: "date \<Rightarrow> date res" where
  "prev_business_day d =
     (if weekday d = 5 then add_days d (- 1)
      else if weekday d = 6 then add_days d (- 2)
      else Inr d)"

definition strip_prefix :: "string \<Rightarrow> string \<Rightarrow> string option" where
  "strip_prefix p s = (if take (length p) s = p then Some (drop (length p) s) else None)"

text \<open>
  \<^verbatim>\<open>_WATERMARK_RE\<close>, ignoring case: \<^verbatim>\<open>business_day\<close> and an optional signed number of days. A
  match gives the signed offset.
\<close>

definition watermark_tail :: "string \<Rightarrow> int option" where
  "watermark_tail r =
     (case lstrip r of
        [] \<Rightarrow> Some 0
      | c # t \<Rightarrow>
          (let u = lstrip t; ds = takeWhile is_digit u
           in if c \<notin> set ''+-'' \<or> ds = [] then None
              else (case strip_prefix ''day'' (lstrip (dropWhile is_digit u)) of
                  None \<Rightarrow> None
                | Some e \<Rightarrow>
                    (let rest = (if e \<noteq> [] \<and> hd e = CHR ''s'' then tl e else e)
                     in if list_all is_space rest
                        then Some ((if c = CHR ''+'' then 1 else - 1) * int (nat_of_digits ds))
                        else None))))"

definition match_watermark :: "string \<Rightarrow> int option" where
  "match_watermark expr =
     (case strip_prefix ''business_day'' (lstrip (str_lower expr)) of
        None \<Rightarrow> None
      | Some r \<Rightarrow> watermark_tail r)"

text \<open>The last second of a day.\<close>

definition end_of_day :: "date \<Rightarrow> datetime" where
  "end_of_day d = Datetime d 86399000000"

definition watermark_day :: "int \<Rightarrow> date \<Rightarrow> date res" where
  "watermark_day offset d =
     rbind (prev_business_day d) (\<lambda>b.
     rbind (add_days b offset) (\<lambda>t.
     prev_business_day t))"

definition evaluate_watermark :: "(string \<Rightarrow> datetime \<Rightarrow> datetime option) \<Rightarrow> string \<Rightarrow> string \<Rightarrow> datetime \<Rightarrow>
    datetime res" where
  "evaluate_watermark to_zone expr tz as_of =
     (case to_zone tz as_of of
        None \<Rightarrow> Inl ValueError
      | Some base \<Rightarrow>
          (case match_watermark expr of
             None \<Rightarrow> Inl ValueError
           | Some offset \<Rightarrow> map_sum id end_of_day (watermark_day offset (dt_date base))))"

section \<open>Finality rules\<close>

definition check_realization :: "string list option \<Rightarrow> realization \<Rightarrow> unit res" where
  "check_realization source_names r =
     checks [(rz_role r \<notin> {''final'', ''provisional''}, ValueError),
             (case source_names of None \<Rightarrow> False | Some ns \<Rightarrow> rz_source r \<notin> set ns, ValueError)]"

text \<open>\<^verbatim>\<open>role in rule.coalescing\<close>: the role occurs as a substring.\<close>

fun substring :: "string \<Rightarrow> string \<Rightarrow> bool" where
  "substring p [] = (p = [])"
| "substring p (c # s) = (take (length p) (c # s) = p \<or> substring p s)"

definition coalescing_ok :: "finality_rule \<Rightarrow> bool" where
  "coalescing_ok rule =
     (case fr_coalescing rule of
        None \<Rightarrow> True
      | Some text \<Rightarrow>
          (\<forall>role \<in> set [''final'', ''provisional''].
             substring role text \<longrightarrow> role \<in> set (map rz_role (fr_realizations rule))))"

definition validate_finality_rule :: "(string \<Rightarrow> bool) \<Rightarrow> string list option \<Rightarrow> finality_rule \<Rightarrow> unit res" where
  "validate_finality_rule known_zone source_names rule =
     rbind (rfor (check_realization source_names) (fr_realizations rule)) (\<lambda>_.
       (case filter (\<lambda>r. rz_role r = ''final'') (fr_realizations rule) of
          [final] \<Rightarrow>
            checks
              [(empty_opt (rz_watermark final), ValueError),
               (empty_opt (rz_tz final), ValueError),
               (case rz_tz final of None \<Rightarrow> True | Some z \<Rightarrow> \<not> known_zone z, ValueError),
               (case rz_watermark final of None \<Rightarrow> True | Some w \<Rightarrow> match_watermark w = None, ValueError),
               (\<not> coalescing_ok rule, ValueError)]
        | _ \<Rightarrow> Inl ValueError))"

section \<open>The business calendar\<close>

lemma mod7_pred: "n mod 7 = r \<Longrightarrow> 0 < r \<Longrightarrow> (n - 1) mod 7 = r - (1::int)"
proof -
  assume r: "n mod 7 = r" and "0 < r"
  have "r < 7" using r pos_mod_bound [of 7 n] by simp
  have "n - 1 = (r - 1) + 7 * (n div 7)"
    using mult_div_mod_eq [of 7 n] r by linarith
  then have "(n - 1) mod 7 = (r - 1) mod 7" by (simp only: mod_mult_self2)
  also have "\<dots> = r - 1" using \<open>0 < r\<close> \<open>r < 7\<close> by (intro mod_pos_pos_trivial) simp_all
  finally show ?thesis .
qed

lemma weekday_of_pred:
  assumes "toordinal e = toordinal d - 1" and "0 < weekday d"
  shows "weekday e = weekday d - 1"
  using mod7_pred [of "toordinal d + 6" "weekday d"] assms by (simp add: weekday_def)

lemma weekday_from_ordinal: "toordinal e = toordinal d \<Longrightarrow> weekday e = weekday d"
  by (simp add: weekday_def)

lemma weekend_not_first:
  assumes "valid_date d" and "5 \<le> weekday d"
  shows "2 < toordinal d"
proof (rule ccontr)
  assume "\<not> 2 < toordinal d"
  then have "toordinal d = 1 \<or> toordinal d = 2" using toordinal_range(1) [OF assms(1)] by linarith
  then show False using assms(2) by (auto simp: weekday_def)
qed

lemma add_days_exists:
  assumes "valid_date d" and "1 \<le> toordinal d + k" and "k \<le> 0"
  shows "\<exists>e. add_days d k = Inr e"
  using add_days_toordinal [OF assms(2)] toordinal_range(2) [OF assms(1)] assms(3) by auto

text \<open>Every date has a business day on or before it, and the function finds the latest one.\<close>

lemma prev_business_day_exists:
  assumes "valid_date d"
  shows "\<exists>b. prev_business_day d = Inr b"
proof (cases "5 \<le> weekday d")
  case True
  then have "2 < toordinal d" by (rule weekend_not_first [OF assms])
  then show ?thesis
    using add_days_exists [OF assms, of "- 1"] add_days_exists [OF assms, of "- 2"]
    by (auto simp: prev_business_day_def)
qed (simp add: prev_business_day_def)

lemma prev_business_day_spec:
  assumes "valid_date d" and "prev_business_day d = Inr b"
  shows "valid_date b" "b \<le> d" "weekday b \<le> 4"
    "valid_date e \<Longrightarrow> e \<le> d \<Longrightarrow> weekday e \<le> 4 \<Longrightarrow> e \<le> b"
proof -
  define k where "k = (if weekday d = 5 then 1 else if weekday d = 6 then 2 else (0::int))"
  have add0: "add_days d 0 = Inr d"
    using add_days_toordinal [of d 0] toordinal_range [OF assms(1)] fromordinal_toordinal [OF assms(1)] by simp
  have "add_days d (- k) = Inr b"
    using assms(2) add0 by (auto simp: prev_business_day_def k_def split: if_splits)
  note b = add_days_ok [OF this]
  show vb: "valid_date b" by (rule b(1))
  have t: "toordinal b = toordinal d - k" using b(2) by simp
  have k0: "0 \<le> k" by (simp add: k_def)
  show "b \<le> d" using t k0 toordinal_le_iff [OF vb assms(1)] by simp
  have wd: "weekday d \<le> 6" by (rule weekday_range)
  have sun: "weekday x = 5" if "weekday d = 6" "toordinal x = toordinal d - 1" for x
    using weekday_of_pred [OF that(2)] that(1) by simp
  have sat: "weekday x = 4" if "weekday y = 5" "toordinal x = toordinal y - 1" for x y
    using weekday_of_pred [OF that(2)] that(1) by simp
  show "weekday b \<le> 4"
  proof (cases "weekday d = 6")
    case True
    obtain x where x: "add_days d (- 1) = Inr x"
      using add_days_exists [OF assms(1), of "- 1"] weekend_not_first [OF assms(1)] True by auto
    have "weekday x = 5" using sun [OF True] add_days_ok(2) [OF x] by simp
    then show ?thesis using sat [of x b] t add_days_ok(2) [OF x] True by (simp add: k_def)
  next
    case False
    then show ?thesis
      using sat [of d b] t wd weekday_from_ordinal [of b d] by (cases "weekday d = 5") (auto simp: k_def)
  qed
  show "e \<le> b" if e: "valid_date e" "e \<le> d" "weekday e \<le> 4"
  proof -
    have le: "toordinal e \<le> toordinal d" using toordinal_le_iff [OF e(1) assms(1)] e(2) by simp
    have "toordinal e \<noteq> toordinal d" if "k \<noteq> 0"
      using weekday_from_ordinal [of e d] e(3) that by (auto simp: k_def split: if_splits)
    moreover have "toordinal e \<noteq> toordinal d - 1" if "k = 2"
      using sun [of e] e(3) that by (auto simp: k_def split: if_splits)
    ultimately have "toordinal e \<le> toordinal b"
      using le t k0 by (auto simp: k_def split: if_splits)
    then show ?thesis using toordinal_le_iff [OF e(1) vb] by simp
  qed
qed

lemma prev_business_day_mono:
  assumes "valid_date d" and "valid_date e" and "d \<le> e"
    and "prev_business_day d = Inr a" and "prev_business_day e = Inr b"
  shows "a \<le> b"
  using prev_business_day_spec [OF assms(1,4)] prev_business_day_spec(4) [OF assms(2,5), of a] assms(3) by simp

lemma watermark_day_ok:
  assumes "valid_date d" and "watermark_day k d = Inr w"
  obtains b t where "prev_business_day d = Inr b" "add_days b k = Inr t" "prev_business_day t = Inr w"
    "valid_date b" "valid_date t" "toordinal t = toordinal b + k"
proof -
  obtain b t where bt: "prev_business_day d = Inr b" "add_days b k = Inr t" "prev_business_day t = Inr w"
    using assms(2) by (auto simp: watermark_day_def rbind_Inr_iff)
  then show ?thesis
    using that prev_business_day_spec(1) [OF assms(1) bt(1)] add_days_ok [OF bt(2)] by blast
qed

lemma watermark_day_mono:
  assumes "valid_date d" and "valid_date e" and "d \<le> e" and "watermark_day k d = Inr v" and "watermark_day k e = Inr w"
  shows "v \<le> w"
proof -
  obtain a s where a: "prev_business_day d = Inr a" "add_days a k = Inr s" "prev_business_day s = Inr v"
    "valid_date a" "valid_date s" "toordinal s = toordinal a + k"
    by (rule watermark_day_ok [OF assms(1,4)])
  obtain b t where b: "prev_business_day e = Inr b" "add_days b k = Inr t" "prev_business_day t = Inr w"
    "valid_date b" "valid_date t" "toordinal t = toordinal b + k"
    by (rule watermark_day_ok [OF assms(2,5)])
  have "a \<le> b" by (rule prev_business_day_mono [OF assms(1,2,3) a(1) b(1)])
  then have "toordinal s \<le> toordinal t" using toordinal_le_iff [OF a(4) b(4)] a(6) b(6) by simp
  then have "s \<le> t" using toordinal_le_iff [OF a(5) b(5)] by simp
  then show ?thesis by (rule prev_business_day_mono [OF a(5) b(5) _ a(3) b(3)])
qed

section \<open>Properties\<close>

text \<open>
  An evaluated watermark is the last second of a business day. Without an offset it is the
  latest business day on or before the local date, and for one expression and zone it never moves
  backwards as the local date moves forwards.
\<close>

theorem watermark_is_business_day:
  assumes "to_zone tz as_of = Some base" and "valid_datetime base"
    and "evaluate_watermark to_zone expr tz as_of = Inr w"
  shows "\<exists>day off. match_watermark expr = Some off \<and> w = end_of_day day \<and> valid_date day \<and> weekday day \<le> 4 \<and>
    (off = 0 \<longrightarrow> day \<le> dt_date base \<and>
      (\<forall>e. valid_date e \<longrightarrow> e \<le> dt_date base \<longrightarrow> weekday e \<le> 4 \<longrightarrow> e \<le> day)) \<and>
    (\<forall>later base' w'. to_zone tz later = Some base' \<longrightarrow> valid_datetime base' \<longrightarrow>
      dt_date base \<le> dt_date base' \<longrightarrow> evaluate_watermark to_zone expr tz later = Inr w' \<longrightarrow> w \<le> w')"
proof -
  have d: "valid_date (dt_date base)" using assms(2) by (simp add: valid_datetime_def)
  obtain off day where m: "match_watermark expr = Some off" and wd: "watermark_day off (dt_date base) = Inr day"
    and w: "w = end_of_day day"
    using assms(1,3) by (cases "match_watermark expr"; cases "watermark_day (the (match_watermark expr)) (dt_date base)")
      (auto simp: evaluate_watermark_def)
  obtain b t where bt: "prev_business_day (dt_date base) = Inr b" "add_days b off = Inr t"
    "prev_business_day t = Inr day" "valid_date b" "valid_date t" "toordinal t = toordinal b + off"
    by (rule watermark_day_ok [OF d wd])
  have zero: "day \<le> dt_date base \<and> (\<forall>e. valid_date e \<longrightarrow> e \<le> dt_date base \<longrightarrow> weekday e \<le> 4 \<longrightarrow> e \<le> day)"
    if "off = 0"
  proof -
    have "t = b" using bt(4,5,6) that toordinal_inj by simp
    moreover have "day = b"
    proof (rule antisym)
      show "day \<le> b" using prev_business_day_spec(2) [OF bt(5,3)] \<open>t = b\<close> by simp
      show "b \<le> day"
        using prev_business_day_spec(4) [OF bt(5,3), of b] prev_business_day_spec(3) [OF d bt(1)] bt(4) \<open>t = b\<close>
        by simp
    qed
    ultimately show ?thesis using prev_business_day_spec [OF d bt(1)] by blast
  qed
  have mono: "w \<le> w'" if L: "to_zone tz later = Some base'" "valid_datetime base'" "dt_date base \<le> dt_date base'"
    "evaluate_watermark to_zone expr tz later = Inr w'" for later base' w'
  proof -
    obtain day' where "watermark_day off (dt_date base') = Inr day'" "w' = end_of_day day'"
      using L(1,4) m by (cases "watermark_day off (dt_date base')") (auto simp: evaluate_watermark_def)
    then show ?thesis
      using watermark_day_mono [OF d _ L(3) wd] L(2) w
      by (auto simp: valid_datetime_def end_of_day_def less_eq_datetime_def)
  qed
  show ?thesis
    using m w zero mono prev_business_day_spec(1,3) [OF bt(5,3)] by blast
qed

lemma watermark_is_business_day_witness:
  "evaluate_watermark (\<lambda>z t. Some t) ''business_day - 1 day'' ''UTC'' (midnight (Date 2026 10 19)) =
     Inr (end_of_day (Date 2026 10 16)) \<and> weekday (Date 2026 10 16) \<le> 4"
proof -
  have e: "evaluate_watermark (\<lambda>z t. Some t) ''business_day - 1 day'' ''UTC'' (midnight (Date 2026 10 19)) =
     Inr (end_of_day (Date 2026 10 16))" by code_simp
  have v: "valid_datetime (midnight (Date 2026 10 19))" by code_simp
  show ?thesis
    using watermark_is_business_day [OF _ v e] e by (auto simp: end_of_day_def)
qed


definition sample_rule :: finality_rule where
  "sample_rule = \<lparr>fr_metric = ''revenue'',
     fr_realizations = [\<lparr>rz_source = ''ledger'', rz_role = ''final'', rz_watermark = Some ''business_day - 1 day'',
                          rz_tz = Some ''UTC''\<rparr>],
     fr_coalescing = None, fr_result_flag = None, fr_board_only_final = False\<rparr>"


end
