(* ===== verification/Resolver.thy ===== *)
theory Resolver
  imports Principals "HOL-Library.Multiset"
begin

text \<open>
  \<^verbatim>\<open>src/canonic/contracts/resolver.py\<close>: the indices built from a project's contracts, metric
  resolution with its cycle guard, the guardrail queries, tenant scoping and the flattening of a
  principal's roles. A binding object keeps its identity as its position in load order, because
  \<^verbatim>\<open>active_bindings\<close> deduplicates by identity.
\<close>

section \<open>Resolved bindings\<close>

datatype resolved =
  Resolved (rb_metric: string) (rb_source: "string option") (rb_measure: "string option")
    (rb_binding: metric_binding) (rb_kind: binding_kind) (rb_part: part)
and part =
    NoPart
  | Components resolved resolved on_zero_denominator
  | SemiAdditive string collapse_agg
  | RecomputeAtGrain binding_kind "string option" "string option" "rat option"
  | Opaque "string list"
  | Cumulative "string list" on_gap history "duration option" "duration_unit option" period_agg
  | Offset resolved string duration
  | Derived string "(string \<times> resolved) list" on_zero_denominator
  | Conversion resolved resolved "string \<times> string" string string "duration option"
      conversion_calculation "(string \<times> string) list" on_zero_denominator

datatype resolution = RBinding resolved | RAmbiguous string "metric_binding list" | RUnresolved string

fun dependencies :: "resolved \<Rightarrow> resolved list" where
  "dependencies r =
     (case rb_part r of
        Components n d _ \<Rightarrow> [n, d]
      | Offset b _ _ \<Rightarrow> [b]
      | Derived _ inputs _ \<Rightarrow> map snd inputs
      | Conversion b c _ _ _ _ _ _ _ \<Rightarrow> [b, c]
      | _ \<Rightarrow> [])"

declare dependencies.simps [simp del]

lemma dependencies_size: "d \<in> set (dependencies r) \<Longrightarrow> size d < size r"
proof (cases r)
  case (Resolved m s e b k p)
  assume d: "d \<in> set (dependencies r)"
  have in_list: "(n, x) \<in> set inputs \<Longrightarrow> size x < Suc (size_list (size_prod (\<lambda>_. 0) size) inputs)"
    for n :: string and x :: resolved and inputs
    using size_list_estimation' [of "(n, x)" inputs "size x" "size_prod (\<lambda>_. 0) size"] by simp
  show ?thesis
    using d in_list by (cases p) (auto simp: Resolved dependencies.simps less_Suc_eq_le intro: le_SucI)
qed

function leaves :: "resolved \<Rightarrow> resolved list" where
  "leaves r = (if dependencies r = [] then [r] else concat (map leaves (dependencies r)))"
  by pat_completeness auto

termination by (relation "measure size") (auto simp: dependencies_size)

declare leaves.simps [simp del]

text \<open>The leaves a requested dimension groups: the conversion side of a conversion is left out.\<close>

function grouped_leaves :: "resolved \<Rightarrow> resolved list" where
  "grouped_leaves r =
     (case rb_part r of
        Conversion b c _ _ _ _ _ _ _ \<Rightarrow> grouped_leaves b
      | _ \<Rightarrow> if dependencies r = [] then [r] else concat (map grouped_leaves (dependencies r)))"
  by pat_completeness auto

termination
proof (relation "measure size", goal_cases)
  case 1
  show ?case by simp
qed (auto simp: dependencies_size dependencies.simps split: part.splits
      intro: dependencies_size)

declare grouped_leaves.simps [simp del]

fun unit_text :: "duration_unit option \<Rightarrow> string" where
  "unit_text None = []"
| "unit_text (Some u) = '', to_date='' @ unit_value u"

fun window_text :: "duration option \<Rightarrow> string" where
  "window_text None = []"
| "window_text (Some d) = '', window='' @ str_duration d"

fun period_agg_value :: "period_agg \<Rightarrow> string" where
  "period_agg_value PA_FIRST = ''first''"
| "period_agg_value PA_LAST = ''last''"
| "period_agg_value PA_AVERAGE = ''average''"

definition frame_key :: "duration option \<Rightarrow> duration_unit option \<Rightarrow> period_agg \<Rightarrow> string" where
  "frame_key window grain_to_date agg =
     window_text window @ unit_text grain_to_date @
     (if agg \<noteq> PA_LAST then '', period_agg='' @ period_agg_value agg else [])"

fun calculation_value :: "conversion_calculation \<Rightarrow> string" where
  "calculation_value CONVERSION_RATE = ''conversion_rate''"
| "calculation_value CONVERSIONS = ''conversions''"

text \<open>\<^verbatim>\<open>self.base.resolved_key or self.base.metric\<close>\<close>

definition key_or :: "string option \<Rightarrow> string \<Rightarrow> string" where
  "key_or k m = (case k of None \<Rightarrow> m | Some s \<Rightarrow> if s = [] then m else s)"

fun resolved_key :: "resolved \<Rightarrow> string option" where
  "resolved_key (Resolved m src mea b k (Components n d z)) =
     Some ((if k = WEIGHTED_AVG then ''weighted_avg'' else ''ratio'') @ ''('' @ rb_metric n @ '', '' @ rb_metric d @ '')'')"
| "resolved_key (Resolved m src mea b k (Offset base td off)) =
     Some (''offset('' @ key_or (resolved_key base) (rb_metric base) @ '', '' @ td @ '', '' @ str_duration off @ '')'')"
| "resolved_key (Resolved m src mea b k (Derived e is z)) = Some (''derived('' @ e @ '')'')"
| "resolved_key (Resolved m src mea b k (Conversion base conv ent bt ct w calc props z)) =
     Some (''conversion('' @ key_or (resolved_key base) (rb_metric base) @ '', '' @
       key_or (resolved_key conv) (rb_metric conv) @ '', '' @ calculation_value calc @ window_text w @ '')'')"
| "resolved_key (Resolved m src mea b k p) =
     (case (src, mea) of
        (Some s, Some e) \<Rightarrow>
          (if k = OPAQUE then Some (''opaque('' @ s @ ''.'' @ e @ '')'')
           else if k = CUMULATIVE then
             Some (''cumulative('' @ s @ ''.'' @ e @
               (case p of Cumulative _ _ _ w g a \<Rightarrow> frame_key w g a | _ \<Rightarrow> []) @ '')'')
           else Some (s @ ''.'' @ e))
      | _ \<Rightarrow> None)"

section \<open>Indices\<close>

type_synonym indexed = "nat \<times> metric_binding"
type_synonym name_index = "(string, indexed list) dict"

record resolver =
  rs_guardrails :: "guardrail list"
  rs_finality :: "(string, finality_rule) dict"
  rs_assertions :: "assertion list"
  rs_tenancy :: "tenancy_policy option"
  rs_roles :: "role_policy option"
  rs_scoped :: "(string, scoped_source) dict"
  rs_shared :: "string list"
  rs_name_index :: name_index
  rs_metric_to_canonical :: "(string, canonical_ref) dict"
  rs_source_to_metrics :: "(string, string list) dict"

definition active :: "indexed list \<Rightarrow> indexed list" where
  "active = filter (\<lambda>ib. mb_status (snd ib) = ACTIVE)"

definition index_names :: "indexed \<Rightarrow> name_index \<Rightarrow> name_index" where
  "index_names ib idx = fold (\<lambda>n. dict_append n ib) (mb_metric (snd ib) # mb_aliases (snd ib)) idx"

definition build_name_index :: "metric_binding list \<Rightarrow> name_index" where
  "build_name_index bs = fold index_names (active (enumerate_list bs)) []"

definition source_bound :: "metric_binding \<Rightarrow> bool" where
  "source_bound b \<longleftrightarrow> cr_kind (mb_canonical b) \<in> set SOURCE_BOUND_KINDS"

definition build_metric_to_canonical :: "metric_binding list \<Rightarrow> (string, canonical_ref) dict" where
  "build_metric_to_canonical bs =
     dict_of (map (\<lambda>b. (mb_metric b, mb_canonical b))
       (filter (\<lambda>b. mb_status b = ACTIVE \<and> source_bound b) bs))"

definition build_source_to_metrics :: "metric_binding list \<Rightarrow> (string, string list) dict" where
  "build_source_to_metrics bs =
     map (\<lambda>(s, ms). (s, sort ms))
       (fold (\<lambda>b d. case cr_source (mb_canonical b) of
            None \<Rightarrow> d | Some s \<Rightarrow> if s = [] then d else dict_append s (mb_metric b) d)
          (filter (\<lambda>b. mb_status b = ACTIVE \<and> source_bound b) bs) [])"

text \<open>\<^verbatim>\<open>ContractResolver.__init__\<close>\<close>

definition mk_resolver :: "metric_binding list \<Rightarrow> guardrail list \<Rightarrow> finality_rule list \<Rightarrow> assertion list \<Rightarrow>
    tenancy_policy option \<Rightarrow> role_policy option \<Rightarrow> resolver" where
  "mk_resolver bs gs fin asserts ten rol =
     \<lparr>rs_guardrails = gs,
      rs_finality = dict_of (map (\<lambda>r. (fr_metric r, r)) fin),
      rs_assertions = asserts,
      rs_tenancy = ten,
      rs_roles = rol,
      rs_scoped = (case ten of None \<Rightarrow> [] | Some t \<Rightarrow> dict_of (map (\<lambda>s. (sc_source s, s)) (tp_scoped t))),
      rs_shared = (case ten of None \<Rightarrow> [] | Some t \<Rightarrow> tp_shared t),
      rs_name_index = build_name_index bs,
      rs_metric_to_canonical = build_metric_to_canonical bs,
      rs_source_to_metrics = build_source_to_metrics bs\<rparr>"

definition schema_binding :: "semantic_source \<Rightarrow> measure \<Rightarrow> metric_binding" where
  "schema_binding s me =
     \<lparr>mb_metric = me_name me, mb_owner = None, mb_canonical = single_ref (ss_name s) (me_name me),
      mb_provenance = INFERRED, mb_label = None, mb_aliases = [], mb_deprecated = [], mb_examples = [],
      mb_status = ACTIVE, mb_knowledge_refs = [], mb_pack_source = None\<rparr>"

definition schema_only :: "semantic_source list \<Rightarrow> resolver" where
  "schema_only sources =
     mk_resolver (concat (map (\<lambda>s. map (schema_binding s) (ss_measures s)) sources)) [] [] [] None None"

definition metrics_for_source :: "resolver \<Rightarrow> string \<Rightarrow> string list" where
  "metrics_for_source r s = get_list (rs_source_to_metrics r) s"

definition bindings_for :: "resolver \<Rightarrow> string \<Rightarrow> metric_binding list" where
  "bindings_for r name = map snd (get_list (rs_name_index r) name)"

fun first_seen :: "nat set \<Rightarrow> indexed list \<Rightarrow> metric_binding list" where
  "first_seen seen [] = []"
| "first_seen seen ((i, b) # xs) =
     (if mb_status b \<noteq> ACTIVE then first_seen seen xs
      else if i \<in> seen then first_seen seen xs
      else b # first_seen (insert i seen) xs)"

definition active_bindings :: "resolver \<Rightarrow> metric_binding list" where
  "active_bindings r = first_seen {} (concat (map snd (rs_name_index r)))"

section \<open>Resolution\<close>

definition candidates :: "indexed list \<Rightarrow> metric_binding list" where
  "candidates ms = sort_key (\<lambda>b. (mb_metric b, mb_aliases b)) (map snd ms)"

text \<open>Continue with a resolved component, or return the failed resolution as it is.\<close>

definition with_binding :: "resolution res \<Rightarrow> (resolved \<Rightarrow> resolution res) \<Rightarrow> resolution res" where
  "with_binding r k = (case r of Inr (RBinding b) \<Rightarrow> k b | _ \<Rightarrow> r)"

fun resolve_inputs :: "(string \<Rightarrow> resolution res) \<Rightarrow> derived_input list \<Rightarrow> (string \<times> resolved) list \<Rightarrow>
    ((string \<times> resolved) list \<Rightarrow> resolution res) \<Rightarrow> resolution res" where
  "resolve_inputs subm [] acc k = k acc"
| "resolve_inputs subm (i # is) acc k =
     with_binding (subm (di_metric i)) (\<lambda>r. resolve_inputs subm is (acc @ [(di_name i, r)]) k)"

definition composite :: "metric_binding \<Rightarrow> part \<Rightarrow> resolved" where
  "composite b p = Resolved (mb_metric b) None None b (cr_kind (mb_canonical b)) p"

definition leaf :: "metric_binding \<Rightarrow> string option \<Rightarrow> part \<Rightarrow> resolved" where
  "leaf b me p = Resolved (mb_metric b) (cr_source (mb_canonical b)) me b (cr_kind (mb_canonical b)) p"

definition pair_of :: "conversion_pair \<Rightarrow> string \<times> string" where
  "pair_of p = (cp_base p, cp_conversion p)"

definition resolve_conversion :: "(string \<Rightarrow> resolution res) \<Rightarrow> metric_binding \<Rightarrow> resolution res" where
  "resolve_conversion subm b =
     (let c = mb_canonical b
      in case (cr_base_metric c, cr_conversion_metric c, cr_entity c, cr_base_time c, cr_conversion_time c) of
           (Some bm, Some cm, Some ent, Some bt, Some ct) \<Rightarrow>
             with_binding (subm bm) (\<lambda>base.
             with_binding (subm cm) (\<lambda>conv.
               Inr (RBinding (composite b (Conversion base conv (pair_of ent) bt ct (cr_window c)
                 (case cr_calculation c of None \<Rightarrow> CONVERSION_RATE | Some x \<Rightarrow> x)
                 (map pair_of (case cr_constant_properties c of None \<Rightarrow> [] | Some ps \<Rightarrow> ps))
                 (cr_on_zero c))))))
         | _ \<Rightarrow> Inl AssertionError)"

definition resolve_binding :: "(string \<Rightarrow> resolution res) \<Rightarrow> metric_binding \<Rightarrow> resolution res" where
  "resolve_binding subm b =
     (let c = mb_canonical b
      in case cr_kind c of
           SINGLE \<Rightarrow> Inr (RBinding (leaf b (cr_measure c) NoPart))
         | SEMI_ADDITIVE_KIND \<Rightarrow>
             (case (cr_source c, cr_measure c, cr_collapse_dimension c, cr_collapse_agg c) of
                (Some _, Some _, Some cd, Some ca) \<Rightarrow> Inr (RBinding (leaf b (cr_measure c) (SemiAdditive cd ca)))
              | _ \<Rightarrow> Inl AssertionError)
         | CUMULATIVE \<Rightarrow>
             (if cr_source c = None \<or> cr_measure c = None \<or> empty_opt (cr_order_by c) then Inl AssertionError
              else Inr (RBinding (leaf b (cr_measure c) (Cumulative (the (cr_order_by c)) (cr_on_gap c)
                (cr_history c) (cr_window c) (cr_grain_to_date c) (cr_period_agg c)))))
         | OPAQUE \<Rightarrow>
             (case (cr_source c, cr_measure c, cr_native_grain c) of
                (Some _, Some _, Some g) \<Rightarrow> Inr (RBinding (leaf b (cr_measure c) (Opaque g)))
              | _ \<Rightarrow> Inl AssertionError)
         | OFFSET \<Rightarrow>
             (case (cr_base c, cr_time_dimension c, cr_offset c) of
                (Some base, Some td, Some off) \<Rightarrow>
                  with_binding (subm base) (\<lambda>r. Inr (RBinding (composite b (Offset r td off))))
              | _ \<Rightarrow> Inl AssertionError)
         | DERIVED \<Rightarrow>
             (case cr_expr c of
                None \<Rightarrow> Inl AssertionError
              | Some e \<Rightarrow>
                  (if empty_opt (cr_inputs c) then Inl AssertionError
                   else resolve_inputs subm (the (cr_inputs c)) [] (\<lambda>is.
                     Inr (RBinding (composite b (Derived e is (cr_on_zero c)))))))
         | CONVERSION \<Rightarrow> resolve_conversion subm b
         | k \<Rightarrow>
             (if k \<in> set RECOMPUTE_KINDS then
                (if cr_source c = None then Inl AssertionError
                 else Inr (RBinding (leaf b None
                   (RecomputeAtGrain k (cr_distinct_on c) (cr_column c) (cr_quantile c)))))
              else
                (case component_names (spec_for k) c of
                   (Some num, Some den) \<Rightarrow>
                     with_binding (subm num) (\<lambda>n.
                     with_binding (subm den) (\<lambda>d.
                       Inr (RBinding (composite b (Components n d (cr_on_zero c))))))
                 | _ \<Rightarrow> Inl AssertionError)))"

lemma get_list_key: "get_list idx name \<noteq> [] \<Longrightarrow> name \<in> fst ` set idx"
  by (auto simp: get_list_def split: option.splits dest!: map_of_SomeD) force

function resolve_component :: "name_index \<Rightarrow> string set \<Rightarrow> string \<Rightarrow> resolution res" where
  "resolve_component idx seen name =
     (if name \<in> seen then Inr (RUnresolved name)
      else (case get_list idx name of
          [] \<Rightarrow> Inr (RUnresolved name)
        | [ib] \<Rightarrow> resolve_binding (\<lambda>n. resolve_component idx (insert name seen) n) (snd ib)
        | ms \<Rightarrow> Inr (RAmbiguous name (candidates ms))))"
  by pat_completeness auto

termination
proof (relation "inv_image finite_psubset (\<lambda>(idx, seen, name). fst ` set idx - seen)", goal_cases)
  case 1
  show ?case by auto
next
  case (2 idx seen name ib n)
  then have "name \<in> fst ` set idx" using get_list_key [of idx name] by simp
  with 2 show ?case by (auto simp: finite_psubset_def)
qed

declare resolve_component.simps [simp del]

text \<open>\<^verbatim>\<open>resolve_metric\<close>: the first lookup runs with an empty chain.\<close>

definition resolve_metric :: "resolver \<Rightarrow> string \<Rightarrow> resolution res" where
  "resolve_metric r name =
     (case get_list (rs_name_index r) name of
        [] \<Rightarrow> Inr (RUnresolved name)
      | [ib] \<Rightarrow> resolve_binding (resolve_component (rs_name_index r) {name}) (snd ib)
      | ms \<Rightarrow> Inr (RAmbiguous name (candidates ms)))"

section \<open>Guardrails, finality and assertions\<close>

definition guardrail_applies :: "resolver \<Rightarrow> guardrail \<Rightarrow> string \<Rightarrow> string \<Rightarrow> bool" where
  "guardrail_applies r g source meas =
     (let target = gr_applies_to g
      in case at_source target of
           Some s \<Rightarrow> s = source \<and> (case at_measure target of None \<Rightarrow> True | Some m \<Rightarrow> m = meas)
         | None \<Rightarrow>
             (case at_metric target of
                Some metric \<Rightarrow>
                  (case map_of (rs_metric_to_canonical r) metric of
                     None \<Rightarrow> False
                   | Some c \<Rightarrow> cr_source c = Some source \<and> cr_measure c = Some meas)
              | None \<Rightarrow> False))"

definition guardrails_for :: "resolver \<Rightarrow> string \<Rightarrow> string \<Rightarrow> guardrail list" where
  "guardrails_for r source meas =
     sort_key gr_id (filter (\<lambda>g. guardrail_applies r g source meas) (rs_guardrails r))"

definition context_guardrails :: "guardrail_kind \<Rightarrow> resolver \<Rightarrow> string \<Rightarrow> string \<Rightarrow> string option \<Rightarrow> guardrail list" where
  "context_guardrails k r source meas ctx =
     (if ctx = None then []
      else sort_key gr_id
        (filter (\<lambda>g. gr_kind g = k \<and> gr_context g = ctx \<and> guardrail_applies r g source meas) (rs_guardrails r)))"

definition restrict_source_for :: "resolver \<Rightarrow> string \<Rightarrow> string \<Rightarrow> string option \<Rightarrow> guardrail list" where
  "restrict_source_for = context_guardrails RESTRICT_SOURCE"

definition min_trust_for :: "resolver \<Rightarrow> string \<Rightarrow> string \<Rightarrow> string option \<Rightarrow> guardrail list" where
  "min_trust_for = context_guardrails MIN_TRUST"

definition required_dimension_for :: "resolver \<Rightarrow> string \<Rightarrow> string \<Rightarrow> string option \<Rightarrow> guardrail list" where
  "required_dimension_for r source meas ctx =
     sort_key gr_id
       (filter (\<lambda>g. gr_kind g = REQUIRED_DIMENSION \<and> (gr_context g = None \<or> gr_context g = ctx) \<and>
          guardrail_applies r g source meas) (rs_guardrails r))"

definition finality_for :: "resolver \<Rightarrow> string \<Rightarrow> finality_rule option" where
  "finality_for r metric = map_of (rs_finality r) metric"

definition assertions_for :: "resolver \<Rightarrow> string list \<Rightarrow> assertion list" where
  "assertions_for r metrics =
     (if metrics = [] then []
      else filter (\<lambda>a. as_executable a \<and> set (as_metrics a) = set metrics) (rs_assertions r))"

section \<open>Tenancy and roles\<close>

datatype scope_resolution = ScopeRule string string | Shared string | Undeclared string

definition tenancy_for :: "resolver \<Rightarrow> string \<Rightarrow> scope_resolution" where
  "tenancy_for r source =
     (case rs_tenancy r of
        None \<Rightarrow> Shared source
      | Some _ \<Rightarrow>
          (case map_of (rs_scoped r) source of
             Some rule \<Rightarrow> ScopeRule (sc_source rule) (sc_column rule)
           | None \<Rightarrow> if source \<in> set (rs_shared r) then Shared source else Undeclared source))"

text \<open>
  \<^verbatim>\<open>_flatten_role\<close>: the chain is walked by a loop that ends only if the chain does, so its result
  is optional; a missing parent is a \<^verbatim>\<open>KeyError\<close>. The chain runs from the role to its root.
\<close>

partial_function (option) role_chain :: "(string, role_def) dict \<Rightarrow> string \<Rightarrow> role_def list res option" where
  "role_chain roles name =
     (case map_of roles name of
        None \<Rightarrow> Some (Inl KeyError)
      | Some r \<Rightarrow>
          (case rd_inherits r of
             None \<Rightarrow> Some (Inr [r])
           | Some parent \<Rightarrow>
               Option.bind (role_chain roles parent) (\<lambda>c. Some (rbind c (\<lambda>rs. Inr (r # rs))))))"

text \<open>A role after flattening: every field has a value.\<close>

record flat_role =
  fl_metrics :: allow_deny_policy
  fl_dimensions :: allow_deny_policy
  fl_knowledge :: "string list"
  fl_run_sql :: bool
  fl_tenancy_exempt :: bool
  fl_masking :: "masking_rule list"

definition no_policy :: allow_deny_policy where
  "no_policy = \<lparr>ad_allow = None, ad_deny = []\<rparr>"

definition field_or :: "'a option \<Rightarrow> 'a \<Rightarrow> 'a" where
  "field_or x d = (case x of None \<Rightarrow> d | Some v \<Rightarrow> v)"

definition base_role :: flat_role where
  "base_role = \<lparr>fl_metrics = no_policy, fl_dimensions = no_policy, fl_knowledge = [], fl_run_sql = False,
     fl_tenancy_exempt = False, fl_masking = []\<rparr>"

text \<open>Apply a role's authored fields over the accumulated result.\<close>

definition override :: "role_def \<Rightarrow> flat_role \<Rightarrow> flat_role" where
  "override r f =
     \<lparr>fl_metrics = field_or (rd_metrics r) (fl_metrics f),
      fl_dimensions = field_or (rd_dimensions r) (fl_dimensions f),
      fl_knowledge = field_or (rd_knowledge r) (fl_knowledge f),
      fl_run_sql = field_or (rd_run_sql r) (fl_run_sql f),
      fl_tenancy_exempt = field_or (rd_tenancy_exempt r) (fl_tenancy_exempt f),
      fl_masking = field_or (rd_masking r) (fl_masking f)\<rparr>"

definition flatten_role :: "role_policy \<Rightarrow> string \<Rightarrow> flat_role res option" where
  "flatten_role p name =
     Option.bind (role_chain (rp_roles p) name) (\<lambda>c.
       Some (rbind c (\<lambda>chain. Inr (fold override (rev chain) base_role))))"

fun omap :: "('a \<Rightarrow> 'b res option) \<Rightarrow> 'a list \<Rightarrow> 'b list res option" where
  "omap f [] = Some (Inr [])"
| "omap f (x # xs) =
     Option.bind (f x) (\<lambda>y. case y of
       Inl e \<Rightarrow> Some (Inl e)
     | Inr v \<Rightarrow> Option.bind (omap f xs) (\<lambda>vs. Some (rbind vs (\<lambda>ws. Inr (v # ws)))))"

definition open_policy :: "bool \<Rightarrow> effective_policy" where
  "open_policy exempt =
     \<lparr>ep_allow_metrics = {WILDCARD}, ep_deny_metrics = {}, ep_allow_dimensions = {WILDCARD},
      ep_deny_dimensions = {}, ep_allow_tags = {WILDCARD}, ep_run_sql = True, ep_tenancy_exempt = exempt,
      ep_masking = [], ep_roles = []\<rparr>"

definition closed_policy :: effective_policy where
  "closed_policy =
     \<lparr>ep_allow_metrics = {}, ep_deny_metrics = {}, ep_allow_dimensions = {}, ep_deny_dimensions = {},
      ep_allow_tags = {}, ep_run_sql = False, ep_tenancy_exempt = False, ep_masking = [], ep_roles = []\<rparr>"

definition allow_set :: "allow_deny_policy \<Rightarrow> string set" where
  "allow_set p = (case ad_allow p of None \<Rightarrow> {WILDCARD} | Some xs \<Rightarrow> set xs)"

fun strategy_value :: "mask_strategy \<Rightarrow> string" where
  "strategy_value MS_PARTIAL = ''partial''"
| "strategy_value MS_HASH = ''hash''"
| "strategy_value MS_NULL = ''null''"

text \<open>The masking rules of all roles, as a set in the order of column and strategy.\<close>

definition merge_masking :: "flat_role list \<Rightarrow> masking_rule list" where
  "merge_masking fs =
     sort_key (\<lambda>m. (mr_column m, strategy_value (mr_strategy m))) (remdups (concat (map fl_masking fs)))"

definition merge_roles :: "string list \<Rightarrow> flat_role list \<Rightarrow> effective_policy" where
  "merge_roles names fs =
     \<lparr>ep_allow_metrics = (\<Union>f\<in>set fs. allow_set (fl_metrics f)),
      ep_deny_metrics = (\<Union>f\<in>set fs. set (ad_deny (fl_metrics f))),
      ep_allow_dimensions = (\<Union>f\<in>set fs. allow_set (fl_dimensions f)),
      ep_deny_dimensions = (\<Union>f\<in>set fs. set (ad_deny (fl_dimensions f))),
      ep_allow_tags = (\<Union>f\<in>set fs. set (fl_knowledge f)),
      ep_run_sql = (\<exists>f\<in>set fs. fl_run_sql f),
      ep_tenancy_exempt = (\<exists>f\<in>set fs. fl_tenancy_exempt f),
      ep_masking = merge_masking fs,
      ep_roles = names\<rparr>"

definition known_roles :: "role_policy \<Rightarrow> principal \<Rightarrow> string list" where
  "known_roles p pr =
     (let names = (if pr_roles pr = [] then opt_list (rp_default_role p) else pr_roles pr)
      in sort (filter (\<lambda>n. map_of (rp_roles p) n \<noteq> None) names))"

definition authz_for :: "resolver \<Rightarrow> principal \<Rightarrow> effective_policy res option" where
  "authz_for r pr =
     (if pr_system_exempt pr then Some (Inr (open_policy True))
      else (case rs_roles r of
          None \<Rightarrow> Some (Inr (open_policy False))
        | Some p \<Rightarrow>
            (if known_roles p pr = [] then Some (Inr closed_policy)
             else Option.bind (omap (flatten_role p) (known_roles p pr)) (\<lambda>fs.
               Some (rbind fs (\<lambda>flat. Inr (merge_roles (known_roles p pr) flat)))))))"

section \<open>One step of resolution\<close>

definition deps_of :: "metric_binding \<Rightarrow> string list" where
  "deps_of b = dependency_names (spec_for (cr_kind (mb_canonical b))) (mb_canonical b)"

definition valid_binding :: "(string \<Rightarrow> string list option) \<Rightarrow> metric_binding \<Rightarrow> bool" where
  "valid_binding dn b \<longleftrightarrow> validate_shape dn (mb_canonical b) = Inr ()"

fun is_binding :: "resolution res \<Rightarrow> bool" where
  "is_binding (Inr (RBinding r)) = True"
| "is_binding x = False"

lemma is_binding_iff: "is_binding x \<longleftrightarrow> (\<exists>r. x = Inr (RBinding r))"
  by (cases x rule: is_binding.cases) simp_all

fun first_failure :: "(string \<Rightarrow> resolution res) \<Rightarrow> string list \<Rightarrow> resolution res option" where
  "first_failure subm [] = None"
| "first_failure subm (d # ds) = (if is_binding (subm d) then first_failure subm ds else Some (subm d))"

lemma first_failure_None: "first_failure subm ds = None \<longleftrightarrow> (\<forall>d\<in>set ds. is_binding (subm d))"
  by (induction ds) auto

lemma first_failure_Some: "first_failure subm ds = Some x \<Longrightarrow> \<exists>d\<in>set ds. x = subm d \<and> \<not> is_binding x"
  by (induction ds) (auto split: if_splits)

text \<open>A resolution step either returns the first component that failed, or a binding.\<close>

definition stepped :: "(string \<Rightarrow> resolution res) \<Rightarrow> string list \<Rightarrow> resolution res \<Rightarrow> bool" where
  "stepped subm ds out \<longleftrightarrow> (case first_failure subm ds of None \<Rightarrow> is_binding out | Some x \<Rightarrow> out = x)"

lemma stepped_Nil [simp]: "stepped subm [] out \<longleftrightarrow> is_binding out"
  by (simp add: stepped_def)

lemma with_binding_fail: "\<not> is_binding x \<Longrightarrow> with_binding x k = x"
  by (cases x rule: is_binding.cases) (simp_all add: with_binding_def)

lemma with_binding_ok [simp]: "with_binding (Inr (RBinding r)) k = k r"
  by (simp add: with_binding_def)

lemma stepped_Cons:
  assumes "\<And>r. subm d = Inr (RBinding r) \<Longrightarrow> stepped subm ds (k r)"
  shows "stepped subm (d # ds) (with_binding (subm d) k)"
proof (cases "is_binding (subm d)")
  case True
  then obtain r where "subm d = Inr (RBinding r)" by (auto simp: is_binding_iff)
  with assms show ?thesis by (simp add: stepped_def)
next
  case False
  then show ?thesis by (simp add: stepped_def with_binding_fail)
qed

lemma resolve_inputs_stepped:
  assumes "\<And>acc. is_binding (k acc)"
  shows "stepped subm (map di_metric is) (resolve_inputs subm is acc k)"
proof (induction "is" arbitrary: acc)
  case (Cons i "is")
  then show ?case by (simp add: stepped_Cons)
qed (simp add: assms)

lemma resolve_binding_stepped:
  assumes "valid_binding dn b"
  shows "stepped subm (deps_of b) (resolve_binding subm b)"
proof -
  let ?c = "mb_canonical b"
  have r: "validate_required dn ?c = Inr ()" and k: "validate_kind_fields ?c = Inr ()"
    using assms validate_shape_parts by (auto simp: valid_binding_def)
  note rq = required_ok [OF r] and kf = kind_fields_ok [OF k]
  note defs = resolve_binding_def deps_of_def dependency_names_def component_names_def get_attr_def opt_list_def
    RECOMPUTE_KINDS_def all_kinds_def
  show ?thesis
  proof (cases "cr_kind ?c")
    case RATIO
    then obtain n d where "cr_numerator ?c = Some n" "cr_denominator ?c = Some d" using rq(3) by auto
    then show ?thesis using RATIO by (simp add: defs stepped_Cons)
  next
    case WEIGHTED_AVG
    then obtain n d where "cr_weighted_sum ?c = Some n" "cr_weight ?c = Some d" using rq(4) by auto
    then show ?thesis using WEIGHTED_AVG by (simp add: defs stepped_Cons)
  next
    case OFFSET
    then obtain n d e where "cr_base ?c = Some n" "cr_time_dimension ?c = Some d" "cr_offset ?c = Some e"
      using rq(10) by auto
    then show ?thesis using OFFSET by (simp add: defs stepped_Cons)
  next
    case DERIVED
    then obtain e "is" where "cr_expr ?c = Some e" "cr_inputs ?c = Some is" "is \<noteq> []" using rq(11) by auto
    then show ?thesis using DERIVED kf by (simp add: defs empty_opt_def resolve_inputs_stepped)
  next
    case CONVERSION
    then obtain v w x y z where "cr_base_metric ?c = Some v" "cr_conversion_metric ?c = Some w" "cr_entity ?c = Some x"
      "cr_base_time ?c = Some y" "cr_conversion_time ?c = Some z" using rq(12) by auto
    then show ?thesis using CONVERSION kf by (simp add: defs resolve_conversion_def Let_def stepped_Cons)
  qed (use rq kf in \<open>auto simp: defs empty_opt_iff Let_def\<close>)
qed

lemma resolve_inputs_cong:
  "(\<And>i. i \<in> set is \<Longrightarrow> subm (di_metric i) = subm' (di_metric i)) \<Longrightarrow>
    resolve_inputs subm is acc k = resolve_inputs subm' is acc k"
  by (induction "is" arbitrary: acc) simp_all

lemma resolve_binding_cong:
  assumes "valid_binding dn b" and "\<And>d. d \<in> set (deps_of b) \<Longrightarrow> subm d = subm' d"
  shows "resolve_binding subm b = resolve_binding subm' b"
proof -
  let ?c = "mb_canonical b"
  have r: "validate_required dn ?c = Inr ()" and k: "validate_kind_fields ?c = Inr ()"
    using assms(1) validate_shape_parts by (auto simp: valid_binding_def)
  note rq = required_ok [OF r] and kf = kind_fields_ok [OF k]
  note defs = resolve_binding_def deps_of_def dependency_names_def component_names_def get_attr_def opt_list_def
    RECOMPUTE_KINDS_def all_kinds_def
  show ?thesis
  proof (cases "cr_kind ?c")
    case RATIO
    then obtain n d where "cr_numerator ?c = Some n" "cr_denominator ?c = Some d" using rq(3) by auto
    then show ?thesis using RATIO assms(2) by (simp add: defs)
  next
    case WEIGHTED_AVG
    then obtain n d where "cr_weighted_sum ?c = Some n" "cr_weight ?c = Some d" using rq(4) by auto
    then show ?thesis using WEIGHTED_AVG assms(2) by (simp add: defs)
  next
    case OFFSET
    then obtain n d e where "cr_base ?c = Some n" "cr_time_dimension ?c = Some d" "cr_offset ?c = Some e"
      using rq(10) by auto
    then show ?thesis using OFFSET assms(2) by (simp add: defs)
  next
    case DERIVED
    then obtain e "is" where "cr_expr ?c = Some e" "cr_inputs ?c = Some is" "is \<noteq> []" using rq(11) by auto
    then show ?thesis
      using DERIVED kf assms(2) by (simp add: defs empty_opt_def) (rule resolve_inputs_cong, simp)
  next
    case CONVERSION
    then obtain v w x y z where "cr_base_metric ?c = Some v" "cr_conversion_metric ?c = Some w" "cr_entity ?c = Some x"
      "cr_base_time ?c = Some y" "cr_conversion_time ?c = Some z" using rq(12) by auto
    then show ?thesis using CONVERSION kf assms(2) by (simp add: defs resolve_conversion_def Let_def)
  qed (use rq kf in \<open>auto simp: defs empty_opt_iff Let_def\<close>)
qed

section \<open>Which names resolve\<close>

text \<open>
  The specification of resolution knows nothing of the cycle guard: a name is resolvable when exactly
  one active binding carries it and the metrics that binding is computed from are resolvable.
\<close>

type_synonym lookup = "string \<Rightarrow> metric_binding list"

inductive resolvable :: "lookup \<Rightarrow> string \<Rightarrow> bool" for look where
  resolvableI: "look n = [b] \<Longrightarrow> (\<And>d. d \<in> set (deps_of b) \<Longrightarrow> resolvable look d) \<Longrightarrow> resolvable look n"

inductive_cases resolvableE: "resolvable look n"

definition dep :: "lookup \<Rightarrow> string \<Rightarrow> string \<Rightarrow> bool" where
  "dep look n d \<longleftrightarrow> (\<exists>b. look n = [b] \<and> d \<in> set (deps_of b))"

lemma resolvable_acyclic: "resolvable look n \<Longrightarrow> \<not> (dep look)\<^sup>+\<^sup>+ n n"
proof (induction rule: resolvable.induct)
  case (resolvableI n b)
  show ?case
  proof
    assume "(dep look)\<^sup>+\<^sup>+ n n"
    then obtain d where d: "dep look n d" "(dep look)\<^sup>*\<^sup>* d n" by (auto dest: tranclpD)
    then have "(dep look)\<^sup>+\<^sup>+ d d" by (simp add: rtranclp_into_tranclp1)
    moreover have "d \<in> set (deps_of b)" using d(1) resolvableI.hyps by (simp add: dep_def)
    ultimately show False using resolvableI.IH by blast
  qed
qed

definition look_in :: "name_index \<Rightarrow> lookup" where
  "look_in idx n = map snd (get_list idx n)"

definition valid_index :: "(string \<Rightarrow> string list option) \<Rightarrow> name_index \<Rightarrow> bool" where
  "valid_index dn idx \<longleftrightarrow> (\<forall>n. \<forall>b\<in>set (look_in idx n). valid_binding dn b)"

lemma valid_indexD: "valid_index dn idx \<Longrightarrow> look_in idx n = b # bs \<Longrightarrow> valid_binding dn b"
  by (metis list.set_intros(1) valid_index_def)

lemma resolve_component_step:
  "name \<in> seen \<Longrightarrow> resolve_component idx seen name = Inr (RUnresolved name)"
  "name \<notin> seen \<Longrightarrow> look_in idx name = [] \<Longrightarrow> resolve_component idx seen name = Inr (RUnresolved name)"
  "name \<notin> seen \<Longrightarrow> look_in idx name = [b] \<Longrightarrow>
    resolve_component idx seen name = resolve_binding (resolve_component idx (insert name seen)) b"
  "name \<notin> seen \<Longrightarrow> look_in idx name = a # b # bs \<Longrightarrow>
    resolve_component idx seen name = Inr (RAmbiguous name (candidates (get_list idx name)))"
  by (auto simp: resolve_component.simps look_in_def split: list.splits)

lemma candidates_look_in:
  "candidates (get_list idx n) = sort_key (\<lambda>b. (mb_metric b, mb_aliases b)) (look_in idx n)"
  by (simp add: candidates_def look_in_def)

lemma resolve_metric_component: "resolve_metric r n = resolve_component (rs_name_index r) {} n"
  by (simp add: resolve_metric_def resolve_component.simps [of _ "{}"] split: list.splits)

text \<open>The three outcomes of a lookup, for induction over the names still unseen.\<close>

lemma resolve_component_cases [consumes 1, case_names cycle none one many]:
  assumes "valid_index dn idx"
  obtains "name \<in> seen" "resolve_component idx seen name = Inr (RUnresolved name)"
  | "name \<notin> seen" "look_in idx name = []" "resolve_component idx seen name = Inr (RUnresolved name)"
  | b where "name \<notin> seen" "look_in idx name = [b]" "valid_binding dn b"
      "resolve_component idx seen name = resolve_binding (resolve_component idx (insert name seen)) b"
  | "name \<notin> seen" "length (look_in idx name) \<ge> 2"
      "resolve_component idx seen name =
        Inr (RAmbiguous name (sort_key (\<lambda>b. (mb_metric b, mb_aliases b)) (look_in idx name)))"
proof (cases "name \<in> seen")
  case True
  then show ?thesis using that(1) resolve_component_step(1) by blast
next
  case False
  show ?thesis
  proof (cases "look_in idx name")
    case Nil
    then show ?thesis using False that(2) resolve_component_step(2) by blast
  next
    case one: (Cons b bs)
    show ?thesis
    proof (cases bs)
      case Nil
      have "valid_binding dn b" by (rule valid_indexD [OF assms one])
      then show ?thesis using False that(3) resolve_component_step(3) [OF False] one Nil by blast
    next
      case (Cons c cs)
      then show ?thesis
        using False that(4) resolve_component_step(4) [OF False] one by (simp add: candidates_look_in)
    qed
  qed
qed

text \<open>The names on the way to \<open>n\<close> are exactly where the cycle guard can fire.\<close>

definition explained :: "lookup \<Rightarrow> string \<Rightarrow> resolution res \<Rightarrow> bool" where
  "explained look n out \<longleftrightarrow>
     (case out of
        Inr (RBinding r) \<Rightarrow> resolvable look n
      | Inr (RUnresolved m) \<Rightarrow> (dep look)\<^sup>*\<^sup>* n m \<and> (look m = [] \<or> (dep look)\<^sup>+\<^sup>+ m m)
      | Inr (RAmbiguous m cs) \<Rightarrow> (dep look)\<^sup>*\<^sup>* n m \<and> length cs \<ge> 2 \<and> mset cs = mset (look m) \<and>
          sorted (map (\<lambda>b. (mb_metric b, mb_aliases b)) cs)
      | Inl e \<Rightarrow> False)"

lemma explained_step:
  assumes "dep look n d" and "explained look d x" and "\<not> is_binding x"
  shows "explained look n x"
proof (cases x)
  case (Inl e)
  with assms(2) show ?thesis by (simp add: explained_def)
next
  case (Inr y)
  show ?thesis
    by (use assms Inr in \<open>cases y\<close>) (auto simp: explained_def intro: converse_rtranclp_into_rtranclp)
qed

lemma resolve_component_explained:
  assumes "valid_index dn idx" and "\<forall>s\<in>seen. (dep (look_in idx))\<^sup>+\<^sup>+ s n"
  shows "explained (look_in idx) n (resolve_component idx seen n)"
  using assms
proof (induction idx seen n rule: resolve_component.induct)
  case (1 idx seen n)
  from \<open>valid_index dn idx\<close> show ?case
  proof (cases rule: resolve_component_cases [where name = n and seen = seen])
    case (one b)
    let ?rec = "resolve_component idx (insert n seen)"
    obtain ib where ib: "get_list idx n = [ib]" "snd ib = b" using one(2) by (auto simp: look_in_def)
    have edge: "dep (look_in idx) n d" if "d \<in> set (deps_of b)" for d
      using one(2) that by (simp add: dep_def)
    have IH: "explained (look_in idx) d (?rec d)" if d: "d \<in> set (deps_of b)" for d
    proof (rule "1.IH" [OF one(1), of ib "[]"])
      show "\<forall>s\<in>insert n seen. (dep (look_in idx))\<^sup>+\<^sup>+ s d"
        using edge [OF d] "1.prems"(2) by (auto intro: tranclp.trancl_into_trancl)
    qed (use ib "1.prems" in simp_all)
    note st = resolve_binding_stepped [OF one(3), of ?rec]
    show ?thesis
    proof (cases "first_failure ?rec (deps_of b)")
      case None
      then have "\<forall>d\<in>set (deps_of b). resolvable (look_in idx) d"
        using IH by (fastforce simp: first_failure_None is_binding_iff explained_def)
      then have "resolvable (look_in idx) n" using one(2) by (blast intro: resolvableI)
      moreover obtain r where "resolve_binding ?rec b = Inr (RBinding r)"
        using st None by (auto simp: stepped_def is_binding_iff)
      ultimately show ?thesis using one(4) by (simp add: explained_def)
    next
      case (Some x)
      then obtain d where "d \<in> set (deps_of b)" "x = ?rec d" "\<not> is_binding x"
        using first_failure_Some by blast
      moreover have "resolve_component idx seen n = x" using st Some one(4) by (simp add: stepped_def)
      ultimately show ?thesis using explained_step edge IH by metis
    qed
  qed (use "1.prems" in \<open>auto simp: explained_def\<close>)
qed

lemma resolvable_resolves:
  assumes "valid_index dn idx" and "resolvable (look_in idx) n"
    and "\<forall>s\<in>seen. \<not> (dep (look_in idx))\<^sup>*\<^sup>* n s"
  shows "is_binding (resolve_component idx seen n) \<and> resolve_component idx seen n = resolve_component idx {} n"
  using assms(2,3)
proof (induction arbitrary: seen rule: resolvable.induct)
  case (resolvableI n b)
  have acyclic: "\<not> (dep (look_in idx))\<^sup>+\<^sup>+ n n"
    using resolvable.resolvableI [OF resolvableI.hyps] resolvable_acyclic resolvableI.IH by blast
  have edge: "dep (look_in idx) n d" if "d \<in> set (deps_of b)" for d
    using resolvableI.hyps that by (simp add: dep_def)
  have avoid: "\<forall>s\<in>insert n S. \<not> (dep (look_in idx))\<^sup>*\<^sup>* d s"
    if "d \<in> set (deps_of b)" "\<forall>s\<in>S. \<not> (dep (look_in idx))\<^sup>*\<^sup>* n s" for d S
    using that edge acyclic by (auto intro: converse_rtranclp_into_rtranclp dest: rtranclp_into_tranclp2)
  have same: "resolve_component idx (insert n S) d = resolve_component idx {} d"
      "is_binding (resolve_component idx (insert n S) d)"
    if "d \<in> set (deps_of b)" "\<forall>s\<in>S. \<not> (dep (look_in idx))\<^sup>*\<^sup>* n s" for d S
    using resolvableI.IH [OF that(1) avoid [OF that]] by auto
  have valid: "valid_binding dn b" by (rule valid_indexD [OF assms(1) resolvableI.hyps(1)])
  have "n \<notin> seen" using resolvableI.prems by auto
  then have "resolve_component idx seen n = resolve_binding (resolve_component idx (insert n seen)) b"
    "resolve_component idx {} n = resolve_binding (resolve_component idx {n}) b"
    using resolvableI.hyps resolve_component_step(3) by auto
  moreover have "resolve_binding (resolve_component idx (insert n seen)) b = resolve_binding (resolve_component idx {n}) b"
    using same(1) resolvableI.prems by (intro resolve_binding_cong [OF valid]) (metis empty_iff)
  moreover have "is_binding (resolve_binding (resolve_component idx (insert n seen)) b)"
    using resolve_binding_stepped [OF valid] same(2) resolvableI.prems
    by (metis stepped_def first_failure_None option.simps(4))
  ultimately show ?case by simp
qed

section \<open>The name index\<close>

text \<open>The active bindings that carry a name, once per occurrence of the name, in load order.\<close>

definition named :: "metric_binding list \<Rightarrow> lookup" where
  "named bs n =
     concat (map (\<lambda>b. replicate (count_list (mb_metric b # mb_aliases b) n) b) (filter (\<lambda>b. mb_status b = ACTIVE) bs))"

lemma fold_dict_append:
  "get_list (fold (\<lambda>n. dict_append n v) ns d) m = get_list d m @ replicate (count_list ns m) v"
  by (induction ns arbitrary: d) (auto simp: get_list_append)

lemma get_list_index_names:
  "get_list (fold index_names ibs idx) n =
     get_list idx n @ concat (map (\<lambda>ib. replicate (count_list (mb_metric (snd ib) # mb_aliases (snd ib)) n) ib) ibs)"
proof (induction ibs arbitrary: idx)
  case (Cons ib ibs)
  have "get_list (index_names ib idx) n = get_list idx n @ replicate (count_list (mb_metric (snd ib) # mb_aliases (snd ib)) n) ib"
    unfolding index_names_def by (rule fold_dict_append)
  then show ?case using Cons.IH by (simp del: count_list.simps)
qed simp

lemma map_snd_enumerate: "map snd (enumerate_list xs) = xs"
  by (simp add: enumerate_list_def)

lemma look_in_build: "look_in (build_name_index bs) n = named bs n"
proof -
  have "map snd (concat (map (\<lambda>ib. replicate (f (snd ib)) ib) (filter (\<lambda>ib. P (snd ib)) ibs))) =
      concat (map (\<lambda>b. replicate (f b) b) (filter P (map snd ibs)))"
    for ibs :: "indexed list" and f P
    by (induction ibs) simp_all
  from this [of "\<lambda>b. count_list (mb_metric b # mb_aliases b) n" "\<lambda>b. mb_status b = ACTIVE" "enumerate_list bs"]
  show ?thesis
    unfolding look_in_def build_name_index_def get_list_index_names named_def active_def map_snd_enumerate
    by (simp add: get_list_def)
qed

lemma set_named: "b \<in> set (named bs n) \<Longrightarrow> b \<in> set bs \<and> mb_status b = ACTIVE \<and> n \<in> set (mb_metric b # mb_aliases b)"
  by (auto simp: named_def count_list_0_iff split: if_splits) (metis count_notin less_numeral_extra(3))

lemma valid_index_build: "(\<forall>b\<in>set bs. valid_binding dn b) \<Longrightarrow> valid_index dn (build_name_index bs)"
  using set_named by (auto simp: valid_index_def look_in_build)

lemma explained_iff:
  assumes "valid_index dn idx"
  shows "is_binding (resolve_component idx {} n) \<longleftrightarrow> resolvable (look_in idx) n"
  using resolve_component_explained [OF assms, of "{}" n] resolvable_resolves [OF assms, of n "{}"]
  by (auto simp: is_binding_iff explained_def)

section \<open>Loading bindings\<close>

text \<open>
  The duplicate check of \<^verbatim>\<open>load_metric_bindings\<close> in \<^verbatim>\<open>src/canonic/contracts/loader.py\<close>, on the files
  already read in path order. A name already taken by an active binding refuses the project.
\<close>

fun check_names :: "string \<Rightarrow> string list \<Rightarrow> (string, string) dict \<Rightarrow> (string, string) dict res" where
  "check_names path [] seen = Inr seen"
| "check_names path (n # ns) seen =
     (case map_of seen n of
        Some other \<Rightarrow> Inl (CanonicError ContractError [n, other, path] [])
      | None \<Rightarrow> check_names path ns (AList.update n path seen))"

fun check_loaded :: "(string \<times> metric_binding) list \<Rightarrow> (string, string) dict \<Rightarrow> unit res" where
  "check_loaded [] seen = Inr ()"
| "check_loaded ((path, b) # xs) seen =
     (if mb_status b \<noteq> ACTIVE then check_loaded xs seen
      else rbind (check_names path (mb_metric b # mb_aliases b) seen) (check_loaded xs))"

definition load_metric_bindings :: "(string \<times> metric_binding) list \<Rightarrow> metric_binding list res" where
  "load_metric_bindings loaded = rbind (check_loaded loaded []) (\<lambda>_. Inr (map snd loaded))"

lemma check_names_ok:
  "check_names path ns seen = Inr seen' \<longleftrightarrow>
     distinct ns \<and> set ns \<inter> dom (map_of seen) = {} \<and> seen' = fold (\<lambda>n. AList.update n path) ns seen"
proof (induction ns arbitrary: seen)
  case (Cons n ns)
  have "dom (map_of (AList.update n path seen)) = insert n (dom (map_of seen))"
    by (simp add: update_conv')
  then show ?case using Cons.IH [of "AList.update n path seen"] by (auto split: option.splits simp: domIff)
qed auto

lemma dom_fold_update: "dom (map_of (fold (\<lambda>n. AList.update n p) ns d)) = set ns \<union> dom (map_of d)"
  by (induction ns arbitrary: d) (auto simp: update_conv')

definition active_names :: "metric_binding list \<Rightarrow> string list" where
  "active_names bs = concat (map (\<lambda>b. mb_metric b # mb_aliases b) (filter (\<lambda>b. mb_status b = ACTIVE) bs))"

lemma check_loaded_ok:
  "check_loaded xs seen = Inr () \<longleftrightarrow>
     distinct (active_names (map snd xs)) \<and> set (active_names (map snd xs)) \<inter> dom (map_of seen) = {}"
proof (induction xs arbitrary: seen)
  case (Cons x xs)
  obtain path b where x: "x = (path, b)" by (cases x)
  show ?case
  proof (cases "mb_status b = ACTIVE")
    case True
    define ns where "ns = mb_metric b # mb_aliases b"
    have names: "active_names (map snd (x # xs)) = ns @ active_names (map snd xs)"
      using True x by (simp add: active_names_def ns_def)
    have step: "check_loaded (x # xs) seen = rbind (check_names path ns seen) (check_loaded xs)"
      using True x by (simp add: ns_def del: check_names.simps)
    show ?thesis
      unfolding names step rbind_Inr_iff check_names_ok by (auto simp: Cons.IH dom_fold_update)
  qed (use Cons.IH x in \<open>simp add: active_names_def\<close>)
qed (simp add: active_names_def)

lemma named_count: "length (named bs n) = count_list (active_names bs) n"
  by (induction bs) (simp_all add: named_def active_names_def)

lemma count_le_one: "distinct xs \<Longrightarrow> count_list xs n \<le> 1"
  by (induction xs) (auto simp: count_list_0_iff)

section \<open>Leaves\<close>

text \<open>A resolved tree in which every node carries what its binding promises.\<close>

definition leaf_of :: "lookup \<Rightarrow> resolved \<Rightarrow> bool" where
  "leaf_of look l \<longleftrightarrow>
     rb_kind l \<in> set SOURCE_BOUND_KINDS \<and> rb_source l \<noteq> None \<and> rb_source l = cr_source (mb_canonical (rb_binding l)) \<and>
     rb_metric l = mb_metric (rb_binding l) \<and> rb_kind l = cr_kind (mb_canonical (rb_binding l)) \<and>
     (\<exists>n. look n = [rb_binding l])"

lemma resolve_inputs_binding:
  "resolve_inputs subm is acc k = Inr (RBinding r) \<Longrightarrow>
    \<exists>xs. length xs = length is \<and> map subm (map di_metric is) = map (\<lambda>x. Inr (RBinding x)) xs \<and>
      k (acc @ zip (map di_name is) xs) = Inr (RBinding r)"
proof (induction "is" arbitrary: acc)
  case (Cons i "is")
  then obtain x where x: "subm (di_metric i) = Inr (RBinding x)"
    by (metis is_binding_iff resolve_inputs.simps(2) with_binding_fail)
  with Cons.prems have "resolve_inputs subm is (acc @ [(di_name i, x)]) k = Inr (RBinding r)" by simp
  from Cons.IH [OF this] obtain xs where "length xs = length is"
    "map subm (map di_metric is) = map (\<lambda>x. Inr (RBinding x)) xs"
    "k (acc @ (di_name i, x) # zip (map di_name is) xs) = Inr (RBinding r)" by auto
  with x show ?case by (intro exI [of _ "x # xs"]) simp
qed simp

lemma with_binding_Inr:
  "with_binding x k = Inr (RBinding r) \<longleftrightarrow> (\<exists>b. x = Inr (RBinding b) \<and> k b = Inr (RBinding r))"
  by (auto simp: with_binding_def split: sum.splits resolution.splits)

text \<open>A resolved node has its binding's name and kind, and the resolved forms of its dependencies, in order.\<close>

lemma resolve_binding_shape:
  assumes "valid_binding dn b" and "resolve_binding subm b = Inr (RBinding r)"
  shows "rb_binding r = b \<and> rb_metric r = mb_metric b \<and> rb_kind r = cr_kind (mb_canonical b) \<and>
    map subm (deps_of b) = map (\<lambda>x. Inr (RBinding x)) (dependencies r) \<and>
    rb_source r = (if deps_of b = [] then cr_source (mb_canonical b) else None)"
proof -
  let ?c = "mb_canonical b"
  have r: "validate_required dn ?c = Inr ()" and k: "validate_kind_fields ?c = Inr ()"
    using assms(1) validate_shape_parts by (auto simp: valid_binding_def)
  note rq = required_ok [OF r] and kf = kind_fields_ok [OF k]
  note defs = resolve_binding_def deps_of_def dependency_names_def component_names_def get_attr_def opt_list_def
    RECOMPUTE_KINDS_def all_kinds_def dependencies.simps leaf_def composite_def with_binding_Inr
  show ?thesis
  proof (cases "cr_kind ?c")
    case RATIO
    then obtain n d where "cr_numerator ?c = Some n" "cr_denominator ?c = Some d" using rq(3) by auto
    then show ?thesis using RATIO kf assms(2) by (auto simp: defs)
  next
    case WEIGHTED_AVG
    then obtain n d where "cr_weighted_sum ?c = Some n" "cr_weight ?c = Some d" using rq(4) by auto
    then show ?thesis using WEIGHTED_AVG kf assms(2) by (auto simp: defs)
  next
    case OFFSET
    then obtain n d e where "cr_base ?c = Some n" "cr_time_dimension ?c = Some d" "cr_offset ?c = Some e"
      using rq(10) by auto
    then show ?thesis using OFFSET kf assms(2) by (auto simp: defs)
  next
    case DERIVED
    then obtain e "is" where i: "cr_expr ?c = Some e" "cr_inputs ?c = Some is" "is \<noteq> []" using rq(11) by auto
    then have "resolve_inputs subm is [] (\<lambda>is. Inr (RBinding (composite b (Derived e is (cr_on_zero ?c))))) = Inr (RBinding r)"
      using DERIVED assms(2) by (simp add: resolve_binding_def empty_opt_def)
    from resolve_inputs_binding [OF this] show ?thesis using DERIVED kf i by (auto simp: defs)
  next
    case CONVERSION
    then obtain v w x y z where "cr_base_metric ?c = Some v" "cr_conversion_metric ?c = Some w" "cr_entity ?c = Some x"
      "cr_base_time ?c = Some y" "cr_conversion_time ?c = Some z" using rq(12) by auto
    then show ?thesis using CONVERSION kf assms(2) by (auto simp: defs resolve_conversion_def Let_def)
  qed (use rq kf assms(2) in \<open>auto simp: defs empty_opt_iff Let_def\<close>)
qed

lemma no_deps_source_bound:
  assumes "valid_binding dn b" and "deps_of b = []"
  shows "cr_kind (mb_canonical b) \<in> set SOURCE_BOUND_KINDS \<and> cr_source (mb_canonical b) \<noteq> None"
proof -
  let ?c = "mb_canonical b"
  have r: "validate_required dn ?c = Inr ()" and k: "validate_kind_fields ?c = Inr ()"
    using assms(1) validate_shape_parts by (auto simp: valid_binding_def)
  show ?thesis
    using required_ok [OF r] kind_fields_ok [OF k] assms(2)
    by (cases "cr_kind ?c")
      (auto simp: SOURCE_BOUND_KINDS_def all_kinds_def deps_of_def dependency_names_def component_names_def
        get_attr_def opt_list_def)
qed

lemma resolved_leaves:
  assumes "valid_index dn idx" and "resolve_component idx seen n = Inr (RBinding r)" and "l \<in> set (leaves r)"
  shows "leaf_of (look_in idx) l"
  using assms
proof (induction idx seen n arbitrary: r rule: resolve_component.induct)
  case (1 idx seen n)
  from \<open>valid_index dn idx\<close> show ?case
  proof (cases rule: resolve_component_cases [where name = n and seen = seen])
    case (one b)
    let ?rec = "resolve_component idx (insert n seen)"
    obtain ib where ib: "get_list idx n = [ib]" "snd ib = b" using one(2) by (auto simp: look_in_def)
    have shape: "rb_binding r = b" "rb_metric r = mb_metric b" "rb_kind r = cr_kind (mb_canonical b)"
      "map ?rec (deps_of b) = map (\<lambda>x. Inr (RBinding x)) (dependencies r)"
      "rb_source r = (if deps_of b = [] then cr_source (mb_canonical b) else None)"
      using resolve_binding_shape [OF one(3)] "1.prems"(2) one(4) by auto
    show ?thesis
    proof (cases "deps_of b = []")
      case True
      then have "l = r" using shape(4) "1.prems"(3) by (simp add: leaves.simps [of r])
      then show ?thesis
        using shape True no_deps_source_bound [OF one(3) True] one(2) by (auto simp: leaf_of_def)
    next
      case False
      then have "dependencies r \<noteq> []" using shape(4) by auto
      then obtain x where x: "x \<in> set (dependencies r)" "l \<in> set (leaves x)"
        using "1.prems"(3) by (auto simp: leaves.simps [of r])
      then have "Inr (RBinding x) \<in> set (map ?rec (deps_of b))" using shape(4) by simp
      then obtain d where "?rec d = Inr (RBinding x)" by auto
      from "1.IH" [OF one(1), of ib "[]", OF _ _ "1.prems"(1) this x(2)] ib show ?thesis by simp
    qed
  qed (use "1.prems" in auto)
qed

section \<open>Roles\<close>

lemma role_chain_ends:
  "chain_ends roles n \<Longrightarrow> \<exists>chain. role_chain roles n = Some (Inr chain) \<and> chain \<noteq> [] \<and>
     (\<forall>r\<in>set chain. \<exists>m. map_of roles m = Some r)"
proof (induction rule: chain_ends.induct)
  case (chain_root n r)
  then show ?case by (auto simp: role_chain.simps)
next
  case (chain_step n r m)
  then obtain chain where "role_chain roles m = Some (Inr chain)" "\<forall>r\<in>set chain. \<exists>m. map_of roles m = Some r" by blast
  with chain_step.hyps show ?case by (auto simp: role_chain.simps [of roles n])
qed

lemma flatten_role_total:
  "chain_ends (rp_roles p) n \<Longrightarrow> \<exists>f. flatten_role p n = Some (Inr f)"
  using role_chain_ends by (fastforce simp: flatten_role_def)

lemma omap_total:
  "(\<forall>x\<in>set xs. \<exists>y. f x = Some (Inr y)) \<Longrightarrow>
    \<exists>ys. omap f xs = Some (Inr ys) \<and> list_all2 (\<lambda>x y. f x = Some (Inr y)) xs ys"
  by (induction xs) fastforce+

text \<open>The value a role has for a field: its own when it authored one, otherwise its parent's.\<close>

inductive inherited :: "(role_def \<Rightarrow> 'a option) \<Rightarrow> (string, role_def) dict \<Rightarrow> string \<Rightarrow> 'a option \<Rightarrow> bool" for g roles where
  own: "map_of roles n = Some r \<Longrightarrow> g r = Some v \<Longrightarrow> inherited g roles n (Some v)"
| root: "map_of roles n = Some r \<Longrightarrow> g r = None \<Longrightarrow> rd_inherits r = None \<Longrightarrow> inherited g roles n None"
| parent: "map_of roles n = Some r \<Longrightarrow> g r = None \<Longrightarrow> rd_inherits r = Some m \<Longrightarrow> inherited g roles m v \<Longrightarrow>
    inherited g roles n v"

inductive_cases inheritedE: "inherited g roles n v"

lemma inherited_unique: "inherited g roles n v \<Longrightarrow> inherited g roles n w \<Longrightarrow> v = w"
proof (induction arbitrary: w rule: inherited.induct)
  case (parent n r m v)
  from parent.prems have "inherited g roles m w"
    by (rule inheritedE) (use parent.hyps(1-3) in auto)
  then show ?case by (rule parent.IH)
qed (auto elim: inheritedE)

fun nearest :: "(role_def \<Rightarrow> 'a option) \<Rightarrow> role_def list \<Rightarrow> 'a option" where
  "nearest g [] = None"
| "nearest g (r # rs) = (case g r of None \<Rightarrow> nearest g rs | Some v \<Rightarrow> Some v)"

lemma flatten_fields:
  "fl_metrics (fold override (rev chain) base_role) = field_or (nearest rd_metrics chain) no_policy"
  "fl_dimensions (fold override (rev chain) base_role) = field_or (nearest rd_dimensions chain) no_policy"
  "fl_knowledge (fold override (rev chain) base_role) = field_or (nearest rd_knowledge chain) []"
  "fl_run_sql (fold override (rev chain) base_role) = field_or (nearest rd_run_sql chain) False"
  "fl_tenancy_exempt (fold override (rev chain) base_role) = field_or (nearest rd_tenancy_exempt chain) False"
  "fl_masking (fold override (rev chain) base_role) = field_or (nearest rd_masking chain) []"
  by (induction chain) (auto simp: base_role_def override_def field_or_def split: option.splits)

lemma chain_inherited:
  "chain_ends roles n \<Longrightarrow> role_chain roles n = Some (Inr chain) \<Longrightarrow> inherited g roles n (nearest g chain)"
proof (induction arbitrary: chain rule: chain_ends.induct)
  case (chain_root n r)
  then have "chain = [r]" by (simp add: role_chain.simps)
  then show ?case
    using chain_root by (cases "g r") (auto intro: inherited.intros)
next
  case (chain_step n r m)
  then obtain up where "role_chain roles m = Some (Inr up)" "chain = r # up"
    by (auto simp: role_chain.simps [of roles n] bind_eq_Some_conv rbind_Inr_iff)
  then show ?case
    using chain_step by (cases "g r") (auto intro: inherited.intros)
qed

lemma flatten_inherited:
  assumes "chain_ends (rp_roles p) n" and "flatten_role p n = Some (Inr f)"
  shows "\<exists>v. inherited rd_metrics (rp_roles p) n v \<and> fl_metrics f = field_or v no_policy"
    "\<exists>v. inherited rd_dimensions (rp_roles p) n v \<and> fl_dimensions f = field_or v no_policy"
    "\<exists>v. inherited rd_run_sql (rp_roles p) n v \<and> fl_run_sql f = field_or v False"
    "\<exists>v. inherited rd_tenancy_exempt (rp_roles p) n v \<and> fl_tenancy_exempt f = field_or v False"
proof -
  obtain chain where c: "role_chain (rp_roles p) n = Some (Inr chain)" using role_chain_ends [OF assms(1)] by blast
  then have f: "f = fold override (rev chain) base_role" using assms(2) by (simp add: flatten_role_def)
  show "\<exists>v. inherited rd_metrics (rp_roles p) n v \<and> fl_metrics f = field_or v no_policy"
    "\<exists>v. inherited rd_dimensions (rp_roles p) n v \<and> fl_dimensions f = field_or v no_policy"
    "\<exists>v. inherited rd_run_sql (rp_roles p) n v \<and> fl_run_sql f = field_or v False"
    "\<exists>v. inherited rd_tenancy_exempt (rp_roles p) n v \<and> fl_tenancy_exempt f = field_or v False"
    unfolding f flatten_fields by (intro exI conjI, rule chain_inherited [OF assms(1) c], rule refl)+
qed

definition allows :: "allow_deny_policy \<Rightarrow> string \<Rightarrow> bool" where
  "allows p x \<longleftrightarrow> WILDCARD \<in> allow_set p \<or> x \<in> allow_set p"

definition denies :: "allow_deny_policy \<Rightarrow> string \<Rightarrow> bool" where
  "denies p x \<longleftrightarrow> x \<in> set (ad_deny p)"

text \<open>What a role holds for a field, with the field's default at the root.\<close>

definition role_has :: "(role_def \<Rightarrow> 'a option) \<Rightarrow> 'a \<Rightarrow> role_policy \<Rightarrow> string \<Rightarrow> ('a \<Rightarrow> bool) \<Rightarrow> bool" where
  "role_has g d p n P \<longleftrightarrow> (\<exists>v. inherited g (rp_roles p) n v \<and> P (field_or v d))"

lemma role_has_flat:
  assumes "chain_ends (rp_roles p) n" and "flatten_role p n = Some (Inr f)"
  shows "role_has rd_metrics no_policy p n P \<longleftrightarrow> P (fl_metrics f)"
    "role_has rd_dimensions no_policy p n P \<longleftrightarrow> P (fl_dimensions f)"
    "role_has rd_run_sql False p n Q \<longleftrightarrow> Q (fl_run_sql f)"
    "role_has rd_tenancy_exempt False p n Q \<longleftrightarrow> Q (fl_tenancy_exempt f)"
  using flatten_inherited [OF assms] by (auto simp: role_has_def dest: inherited_unique)

lemma authz_for_merge:
  assumes "validate_roles p = Inr ()" and "distinct (map fst (rp_roles p))"
    and "rs_roles r = Some p" and "\<not> pr_system_exempt pr"
  obtains fs where "authz_for r pr = Some (Inr (merge_roles (known_roles p pr) fs)) \<or>
      known_roles p pr = [] \<and> fs = [] \<and> authz_for r pr = Some (Inr closed_policy)"
    "list_all2 (\<lambda>n f. chain_ends (rp_roles p) n \<and> flatten_role p n = Some (Inr f)) (known_roles p pr) fs"
proof (cases "known_roles p pr = []")
  case True
  then show ?thesis using assms that [of "[]"] by (simp add: authz_for_def)
next
  case False
  have ends: "\<forall>n\<in>set (known_roles p pr). chain_ends (rp_roles p) n"
    using validated_roles_end [OF assms(1,2)] by (auto simp: known_roles_def Let_def)
  then have "\<forall>n\<in>set (known_roles p pr). \<exists>f. flatten_role p n = Some (Inr f)"
    by (simp add: flatten_role_total)
  from omap_total [OF this] obtain fs where fs: "omap (flatten_role p) (known_roles p pr) = Some (Inr fs)"
    "list_all2 (\<lambda>n f. flatten_role p n = Some (Inr f)) (known_roles p pr) fs" by blast
  show ?thesis
  proof (rule that)
    show "authz_for r pr = Some (Inr (merge_roles (known_roles p pr) fs)) \<or>
      known_roles p pr = [] \<and> fs = [] \<and> authz_for r pr = Some (Inr closed_policy)"
      using False fs assms by (simp add: authz_for_def)
    show "list_all2 (\<lambda>n f. chain_ends (rp_roles p) n \<and> flatten_role p n = Some (Inr f)) (known_roles p pr) fs"
      using fs(2) ends by (auto simp: list_all2_conv_all_nth)
  qed
qed

lemma list_all2_bex: "list_all2 R xs ys \<Longrightarrow> (\<And>x y. R x y \<Longrightarrow> P x = Q y) \<Longrightarrow> (\<exists>x\<in>set xs. P x) = (\<exists>y\<in>set ys. Q y)"
  by (induction rule: list_all2_induct) auto

lemma list_all2_ball: "list_all2 R xs ys \<Longrightarrow> (\<And>x y. R x y \<Longrightarrow> P x = Q y) \<Longrightarrow> (\<forall>x\<in>set xs. P x) = (\<forall>y\<in>set ys. Q y)"
  by (induction rule: list_all2_induct) auto

lemma merged_policy:
  "metric_allowed (merge_roles ns fs) x \<longleftrightarrow>
     (\<exists>f\<in>set fs. allows (fl_metrics f) x) \<and> (\<forall>f\<in>set fs. \<not> denies (fl_metrics f) x)"
  "dimension_allowed (merge_roles ns fs) x \<longleftrightarrow>
     (\<exists>f\<in>set fs. allows (fl_dimensions f) x \<or> allows (fl_dimensions f) (after_last CHR ''.'' x)) \<and>
     (\<forall>f\<in>set fs. \<not> denies (fl_dimensions f) x \<and> \<not> denies (fl_dimensions f) (after_last CHR ''.'' x))"
  "ep_run_sql (merge_roles ns fs) \<longleftrightarrow> (\<exists>f\<in>set fs. fl_run_sql f)"
  "ep_tenancy_exempt (merge_roles ns fs) \<longleftrightarrow> (\<exists>f\<in>set fs. fl_tenancy_exempt f)"
  unfolding metric_allowed_def dimension_allowed_def merge_roles_def allows_def denies_def Let_def by auto

lemma closed_policy_is_merge:
  "metric_allowed closed_policy = metric_allowed (merge_roles ns [])"
  "dimension_allowed closed_policy = dimension_allowed (merge_roles ns [])"
  "ep_run_sql closed_policy = ep_run_sql (merge_roles ns [])"
  "ep_tenancy_exempt closed_policy = ep_tenancy_exempt (merge_roles ns [])"
  by (auto simp: fun_eq_iff metric_allowed_def dimension_allowed_def closed_policy_def merge_roles_def Let_def)

section \<open>Properties\<close>

text \<open>
  C11: on bindings that passed their validators, resolving a name never raises, and its outcome is
  the specified one. It is a binding exactly when the name is resolvable; otherwise it names a metric
  reachable from the requested one that has no active binding or lies on a cycle of compositions, or
  it lists, sorted, the two or more active bindings of a reachable name.
\<close>

theorem resolution_is_explained:
  assumes "\<forall>b\<in>set bs. valid_binding dn b"
  shows "explained (named bs) n (resolve_metric (mk_resolver bs gs fin asserts ten rol) n) \<and>
    (is_binding (resolve_metric (mk_resolver bs gs fin asserts ten rol) n) \<longleftrightarrow> resolvable (named bs) n)"
proof -
  let ?idx = "build_name_index bs"
  have v: "valid_index dn ?idx" using assms by (rule valid_index_build)
  have look: "look_in ?idx = named bs" by (rule ext) (rule look_in_build)
  have m: "resolve_metric (mk_resolver bs gs fin asserts ten rol) n = resolve_component ?idx {} n"
    by (simp add: resolve_metric_component mk_resolver_def)
  show ?thesis
    unfolding m look [symmetric] using resolve_component_explained [OF v, of "{}" n] explained_iff [OF v] by simp
qed

text \<open>
  The cycle guard does not show in the result. A resolvable name resolves to the one step of its
  binding over the resolutions of its components, so two names of one binding (the metric and an
  alias) resolve alike, wherever in a composition they are looked up.
\<close>

theorem names_of_a_binding_resolve_alike:
  assumes "\<forall>b\<in>set bs. valid_binding dn b" and "resolvable (named bs) n"
    and "named bs n = [b]" and "named bs m = [b]"
  shows "resolve_metric (mk_resolver bs gs fin asserts ten rol) m =
      resolve_metric (mk_resolver bs gs fin asserts ten rol) n \<and>
    resolve_metric (mk_resolver bs gs fin asserts ten rol) n =
      resolve_binding (resolve_metric (mk_resolver bs gs fin asserts ten rol)) b"
proof -
  let ?idx = "build_name_index bs"
  have v: "valid_index dn ?idx" using assms(1) by (rule valid_index_build)
  have look: "look_in ?idx = named bs" by (rule ext) (rule look_in_build)
  have m: "resolve_metric (mk_resolver bs gs fin asserts ten rol) = resolve_component ?idx {}"
    by (rule ext) (simp add: resolve_metric_component mk_resolver_def)
  have deps: "resolvable (named bs) d" if "d \<in> set (deps_of b)" for d
    using assms(2,3) that by (auto elim: resolvableE)
  have step: "resolve_component ?idx {} k = resolve_binding (resolve_component ?idx {}) b" if k: "named bs k = [b]" for k
  proof -
    have "resolvable (named bs) k" using k deps by (rule resolvableI)
    then have acyclic: "\<not> (dep (named bs))\<^sup>+\<^sup>+ k k" by (rule resolvable_acyclic)
    have "resolve_component ?idx {k} d = resolve_component ?idx {} d" if d: "d \<in> set (deps_of b)" for d
    proof -
      have "dep (named bs) k d" using k d by (simp add: dep_def)
      then have "\<not> (dep (named bs))\<^sup>*\<^sup>* d k" using acyclic rtranclp_into_tranclp2 by metis
      then show ?thesis using resolvable_resolves [OF v, of d "{k}"] deps [OF d] by (simp add: look)
    qed
    then have "resolve_binding (resolve_component ?idx {k}) b = resolve_binding (resolve_component ?idx {}) b"
      by (intro resolve_binding_cong [OF valid_indexD [OF v, of k b "[]"]]) (simp_all add: look k)
    then show ?thesis using resolve_component_step(3) [of k "{}" ?idx b] k by (simp add: look)
  qed
  show ?thesis using step assms(3,4) by (simp add: m)
qed

definition plain_binding :: "string \<Rightarrow> string list \<Rightarrow> canonical_ref \<Rightarrow> metric_binding" where
  "plain_binding name as c =
     \<lparr>mb_metric = name, mb_owner = None, mb_canonical = c, mb_provenance = INFERRED, mb_label = None,
      mb_aliases = as, mb_deprecated = [], mb_examples = [], mb_status = ACTIVE, mb_knowledge_refs = [],
      mb_pack_source = None\<rparr>"

text \<open>A ratio over two measures of one source, with an alias.\<close>

definition sample_bindings :: "metric_binding list" where
  "sample_bindings =
     [plain_binding ''aov'' [''avg_order''] (ratio_ref ''revenue'' ''orders''),
      plain_binding ''revenue'' [] (single_ref ''orders'' ''revenue''),
      plain_binding ''orders'' [] (single_ref ''orders'' ''count'')]"

definition sample_resolver :: resolver where
  "sample_resolver = mk_resolver sample_bindings [] [] [] None None"

lemma sample_valid: "\<forall>b\<in>set sample_bindings. valid_binding (\<lambda>_. None) b"
proof -
  have "map (\<lambda>b. validate_shape (\<lambda>_. None) (mb_canonical b)) sample_bindings = [Inr (), Inr (), Inr ()]" by code_simp
  then show ?thesis by (simp add: sample_bindings_def valid_binding_def)
qed

lemma sample_resolves: "is_binding (resolve_metric sample_resolver ''avg_order'')" by code_simp

lemma resolution_is_explained_witness:
  "list_all (valid_binding (\<lambda>_. None)) sample_bindings \<and> resolvable (named sample_bindings) ''avg_order''"
proof -
  have "is_binding (resolve_metric (mk_resolver sample_bindings [] [] [] None None) ''avg_order'')"
    using sample_resolves by (simp add: sample_resolver_def)
  then show ?thesis using resolution_is_explained [OF sample_valid] sample_valid by (simp add: list_all_iff)
qed

lemma sample_resolvable: "resolvable (named sample_bindings) ''aov''"
proof -
  have v: "valid_index (\<lambda>_. None) (build_name_index sample_bindings)"
    by (rule valid_index_build) (rule sample_valid)
  have "is_binding (resolve_component (build_name_index sample_bindings) {} ''aov'')" by code_simp
  then have "resolvable (look_in (build_name_index sample_bindings)) ''aov''" by (simp add: explained_iff [OF v])
  moreover have "look_in (build_name_index sample_bindings) = named sample_bindings"
    by (rule ext) (rule look_in_build)
  ultimately show ?thesis by simp
qed

lemma names_of_a_binding_resolve_alike_witness:
  "resolvable (named sample_bindings) ''aov'' \<and>
   resolve_metric (mk_resolver sample_bindings [] [] [] None None) ''avg_order'' =
     resolve_metric (mk_resolver sample_bindings [] [] [] None None) ''aov''"
proof -
  have n: "named sample_bindings ''aov'' = [hd sample_bindings]" "named sample_bindings ''avg_order'' = [hd sample_bindings]"
    by code_simp+
  show ?thesis
    using names_of_a_binding_resolve_alike [OF sample_valid sample_resolvable n] sample_resolvable by blast
qed

text \<open>
  the leaves of a resolved metric, which are what the planner reads, are source-bound: each has
  the source its binding names, and its binding is the single active binding of some name.
\<close>

theorem resolved_leaves_are_sources:
  assumes "\<forall>b\<in>set bs. valid_binding dn b"
    and "resolve_metric (mk_resolver bs gs fin asserts ten rol) n = Inr (RBinding r)"
    and "l \<in> set (leaves r)"
  shows "leaf_of (named bs) l"
proof -
  have v: "valid_index dn (build_name_index bs)" using assms(1) by (rule valid_index_build)
  have "look_in (build_name_index bs) = named bs" by (rule ext) (rule look_in_build)
  moreover have "resolve_component (build_name_index bs) {} n = Inr (RBinding r)"
    using assms(2) by (simp add: resolve_metric_component mk_resolver_def)
  ultimately show ?thesis using resolved_leaves [OF v] assms(3) by metis
qed

lemma resolved_leaves_are_sources_witness:
  "\<exists>r l. resolve_metric (mk_resolver sample_bindings [] [] [] None None) ''avg_order'' = Inr (RBinding r) \<and>
    l \<in> set (leaves r) \<and> leaf_of (named sample_bindings) l"
proof -
  obtain r where r: "resolve_metric (mk_resolver sample_bindings [] [] [] None None) ''avg_order'' = Inr (RBinding r)"
    using sample_resolves by (auto simp: is_binding_iff sample_resolver_def)
  have "(case resolve_metric (mk_resolver sample_bindings [] [] [] None None) ''avg_order'' of
      Inr (RBinding r) \<Rightarrow> map rb_metric (leaves r) | _ \<Rightarrow> []) = [''revenue'', ''orders'']" by code_simp
  then have "leaves r \<noteq> []" using r by auto
  then have l: "hd (leaves r) \<in> set (leaves r)" by simp
  from resolved_leaves_are_sources [OF sample_valid r l] r l show ?thesis by blast
qed

text \<open>
  C35: the loader's duplicate check is exact, and what it accepts never resolves ambiguously: the
  bindings load exactly when no active name or alias occurs twice, and then no lookup, however deep
  in a composition, ends in \<^verbatim>\<open>Ambiguous\<close>.
\<close>

theorem loaded_bindings_are_unambiguous:
  assumes "\<forall>b\<in>snd ` set files. valid_binding dn b"
  shows "(load_metric_bindings files = Inr (map snd files) \<longleftrightarrow> distinct (active_names (map snd files))) \<and>
    (\<forall>bs n m cs. load_metric_bindings files = Inr bs \<longrightarrow>
      resolve_metric (mk_resolver bs gs fin asserts ten rol) n \<noteq> Inr (RAmbiguous m cs))"
proof -
  have iff: "load_metric_bindings files = Inr bs \<longleftrightarrow> bs = map snd files \<and> distinct (active_names bs)" for bs
    by (auto simp: load_metric_bindings_def rbind_Inr_iff check_loaded_ok)
  have "resolve_metric (mk_resolver bs gs fin asserts ten rol) n \<noteq> Inr (RAmbiguous m cs)"
    if bs: "bs = map snd files" "distinct (active_names bs)" for bs n m cs
  proof
    assume amb: "resolve_metric (mk_resolver bs gs fin asserts ten rol) n = Inr (RAmbiguous m cs)"
    have "valid_index dn (build_name_index bs)" using assms bs(1) by (intro valid_index_build) simp
    from resolve_component_explained [OF this, of "{}" n] amb
    have "length cs \<ge> 2" "mset cs = mset (look_in (build_name_index bs) m)"
      by (auto simp: explained_def resolve_metric_component mk_resolver_def)
    then have "length (named bs m) \<ge> 2" by (metis look_in_build size_mset)
    then show False using count_le_one [OF bs(2), of m] by (simp add: named_count)
  qed
  then show ?thesis using iff by auto
qed

definition sample_files :: "(string \<times> metric_binding) list" where
  "sample_files = zip [''a.yaml'', ''b.yaml'', ''c.yaml''] sample_bindings"

lemma loaded_bindings_are_unambiguous_witness:
  "load_metric_bindings sample_files = Inr sample_bindings \<and>
   resolve_metric (mk_resolver sample_bindings [] [] [] None None) ''aov'' \<noteq> Inr (RAmbiguous ''orders'' [])"
proof -
  have s: "snd ` set sample_files = set sample_bindings" "map snd sample_files = sample_bindings"
    by (simp_all add: sample_files_def sample_bindings_def)
  have v: "\<forall>b\<in>snd ` set sample_files. valid_binding (\<lambda>_. None) b" using sample_valid by (simp add: s)
  have "distinct (active_names sample_bindings)" by code_simp
  then show ?thesis using loaded_bindings_are_unambiguous [OF v] s(2) by metis
qed

text \<open>
  C1: role policies. For a validated policy the flattening of every role terminates, and the merged
  policy is the intended one: a metric is allowed exactly when some known role of the principal
  allows it and none denies it, a dimension likewise under its qualified or bare name, and raw SQL
  and tenancy exemption exactly when some role grants them. A role's own value for a field
  replaces its parent's, and a principal with no known role is allowed nothing.
\<close>

theorem role_policy_decides:
  assumes "validate_roles p = Inr ()" and "distinct (map fst (rp_roles p))"
    and "rs_roles r = Some p" and "\<not> pr_system_exempt pr"
  shows "\<exists>pol. authz_for r pr = Some (Inr pol) \<and>
    (\<forall>x. metric_allowed pol x \<longleftrightarrow>
      (\<exists>n\<in>set (known_roles p pr). role_has rd_metrics no_policy p n (\<lambda>a. allows a x)) \<and>
      (\<forall>n\<in>set (known_roles p pr). role_has rd_metrics no_policy p n (\<lambda>a. \<not> denies a x))) \<and>
    (\<forall>x. dimension_allowed pol x \<longleftrightarrow>
      (\<exists>n\<in>set (known_roles p pr). role_has rd_dimensions no_policy p n
         (\<lambda>a. allows a x \<or> allows a (after_last CHR ''.'' x))) \<and>
      (\<forall>n\<in>set (known_roles p pr). role_has rd_dimensions no_policy p n
         (\<lambda>a. \<not> denies a x \<and> \<not> denies a (after_last CHR ''.'' x)))) \<and>
    (ep_run_sql pol \<longleftrightarrow> (\<exists>n\<in>set (known_roles p pr). role_has rd_run_sql False p n (\<lambda>b. b))) \<and>
    (ep_tenancy_exempt pol \<longleftrightarrow> (\<exists>n\<in>set (known_roles p pr). role_has rd_tenancy_exempt False p n (\<lambda>b. b)))"
proof -
  obtain fs where a: "authz_for r pr = Some (Inr (merge_roles (known_roles p pr) fs)) \<or>
      known_roles p pr = [] \<and> fs = [] \<and> authz_for r pr = Some (Inr closed_policy)"
    and fs: "list_all2 (\<lambda>n f. chain_ends (rp_roles p) n \<and> flatten_role p n = Some (Inr f)) (known_roles p pr) fs"
    by (rule authz_for_merge [OF assms])
  obtain pol where pol: "authz_for r pr = Some (Inr pol)"
    "metric_allowed pol = metric_allowed (merge_roles (known_roles p pr) fs)"
    "dimension_allowed pol = dimension_allowed (merge_roles (known_roles p pr) fs)"
    "ep_run_sql pol = ep_run_sql (merge_roles (known_roles p pr) fs)"
    "ep_tenancy_exempt pol = ep_tenancy_exempt (merge_roles (known_roles p pr) fs)"
    using a closed_policy_is_merge by metis
  have ex: "(\<exists>n\<in>set (known_roles p pr). role_has rd_metrics no_policy p n P) \<longleftrightarrow> (\<exists>f\<in>set fs. P (fl_metrics f))"
    "(\<exists>n\<in>set (known_roles p pr). role_has rd_dimensions no_policy p n P) \<longleftrightarrow> (\<exists>f\<in>set fs. P (fl_dimensions f))"
    "(\<exists>n\<in>set (known_roles p pr). role_has rd_run_sql False p n Q) \<longleftrightarrow> (\<exists>f\<in>set fs. Q (fl_run_sql f))"
    "(\<exists>n\<in>set (known_roles p pr). role_has rd_tenancy_exempt False p n Q) \<longleftrightarrow> (\<exists>f\<in>set fs. Q (fl_tenancy_exempt f))"
    for P Q by (rule list_all2_bex [OF fs], simp add: role_has_flat)+
  have all: "(\<forall>n\<in>set (known_roles p pr). role_has rd_metrics no_policy p n P) \<longleftrightarrow> (\<forall>f\<in>set fs. P (fl_metrics f))"
    "(\<forall>n\<in>set (known_roles p pr). role_has rd_dimensions no_policy p n P) \<longleftrightarrow> (\<forall>f\<in>set fs. P (fl_dimensions f))"
    for P by (rule list_all2_ball [OF fs], simp add: role_has_flat)+
  show ?thesis
    by (rule exI [of _ pol]) (simp only: pol merged_policy ex all simp_thms)
qed

definition plain_role :: role_def where
  "plain_role = \<lparr>rd_inherits = None, rd_metrics = None, rd_dimensions = None, rd_knowledge = None,
     rd_run_sql = None, rd_tenancy_exempt = None, rd_masking = None\<rparr>"

text \<open>An analyst inherits the metrics of a viewer, who is denied one metric.\<close>

definition sample_roles :: role_policy where
  "sample_roles = \<lparr>rp_claim = ''roles'', rp_default_role = None,
     rp_roles = [(''viewer'', plain_role\<lparr>rd_metrics := Some \<lparr>ad_allow = None, ad_deny = [''margin'']\<rparr>\<rparr>),
       (''analyst'', plain_role\<lparr>rd_inherits := Some ''viewer'', rd_run_sql := Some True\<rparr>)]\<rparr>"

definition sample_principal :: principal where
  "sample_principal = \<lparr>pr_tenants = [], pr_roles = [''analyst''], pr_source = ''cli'', pr_system_exempt = False\<rparr>"

lemma sample_roles_inherit:
  "inherited rd_metrics (rp_roles sample_roles) ''analyst'' (Some \<lparr>ad_allow = None, ad_deny = [''margin'']\<rparr>)"
proof (rule inherited.parent [where r = "plain_role\<lparr>rd_inherits := Some ''viewer'', rd_run_sql := Some True\<rparr>"])
  show "inherited rd_metrics (rp_roles sample_roles) ''viewer'' (Some \<lparr>ad_allow = None, ad_deny = [''margin'']\<rparr>)"
    by (rule inherited.own [where r = "plain_role\<lparr>rd_metrics := Some \<lparr>ad_allow = None, ad_deny = [''margin'']\<rparr>\<rparr>"])
      (simp_all add: sample_roles_def)
qed (simp_all add: sample_roles_def plain_role_def)

lemma role_policy_decides_witness:
  "validate_roles sample_roles = Inr () \<and>
   (\<exists>pol. authz_for (sample_resolver\<lparr>rs_roles := Some sample_roles\<rparr>) sample_principal = Some (Inr pol) \<and>
     \<not> metric_allowed pol ''margin'' \<and> metric_allowed pol ''revenue'')"
proof -
  let ?v = "\<lparr>ad_allow = None, ad_deny = [''margin'']\<rparr>"
  have v: "validate_roles sample_roles = Inr ()" by code_simp
  have d: "distinct (map fst (rp_roles sample_roles))" by code_simp
  have k: "known_roles sample_roles sample_principal = [''analyst'']" by code_simp
  have has: "role_has rd_metrics no_policy sample_roles ''analyst'' P \<longleftrightarrow> P ?v" for P
    using sample_roles_inherit by (auto simp: role_has_def field_or_def dest: inherited_unique)
  have ad: "denies ?v ''margin''" "\<not> denies ?v ''revenue''" "allows ?v ''revenue''"
    by (simp_all add: denies_def allows_def allow_set_def)
  have p: "\<not> pr_system_exempt sample_principal" by (simp add: sample_principal_def)
  have r: "rs_roles (sample_resolver\<lparr>rs_roles := Some sample_roles\<rparr>) = Some sample_roles" by simp
  show ?thesis
    using role_policy_decides [OF v d r p] v ad unfolding k by (auto simp: has)
qed

end
