(* ===== verification/Feedback.thy ===== *)
theory Feedback
  imports Resolver Periods
begin

text \<open>
  \<^verbatim>\<open>src/canonic/feedback/\<close>: the history of outcome marks joined to the bindings they were served
  against, the gate that turns a pattern of marks into evidence, the trust cap, the audit report,
  and the snapshot of assertion verdicts. \<^verbatim>\<open>datetime.fromisoformat\<close> (\<open>isoparse\<close>) and the fingerprint
  of a payload are parameters; the serving clock is an argument.
\<close>

section \<open>Events\<close>

datatype outcome_verdict = CORRECT | INCORRECT
datatype outcome_reason_code = WRONG_DEFINITION | WRONG_DATA | WRONG_INTERPRETATION | UNSPECIFIED
datatype outcome_marked_by = ANALYST | AGENT | CI

record answer_event =
  ae_query_hash :: string
  ae_resolved :: "(string, (string, string) dict) dict"

record answer_outcome_event =
  oe_ts :: string
  oe_ref :: string
  oe_verdict :: outcome_verdict
  oe_reason_code :: "outcome_reason_code option"
  oe_marked_by :: outcome_marked_by

text \<open>\<^verbatim>\<open>_default_reason_code\<close>: an incorrect mark without a reason is unspecified.\<close>

definition default_reason_code :: "answer_outcome_event \<Rightarrow> answer_outcome_event" where
  "default_reason_code e =
     (if oe_verdict e = INCORRECT \<and> oe_reason_code e = None then e\<lparr>oe_reason_code := Some UNSPECIFIED\<rparr> else e)"

definition latest_outcome_by_ref :: "answer_outcome_event list \<Rightarrow> (string, answer_outcome_event) dict" where
  "latest_outcome_by_ref es = dict_of (map (\<lambda>e. (oe_ref e, e)) es)"

section \<open>Outcome history\<close>

type_synonym iso_reader = "string \<Rightarrow> (datetime \<times> int option) option"

text \<open>The moment an ISO timestamp names, a naive one read as UTC.\<close>

definition parse_ts :: "iso_reader \<Rightarrow> string \<Rightarrow> int res" where
  "parse_ts isoparse ts =
     (case isoparse ts of
        None \<Rightarrow> Inl ValueError
      | Some (t, off) \<Rightarrow> Inr (instant t - (case off of None \<Rightarrow> 0 | Some k \<Rightarrow> k)))"

record outcome_record =
  or_ts :: string
  or_binding :: string
  or_verdict :: outcome_verdict
  or_reason_code :: "outcome_reason_code option"
  or_marked_by :: outcome_marked_by
  or_ref :: string

type_synonym outcome_history = "(string, outcome_record list) dict"

definition mk_history :: "outcome_record list \<Rightarrow> outcome_history" where
  "mk_history rs = fold (\<lambda>r. dict_append (or_binding r) r) rs []"

definition outcome_records :: "string \<Rightarrow> answer_outcome_event \<Rightarrow> answer_event \<Rightarrow> outcome_record list" where
  "outcome_records ref e a =
     map (\<lambda>b. \<lparr>or_ts = oe_ts e, or_binding = b, or_verdict = oe_verdict e, or_reason_code = oe_reason_code e,
           or_marked_by = oe_marked_by e, or_ref = ref\<rparr>)
       (map snd (case map_of (ae_resolved a) ''metrics'' of None \<Rightarrow> [] | Some d \<Rightarrow> d))"

definition from_events :: "answer_event list \<Rightarrow> answer_outcome_event list \<Rightarrow> outcome_history" where
  "from_events answers outcomes =
     (let by_hash = dict_of (map (\<lambda>a. (ae_query_hash a, a)) answers)
      in mk_history (concat (map (\<lambda>(ref, e).
           case map_of by_hash ref of None \<Rightarrow> [] | Some a \<Rightarrow> outcome_records ref e a)
         (latest_outcome_by_ref outcomes))))"

definition bindings :: "outcome_history \<Rightarrow> string list" where
  "bindings h = sort (map fst h)"

definition records_for :: "outcome_history \<Rightarrow> string \<Rightarrow> outcome_record list" where
  "records_for h b = get_list h b"

fun rfilter :: "('a \<Rightarrow> bool res) \<Rightarrow> 'a list \<Rightarrow> 'a list res" where
  "rfilter p [] = Inr []"
| "rfilter p (x # xs) = rbind (p x) (\<lambda>b. rbind (rfilter p xs) (\<lambda>ys. Inr (if b then x # ys else ys)))"

text \<open>\<^verbatim>\<open>datetime.now(UTC) - timedelta(days=window_days)\<close>, as a moment.\<close>

definition cutoff :: "datetime \<Rightarrow> nat \<Rightarrow> int res" where
  "cutoff now days = rbind (add_micros now (- (int days * day_micros))) (\<lambda>t. Inr (instant t))"

definition is_wrong_definition :: "outcome_record \<Rightarrow> bool" where
  "is_wrong_definition r \<longleftrightarrow> or_reason_code r = Some WRONG_DEFINITION"

definition wrong_definition_records :: "iso_reader \<Rightarrow> datetime \<Rightarrow> outcome_history \<Rightarrow> string \<Rightarrow> nat option \<Rightarrow> outcome_record list res" where
  "wrong_definition_records isoparse now h b window =
     (let records = filter is_wrong_definition (get_list h b)
      in case window of
           None \<Rightarrow> Inr records
         | Some days \<Rightarrow>
             rbind (cutoff now days) (\<lambda>c.
               rfilter (\<lambda>r. rbind (parse_ts isoparse (or_ts r)) (\<lambda>t. Inr (c \<le> t))) records))"

definition wrong_definition_count :: "iso_reader \<Rightarrow> datetime \<Rightarrow> outcome_history \<Rightarrow> string \<Rightarrow> nat \<Rightarrow> nat res" where
  "wrong_definition_count isoparse now h b days =
     rbind (wrong_definition_records isoparse now h b (Some days)) (\<lambda>rs. Inr (length rs))"

definition distinct_markers :: "iso_reader \<Rightarrow> datetime \<Rightarrow> outcome_history \<Rightarrow> string \<Rightarrow> nat \<Rightarrow> nat res" where
  "distinct_markers isoparse now h b days =
     rbind (wrong_definition_records isoparse now h b (Some days)) (\<lambda>rs. Inr (card (or_marked_by ` set rs)))"

definition wrong_definition_refs :: "iso_reader \<Rightarrow> datetime \<Rightarrow> outcome_history \<Rightarrow> string \<Rightarrow> nat \<Rightarrow> string list res" where
  "wrong_definition_refs isoparse now h b days =
     rbind (wrong_definition_records isoparse now h b (Some days)) (\<lambda>rs. Inr (sorted_set (map or_ref rs)))"

text \<open>\<^verbatim>\<open>max(records, key=...)\<close>: the first of the largest.\<close>

fun max_by :: "('a \<Rightarrow> 'b::linorder) \<Rightarrow> 'a \<Rightarrow> 'a list \<Rightarrow> 'a" where
  "max_by f x [] = x"
| "max_by f x (y # ys) = max_by f (if f x < f y then y else x) ys"

definition is_capped :: "iso_reader \<Rightarrow> datetime \<Rightarrow> outcome_history \<Rightarrow> string \<Rightarrow> nat \<Rightarrow> bool res" where
  "is_capped isoparse now h b days =
     rbind (wrong_definition_records isoparse now h b None) (\<lambda>wrong.
       case wrong of
         [] \<Rightarrow> Inr False
       | r # rs \<Rightarrow>
           (let latest_wrong = max_by or_ts r rs
            in rbind (parse_ts isoparse (or_ts latest_wrong)) (\<lambda>t.
               rbind (cutoff now days) (\<lambda>c.
                 if t < c then Inr False
                 else Inr (\<not> (\<exists>x\<in>set (get_list h b). or_verdict x = CORRECT \<and> or_ts latest_wrong < or_ts x))))))"

section \<open>Evidence and the audit report\<close>

record feedback_config =
  fc_pattern_min_count :: nat
  fc_pattern_window_days :: nat
  fc_pattern_min_markers :: nat
  fc_trust_cap_window_days :: nat

record evidence_item =
  ev_metric :: string
  ev_binding :: string
  ev_count :: nat
  ev_window_days :: nat
  ev_distinct_markers :: nat
  ev_refs :: "string list"
  ev_fingerprint :: string

text \<open>\<^verbatim>\<open>_metric_for_binding\<close>, over the loaded bindings; the split is at the first dot.\<close>

fun metric_named :: "string \<Rightarrow> string \<Rightarrow> metric_binding list \<Rightarrow> string option" where
  "metric_named source meas [] = None"
| "metric_named source meas (mb # mbs) =
     (let c = mb_canonical mb
      in if mb_status mb \<noteq> ACTIVE then metric_named source meas mbs
         else if cr_source c \<noteq> Some source then metric_named source meas mbs
         else (case column_field (spec_for (cr_kind c)) c of
             None \<Rightarrow> metric_named source meas mbs
           | Some cand \<Rightarrow> if cand = meas then Some (mb_metric mb) else metric_named source meas mbs))"

definition metric_for_binding :: "metric_binding list \<Rightarrow> string \<Rightarrow> string option" where
  "metric_for_binding mbs b =
     (if CHR ''.'' \<notin> set b then None
      else (case partition_on CHR ''.'' b of (source, _, meas) \<Rightarrow> metric_named source meas mbs))"

definition binding_evidence :: "(string \<Rightarrow> string list \<Rightarrow> string) \<Rightarrow> iso_reader \<Rightarrow> datetime \<Rightarrow> metric_binding list \<Rightarrow>
    outcome_history \<Rightarrow> feedback_config \<Rightarrow> string \<Rightarrow> evidence_item option res" where
  "binding_evidence fingerprint isoparse now mbs h cfg b =
     rbind (wrong_definition_count isoparse now h b (fc_pattern_window_days cfg)) (\<lambda>count.
       if count < fc_pattern_min_count cfg then Inr None
       else rbind (distinct_markers isoparse now h b (fc_pattern_window_days cfg)) (\<lambda>markers.
         if markers < fc_pattern_min_markers cfg then Inr None
         else (case metric_for_binding mbs b of
             None \<Rightarrow> Inr None
           | Some metric \<Rightarrow>
               rbind (wrong_definition_refs isoparse now h b (fc_pattern_window_days cfg)) (\<lambda>refs.
                 Inr (Some \<lparr>ev_metric = metric, ev_binding = b, ev_count = count,
                   ev_window_days = fc_pattern_window_days cfg, ev_distinct_markers = markers, ev_refs = refs,
                   ev_fingerprint = fingerprint metric refs\<rparr>)))))"

definition outcome_evidence :: "(string \<Rightarrow> string list \<Rightarrow> string) \<Rightarrow> iso_reader \<Rightarrow> datetime \<Rightarrow> metric_binding list \<Rightarrow>
    outcome_history \<Rightarrow> feedback_config \<Rightarrow> evidence_item list res" where
  "outcome_evidence fingerprint isoparse now mbs h cfg =
     collect (binding_evidence fingerprint isoparse now mbs h cfg) (bindings h)"

record feedback_entry =
  fe_binding :: string
  fe_count :: nat
  fe_markers :: nat
  fe_gated :: bool
  fe_capped :: bool
  fe_refs :: "string list"

definition report_entry :: "iso_reader \<Rightarrow> datetime \<Rightarrow> outcome_history \<Rightarrow> feedback_config \<Rightarrow> string \<Rightarrow> feedback_entry option res" where
  "report_entry isoparse now h cfg b =
     rbind (wrong_definition_count isoparse now h b (fc_pattern_window_days cfg)) (\<lambda>count.
       if count = 0 then Inr None
       else rbind (distinct_markers isoparse now h b (fc_pattern_window_days cfg)) (\<lambda>markers.
         rbind (is_capped isoparse now h b (fc_trust_cap_window_days cfg)) (\<lambda>capped.
         rbind (wrong_definition_refs isoparse now h b (fc_pattern_window_days cfg)) (\<lambda>refs.
           Inr (Some \<lparr>fe_binding = b, fe_count = count, fe_markers = markers,
             fe_gated = (fc_pattern_min_count cfg \<le> count \<and> fc_pattern_min_markers cfg \<le> markers),
             fe_capped = capped, fe_refs = refs\<rparr>)))))"

definition build_feedback_report :: "iso_reader \<Rightarrow> datetime \<Rightarrow> outcome_history \<Rightarrow> feedback_config \<Rightarrow> feedback_entry list res" where
  "build_feedback_report isoparse now h cfg =
     rbind (collect (report_entry isoparse now h cfg) (bindings h)) (\<lambda>es.
       Inr (sort_key (\<lambda>e. (- int (fe_count e), fe_binding e)) es))"

section \<open>Assertion verdicts\<close>

record assertion_record =
  ar_ts :: string
  ar_assertion_id :: string
  ar_passed :: bool

record assertion_outcome =
  ao_assertion_id :: string
  ao_passed :: bool
  ao_bindings :: "string list"

type_synonym assertion_history = "(string, assertion_record) dict"

definition status_for :: "assertion_history \<Rightarrow> string \<Rightarrow> assertion_record option" where
  "status_for h b = map_of h b"

text \<open>One binding of one outcome, merged into the verdicts so far: the worst verdict wins.\<close>

definition merge_outcome :: "string \<Rightarrow> assertion_outcome \<Rightarrow> string \<Rightarrow> assertion_history \<Rightarrow> assertion_history" where
  "merge_outcome now out b h =
     (case map_of h b of
        None \<Rightarrow> AList.update b \<lparr>ar_ts = now, ar_assertion_id = ao_assertion_id out, ar_passed = ao_passed out\<rparr> h
      | Some existing \<Rightarrow>
          (if \<not> ao_passed out \<and> ar_passed existing then
             AList.update b \<lparr>ar_ts = now, ar_assertion_id = ao_assertion_id out, ar_passed = False\<rparr> h
           else if \<not> ao_passed out \<and> \<not> ar_passed existing then
             AList.update b \<lparr>ar_ts = now, ar_assertion_id = ar_assertion_id existing, ar_passed = False\<rparr> h
           else h))"

definition write_assertion_results :: "string \<Rightarrow> assertion_outcome list \<Rightarrow> assertion_history" where
  "write_assertion_results now outs = fold (\<lambda>out h. fold (merge_outcome now out) (ao_bindings out) h) outs []"

section \<open>The trust cap\<close>

lemma max_by_spec:
  "max_by f x xs \<in> set (x # xs) \<and> (\<forall>y\<in>set (x # xs). f y \<le> f (max_by f x xs))"
proof (induction xs arbitrary: x)
  case (Cons y ys)
  let ?z = "if f x < f y then y else x"
  have "f x \<le> f ?z" "f y \<le> f ?z" "?z \<in> {x, y}" by auto
  with Cons.IH [of ?z] show ?case by (auto simp del: max_by.simps(1) intro: order_trans)
qed simp

text \<open>The moment of a record whose timestamp can be read.\<close>

definition moment :: "iso_reader \<Rightarrow> outcome_record \<Rightarrow> int" where
  "moment isoparse r = (case parse_ts isoparse (or_ts r) of Inr t \<Rightarrow> t | Inl _ \<Rightarrow> 0)"

text \<open>Timestamps written in one form: they can be read, and sort as text the way they sort in time.\<close>

definition uniform_stamps :: "iso_reader \<Rightarrow> outcome_record list \<Rightarrow> bool" where
  "uniform_stamps isoparse rs \<longleftrightarrow>
     (\<forall>r\<in>set rs. is_ok (parse_ts isoparse (or_ts r))) \<and>
     (\<forall>r\<in>set rs. \<forall>s\<in>set rs. or_ts r < or_ts s \<longleftrightarrow> moment isoparse r < moment isoparse s)"

lemma is_capped_iff:
  assumes "uniform_stamps isoparse (records_for h b)" and "cutoff now days = Inr c"
  shows "is_capped isoparse now h b days =
    Inr (\<exists>w\<in>set (records_for h b). is_wrong_definition w \<and> c \<le> moment isoparse w \<and>
      (\<forall>x\<in>set (records_for h b). or_verdict x = CORRECT \<longrightarrow> moment isoparse x \<le> moment isoparse w))"
proof (cases "filter is_wrong_definition (get_list h b)")
  case Nil
  then show ?thesis by (auto simp: is_capped_def wrong_definition_records_def Let_def records_for_def filter_empty_conv)
next
  case (Cons r rs)
  define L where "L = max_by or_ts r rs"
  let ?R = "set (records_for h b)" and ?m = "moment isoparse"
  have wrong: "set (r # rs) = {w \<in> ?R. is_wrong_definition w}"
    unfolding Cons [symmetric] records_for_def by simp
  have L: "L \<in> set (r # rs)" "\<forall>y\<in>set (r # rs). or_ts y \<le> or_ts L"
    using max_by_spec [of or_ts r rs] unfolding L_def by blast+
  have LR: "L \<in> ?R" "is_wrong_definition L" using L(1) unfolding wrong by simp_all
  have order: "or_ts x < or_ts y \<longleftrightarrow> ?m x < ?m y" if "x \<in> ?R" "y \<in> ?R" for x y
    using assms(1) that by (simp add: uniform_stamps_def)
  have latest: "?m w \<le> ?m L" if "w \<in> ?R" "is_wrong_definition w" for w
    using L(2) that order [OF LR(1) that(1)] unfolding wrong by (auto simp: not_less [symmetric])
  have t: "parse_ts isoparse (or_ts L) = Inr (?m L)"
    using assms(1) LR(1) by (auto simp: uniform_stamps_def moment_def is_ok_iff split: sum.splits)
  have "is_capped isoparse now h b days =
      Inr (c \<le> ?m L \<and> \<not> (\<exists>x\<in>?R. or_verdict x = CORRECT \<and> or_ts L < or_ts x))"
    using Cons t assms(2) by (simp add: is_capped_def wrong_definition_records_def Let_def L_def records_for_def)
  moreover have "(\<exists>x\<in>?R. or_verdict x = CORRECT \<and> or_ts L < or_ts x) \<longleftrightarrow> (\<exists>x\<in>?R. or_verdict x = CORRECT \<and> ?m L < ?m x)"
    using order [OF LR(1)] by blast
  moreover have "(c \<le> ?m L \<and> \<not> (\<exists>x\<in>?R. or_verdict x = CORRECT \<and> ?m L < ?m x)) \<longleftrightarrow>
      (\<exists>w\<in>?R. is_wrong_definition w \<and> c \<le> ?m w \<and> (\<forall>x\<in>?R. or_verdict x = CORRECT \<longrightarrow> ?m x \<le> ?m w))"
    using LR latest by (meson not_less order_trans)
  ultimately show ?thesis by simp
qed

section \<open>Assertion snapshots\<close>

text \<open>The verdict of the outcomes that cover one binding, in run order.\<close>

definition verdict_of :: "string \<Rightarrow> assertion_outcome list \<Rightarrow> assertion_record option" where
  "verdict_of now outs =
     (case outs of
        [] \<Rightarrow> None
      | x # _ \<Rightarrow>
          (case find (\<lambda>y. \<not> ao_passed y) outs of
             None \<Rightarrow> Some \<lparr>ar_ts = now, ar_assertion_id = ao_assertion_id x, ar_passed = True\<rparr>
           | Some y \<Rightarrow> Some \<lparr>ar_ts = now, ar_assertion_id = ao_assertion_id y, ar_passed = False\<rparr>))"

definition covering :: "string \<Rightarrow> assertion_outcome list \<Rightarrow> assertion_outcome list" where
  "covering b outs = filter (\<lambda>x. b \<in> set (ao_bindings x)) outs"

lemma find_append: "find P (xs @ ys) = (case find P xs of None \<Rightarrow> find P ys | Some x \<Rightarrow> Some x)"
  by (induction xs) auto

lemma merge_other: "b \<noteq> b' \<Longrightarrow> map_of (merge_outcome now x b' h) b = map_of h b"
  by (auto simp: merge_outcome_def update_conv' split: option.splits)

lemma verdict_snoc:
  "verdict_of now (outs @ [x]) =
     (case verdict_of now outs of
        None \<Rightarrow> Some \<lparr>ar_ts = now, ar_assertion_id = ao_assertion_id x, ar_passed = ao_passed x\<rparr>
      | Some e \<Rightarrow> Some (if \<not> ao_passed x \<and> ar_passed e
          then \<lparr>ar_ts = now, ar_assertion_id = ao_assertion_id x, ar_passed = False\<rparr> else e))"
  by (cases outs) (auto simp: verdict_of_def find_append split: option.splits)

lemma verdict_ts: "verdict_of now outs = Some e \<Longrightarrow> ar_ts e = now"
  by (auto simp: verdict_of_def split: list.splits option.splits)

lemma merge_same:
  assumes "map_of h b = verdict_of now outs"
  shows "map_of (merge_outcome now x b h) b = verdict_of now (outs @ [x])"
proof (cases "verdict_of now outs")
  case (Some e)
  then have "ar_ts e = now" by (rule verdict_ts)
  then show ?thesis using Some assms by (cases e) (auto simp: merge_outcome_def update_conv' verdict_snoc)
qed (use assms in \<open>simp add: merge_outcome_def update_conv' verdict_snoc\<close>)

lemma merge_again:
  assumes "map_of h b = verdict_of now (outs @ [x])"
  shows "map_of (merge_outcome now x b h) b = verdict_of now (outs @ [x])"
proof -
  have "verdict_of now ((outs @ [x]) @ [x]) = verdict_of now (outs @ [x])"
    by (simp only: verdict_snoc split: option.splits) auto
  with merge_same [OF assms, of x] show ?thesis by simp
qed

lemma merge_bindings:
  assumes "map_of h b = verdict_of now outs"
  shows "map_of (fold (merge_outcome now x) bs h) b =
      (if b \<in> set bs then verdict_of now (outs @ [x]) else verdict_of now outs)"
proof -
  have again: "map_of h b = verdict_of now (outs @ [x]) \<Longrightarrow>
      map_of (fold (merge_outcome now x) bs h) b = verdict_of now (outs @ [x])" for h bs
  proof (induction bs arbitrary: h)
    case (Cons a bs)
    have "map_of (merge_outcome now x a h) b = verdict_of now (outs @ [x])"
      using Cons.prems merge_again [OF Cons.prems] merge_other [of b a] by (cases "b = a") auto
    then show ?case using Cons.IH by simp
  qed simp
  show ?thesis
    using assms
  proof (induction bs arbitrary: h)
    case (Cons a bs)
    show ?case
    proof (cases "a = b")
      case True
      then show ?thesis using again [OF merge_same [OF Cons.prems]] by simp
    next
      case False
      then have "map_of (merge_outcome now x a h) b = verdict_of now outs" using Cons.prems merge_other by metis
      then show ?thesis using Cons.IH False by simp
    qed
  qed simp
qed

lemma write_assertion_results_verdict:
  "map_of (write_assertion_results now outs) b = verdict_of now (covering b outs)"
proof (induction outs rule: rev_induct)
  case (snoc x outs)
  from merge_bindings [OF this, of x "ao_bindings x"] show ?case
    by (simp add: write_assertion_results_def covering_def)
qed (simp add: write_assertion_results_def covering_def verdict_of_def)

section \<open>Quarantine\<close>

text \<open>The marks that may act: a wrong definition raises the cap, a correct answer lifts it.\<close>

definition acting :: "outcome_record \<Rightarrow> bool" where
  "acting r \<longleftrightarrow> is_wrong_definition r \<or> or_verdict r = CORRECT"

definition quarantine :: "outcome_history \<Rightarrow> outcome_history" where
  "quarantine h = map (\<lambda>(b, rs). (b, filter acting rs)) h"

lemma get_list_quarantine: "get_list (quarantine h) b = filter acting (get_list h b)"
  by (induction h) (auto simp: quarantine_def get_list_def)

lemma bindings_quarantine: "bindings (quarantine h) = bindings h"
  by (simp add: bindings_def quarantine_def comp_def case_prod_unfold)

lemma wrong_records_quarantine:
  "wrong_definition_records isoparse now (quarantine h) b w = wrong_definition_records isoparse now h b w"
proof -
  have "filter is_wrong_definition (filter acting rs) = filter is_wrong_definition rs" for rs
    by (induction rs) (auto simp: acting_def)
  then show ?thesis by (simp add: wrong_definition_records_def get_list_quarantine)
qed

lemma is_capped_quarantine: "is_capped isoparse now (quarantine h) b days = is_capped isoparse now h b days"
proof -
  have "(\<exists>x\<in>set (get_list (quarantine h) b). or_verdict x = CORRECT \<and> P x) \<longleftrightarrow>
      (\<exists>x\<in>set (get_list h b). or_verdict x = CORRECT \<and> P x)" for P
    by (auto simp: get_list_quarantine acting_def)
  then show ?thesis unfolding is_capped_def wrong_records_quarantine by presburger
qed

lemmas quarantine_simps = wrong_definition_count_def distinct_markers_def wrong_definition_refs_def
  wrong_records_quarantine is_capped_quarantine bindings_quarantine

lemma evidence_of_entry:
  assumes "report_entry isoparse now h cfg x = Inr r" and "1 \<le> fc_pattern_min_count cfg"
  shows "binding_evidence fp isoparse now mbs h cfg x = Inr (Some i) \<longleftrightarrow>
    (\<exists>e. report_entry isoparse now h cfg x = Inr (Some e) \<and> fe_gated e \<and>
      metric_for_binding mbs x = Some (ev_metric i) \<and>
      i = \<lparr>ev_metric = ev_metric i, ev_binding = x, ev_count = fe_count e, ev_window_days = fc_pattern_window_days cfg,
        ev_distinct_markers = fe_markers e, ev_refs = fe_refs e, ev_fingerprint = fp (ev_metric i) (fe_refs e)\<rparr>)"
proof -
  let ?w = "fc_pattern_window_days cfg"
  obtain n where n: "wrong_definition_count isoparse now h x ?w = Inr n"
    using assms(1) by (auto simp: report_entry_def rbind_Inr_iff)
  show ?thesis
  proof (cases "n = 0")
    case True
    then have "report_entry isoparse now h cfg x = Inr None" "binding_evidence fp isoparse now mbs h cfg x = Inr None"
      using n assms(2) by (simp_all add: report_entry_def binding_evidence_def)
    then show ?thesis by simp
  next
    case False
    then obtain k c rf where k: "distinct_markers isoparse now h x ?w = Inr k"
      "is_capped isoparse now h x (fc_trust_cap_window_days cfg) = Inr c"
      "wrong_definition_refs isoparse now h x ?w = Inr rf"
      using assms(1) n by (auto simp: report_entry_def rbind_Inr_iff)
    let ?e = "\<lparr>fe_binding = x, fe_count = n, fe_markers = k,
      fe_gated = (fc_pattern_min_count cfg \<le> n \<and> fc_pattern_min_markers cfg \<le> k), fe_capped = c, fe_refs = rf\<rparr>"
    have re: "report_entry isoparse now h cfg x = Inr (Some ?e)"
      using False n k by (simp add: report_entry_def)
    have be: "binding_evidence fp isoparse now mbs h cfg x =
        (if fe_gated ?e then (case metric_for_binding mbs x of None \<Rightarrow> Inr None | Some m \<Rightarrow>
           Inr (Some \<lparr>ev_metric = m, ev_binding = x, ev_count = n, ev_window_days = ?w, ev_distinct_markers = k,
             ev_refs = rf, ev_fingerprint = fp m rf\<rparr>)) else Inr None)"
      using n k by (auto simp: binding_evidence_def not_less split: option.splits)
    show ?thesis unfolding re be by (cases i) (auto split: option.splits)
  qed
qed

section \<open>Properties\<close>

text \<open>
  The attribution safeguard. Marks that blame the data, the reading of the question or nothing
  in particular never act: dropping them from the history changes no trust cap, no evidence and no
  line of the audit report.
\<close>

theorem quarantined_marks_never_act:
  "is_capped isoparse now (quarantine h) b days = is_capped isoparse now h b days \<and>
   outcome_evidence fp isoparse now mbs (quarantine h) cfg = outcome_evidence fp isoparse now mbs h cfg \<and>
   build_feedback_report isoparse now (quarantine h) cfg = build_feedback_report isoparse now h cfg"
proof -
  have "binding_evidence fp isoparse now mbs (quarantine h) cfg = binding_evidence fp isoparse now mbs h cfg"
    unfolding fun_eq_iff binding_evidence_def quarantine_simps by simp
  moreover have "report_entry isoparse now (quarantine h) cfg = report_entry isoparse now h cfg"
    unfolding fun_eq_iff report_entry_def quarantine_simps by simp
  ultimately show ?thesis
    by (simp add: outcome_evidence_def build_feedback_report_def quarantine_simps)
qed

text \<open>
  C36: with timestamps written in one form, a binding is capped exactly when some wrong-definition mark
  on it lies inside the window and no correct mark is later than it, in time. A confirmed fix thus
  lifts the cap at once, and the window lifts it otherwise.
\<close>

theorem cap_follows_latest_mark:
  assumes "uniform_stamps isoparse (records_for h b)" and "cutoff now days = Inr c"
  shows "is_capped isoparse now h b days =
    Inr (\<exists>w\<in>set (records_for h b). is_wrong_definition w \<and> c \<le> moment isoparse w \<and>
      (\<forall>x\<in>set (records_for h b). or_verdict x = CORRECT \<longrightarrow> moment isoparse x \<le> moment isoparse w))"
  using assms by (rule is_capped_iff)

definition sample_iso :: iso_reader where
  "sample_iso s =
     (if s = ''2024-05-01T00:00:00+00:00'' then Some (midnight (Date 2024 5 1), Some 0)
      else if s = ''2024-05-02T00:00:00+00:00'' then Some (midnight (Date 2024 5 2), Some 0) else None)"

definition sample_mark :: "string \<Rightarrow> outcome_verdict \<Rightarrow> outcome_reason_code option \<Rightarrow> outcome_record" where
  "sample_mark ts v rc = \<lparr>or_ts = ts, or_binding = ''orders.revenue'', or_verdict = v, or_reason_code = rc,
     or_marked_by = ANALYST, or_ref = ts\<rparr>"

definition sample_history :: outcome_history where
  "sample_history = mk_history
     [sample_mark ''2024-05-02T00:00:00+00:00'' INCORRECT (Some WRONG_DEFINITION),
      sample_mark ''2024-05-01T00:00:00+00:00'' CORRECT None]"

definition sample_now :: datetime where
  "sample_now = midnight (Date 2024 6 1)"

lemma cap_follows_latest_mark_witness:
  "uniform_stamps sample_iso (records_for sample_history ''orders.revenue'') \<and>
   is_capped sample_iso sample_now sample_history ''orders.revenue'' 90 = Inr True"
proof -
  let ?w = "sample_mark ''2024-05-02T00:00:00+00:00'' INCORRECT (Some WRONG_DEFINITION)"
    and ?x = "sample_mark ''2024-05-01T00:00:00+00:00'' CORRECT None"
  have r: "records_for sample_history ''orders.revenue'' = [?w, ?x]" by code_simp
  have u: "uniform_stamps sample_iso (records_for sample_history ''orders.revenue'')" by code_simp
  have m: "moment sample_iso ?x \<le> moment sample_iso ?w" by code_simp
  obtain c where c: "cutoff sample_now 90 = Inr c" "c \<le> moment sample_iso ?w"
  proof -
    have "(case cutoff sample_now 90 of Inr c \<Rightarrow> c \<le> moment sample_iso ?w | Inl _ \<Rightarrow> False)" by code_simp
    then show ?thesis using that by (auto split: sum.splits)
  qed
  have w: "is_wrong_definition ?w" "or_verdict ?w = INCORRECT" by code_simp+
  show ?thesis using cap_follows_latest_mark [OF u c(1)] u c(2) m w unfolding r by auto
qed

text \<open>
  The snapshot of a harness run is worst-wins. A binding has a verdict exactly when some outcome
  covers it; the verdict passes exactly when every covering outcome passed, and it carries the
  identifier of a covering assertion with that very verdict, so a failure names a failing assertion.
\<close>

theorem assertion_snapshot_is_worst_wins:
  "case status_for (write_assertion_results now outs) b of
     None \<Rightarrow> (\<forall>x\<in>set outs. b \<notin> set (ao_bindings x))
   | Some r \<Rightarrow>
       ar_ts r = now \<and>
       (ar_passed r \<longleftrightarrow> (\<forall>x\<in>set outs. b \<in> set (ao_bindings x) \<longrightarrow> ao_passed x)) \<and>
       (\<exists>x\<in>set outs. b \<in> set (ao_bindings x) \<and> ao_passed x = ar_passed r \<and> ar_assertion_id r = ao_assertion_id x)"
proof -
  have mem: "x \<in> set (covering b outs) \<longleftrightarrow> x \<in> set outs \<and> b \<in> set (ao_bindings x)" for x
    by (simp add: covering_def)
  show ?thesis
  proof (cases "covering b outs")
    case Nil
    then show ?thesis
      by (auto simp: status_for_def write_assertion_results_verdict verdict_of_def covering_def filter_empty_conv)
  next
    case (Cons a as)
    have first: "a \<in> set outs" "b \<in> set (ao_bindings a)" using mem [of a] Cons by simp_all
    show ?thesis
    proof (cases "find (\<lambda>y. \<not> ao_passed y) (covering b outs)")
      case None
      then have "\<forall>x\<in>set outs. b \<in> set (ao_bindings x) \<longrightarrow> ao_passed x" using mem by (simp add: find_None_iff)
      with None first show ?thesis
        unfolding status_for_def write_assertion_results_verdict verdict_of_def using Cons by auto
    next
      case (Some y)
      then have "y \<in> set (covering b outs)" "\<not> ao_passed y" by (auto simp: find_Some_iff)
      with Some show ?thesis
        unfolding status_for_def write_assertion_results_verdict verdict_of_def using Cons mem by auto
    qed
  qed
qed

definition sample_run :: "assertion_outcome list" where
  "sample_run = [\<lparr>ao_assertion_id = ''a'', ao_passed = True, ao_bindings = [''s.m'']\<rparr>,
     \<lparr>ao_assertion_id = ''b'', ao_passed = False, ao_bindings = [''s.m'']\<rparr>]"

lemma assertion_snapshot_is_worst_wins_witness:
  "\<exists>r. status_for (write_assertion_results ''t'' sample_run) ''s.m'' = Some r \<and> \<not> ar_passed r"
  using assertion_snapshot_is_worst_wins [where now = "''t''" and outs = sample_run and b = "''s.m''"]
  by (cases "status_for (write_assertion_results ''t'' sample_run) ''s.m''") (simp_all add: sample_run_def)

text \<open>
  Evidence is minted exactly for the patterns the audit report shows as gated, among the bindings
  an active metric still stands behind, with the same counts and references.
\<close>

theorem evidence_is_what_the_report_gates:
  assumes "outcome_evidence fp isoparse now mbs h cfg = Inr items"
    and "build_feedback_report isoparse now h cfg = Inr entries" and "1 \<le> fc_pattern_min_count cfg"
  shows "(\<exists>i\<in>set items. ev_binding i = b \<and> ev_metric i = m \<and> ev_count i = n \<and> ev_refs i = refs) \<longleftrightarrow>
    (\<exists>e\<in>set entries. fe_binding e = b \<and> fe_gated e \<and> fe_count e = n \<and> fe_refs e = refs) \<and>
    metric_for_binding mbs b = Some m"
proof -
  obtain es where es: "collect (report_entry isoparse now h cfg) (bindings h) = Inr es" "set entries = set es"
    using assms(2) by (auto simp: build_feedback_report_def rbind_Inr_iff)
  let ?ev = "binding_evidence fp isoparse now mbs h cfg" and ?re = "report_entry isoparse now h cfg"
  have items: "i \<in> set items \<longleftrightarrow> (\<exists>x\<in>set (bindings h). ?ev x = Inr (Some i))" for i
    using assms(1) by (intro collect_mem(1)) (simp add: outcome_evidence_def)
  have entries: "e \<in> set entries \<longleftrightarrow> (\<exists>x\<in>set (bindings h). ?re x = Inr (Some e))" for e
    unfolding es(2) by (rule collect_mem(1) [OF es(1)])
  have ok: "\<exists>r. ?re x = Inr r" if "x \<in> set (bindings h)" for x
    using collect_mem(2) [OF es(1) that] .
  have ev: "?ev x = Inr (Some i) \<longleftrightarrow> (\<exists>e. ?re x = Inr (Some e) \<and> fe_gated e \<and>
      metric_for_binding mbs x = Some (ev_metric i) \<and>
      i = \<lparr>ev_metric = ev_metric i, ev_binding = x, ev_count = fe_count e, ev_window_days = fc_pattern_window_days cfg,
        ev_distinct_markers = fe_markers e, ev_refs = fe_refs e, ev_fingerprint = fp (ev_metric i) (fe_refs e)\<rparr>)"
    if "\<exists>r. ?re x = Inr r" for x i
    using evidence_of_entry [OF _ assms(3)] that by blast
  have name: "fe_binding e = x" if "?re x = Inr (Some e)" for x e
    using that by (auto simp: report_entry_def rbind_Inr_iff split: if_splits)
  show ?thesis
  proof
    assume "\<exists>i\<in>set items. ev_binding i = b \<and> ev_metric i = m \<and> ev_count i = n \<and> ev_refs i = refs"
    then obtain i x where i: "x \<in> set (bindings h)" "?ev x = Inr (Some i)" "ev_binding i = b" "ev_metric i = m"
      "ev_count i = n" "ev_refs i = refs" using items by blast
    obtain e where e: "?re x = Inr (Some e)" "fe_gated e" "metric_for_binding mbs x = Some (ev_metric i)"
      "i = \<lparr>ev_metric = ev_metric i, ev_binding = x, ev_count = fe_count e, ev_window_days = fc_pattern_window_days cfg,
        ev_distinct_markers = fe_markers e, ev_refs = fe_refs e, ev_fingerprint = fp (ev_metric i) (fe_refs e)\<rparr>"
      using ev [OF ok [OF i(1)]] i(2) by blast
    have "ev_binding i = x" "ev_count i = fe_count e" "ev_refs i = fe_refs e" by (subst e(4), simp)+
    with i e name [OF e(1)] entries show "(\<exists>e\<in>set entries. fe_binding e = b \<and> fe_gated e \<and> fe_count e = n \<and> fe_refs e = refs) \<and>
        metric_for_binding mbs b = Some m" by auto
  next
    assume "(\<exists>e\<in>set entries. fe_binding e = b \<and> fe_gated e \<and> fe_count e = n \<and> fe_refs e = refs) \<and>
        metric_for_binding mbs b = Some m"
    then obtain e where e: "b \<in> set (bindings h)" "?re b = Inr (Some e)" "fe_gated e" "fe_count e = n" "fe_refs e = refs"
      "metric_for_binding mbs b = Some m" using entries name by metis
    let ?i = "\<lparr>ev_metric = m, ev_binding = b, ev_count = fe_count e, ev_window_days = fc_pattern_window_days cfg,
        ev_distinct_markers = fe_markers e, ev_refs = fe_refs e, ev_fingerprint = fp m (fe_refs e)\<rparr>"
    have "?ev b = Inr (Some ?i)" using ev [OF ok [OF e(1)]] e by simp
    then have "?i \<in> set items" using items e(1) by blast
    then show "\<exists>i\<in>set items. ev_binding i = b \<and> ev_metric i = m \<and> ev_count i = n \<and> ev_refs i = refs"
      using e by (intro bexI [of _ ?i]) simp_all
  qed
qed

definition sample_config :: feedback_config where
  "sample_config = \<lparr>fc_pattern_min_count = 1, fc_pattern_window_days = 90, fc_pattern_min_markers = 1,
     fc_trust_cap_window_days = 90\<rparr>"

lemma evidence_is_what_the_report_gates_witness:
  "\<exists>items entries. outcome_evidence (\<lambda>m r. m) sample_iso sample_now sample_bindings sample_history sample_config = Inr items \<and>
     build_feedback_report sample_iso sample_now sample_history sample_config = Inr entries \<and>
     1 \<le> fc_pattern_min_count sample_config \<and>
     (\<exists>i\<in>set items. ev_binding i = ''orders.revenue'' \<and> ev_metric i = ''revenue'' \<and> ev_count i = 1 \<and>
       ev_refs i = [''2024-05-02T00:00:00+00:00''])"
proof -
  have i: "is_ok (outcome_evidence (\<lambda>m r. m) sample_iso sample_now sample_bindings sample_history sample_config)" by code_simp
  have e: "build_feedback_report sample_iso sample_now sample_history sample_config =
      Inr [\<lparr>fe_binding = ''orders.revenue'', fe_count = 1, fe_markers = 1, fe_gated = True, fe_capped = True,
        fe_refs = [''2024-05-02T00:00:00+00:00'']\<rparr>]" by code_simp
  have m: "metric_for_binding sample_bindings ''orders.revenue'' = Some ''revenue''" by code_simp
  have c: "1 \<le> fc_pattern_min_count sample_config" by (simp add: sample_config_def)
  obtain items where items: "outcome_evidence (\<lambda>m r. m) sample_iso sample_now sample_bindings sample_history sample_config = Inr items"
    using i by (auto simp: is_ok_iff)
  show ?thesis
    using evidence_is_what_the_report_gates [OF items e c, of "''orders.revenue''" "''revenue''" 1
        "[''2024-05-02T00:00:00+00:00'']"] items e m c by auto
qed

end
