(* ===== verification/Trust.thy ===== *)
theory Trust
  imports Feedback Tiers
begin

text \<open>
  \<^verbatim>\<open>src/canonic/trust/signals.py\<close>, \<^verbatim>\<open>scorer.py\<close> and \<^verbatim>\<open>freshness.py\<close> with
  \<^verbatim>\<open>src/canonic/compiler/trust_inputs.py\<close>: the signals behind an answer's trust tier, the
  worst-signal aggregation, the staleness policy (for limits a \<^verbatim>\<open>timedelta\<close> can hold) and the inputs a composite inherits from its
  components. Parameters: \<^verbatim>\<open>datetime.fromisoformat\<close> (\<open>isoparse\<close>), what \<^verbatim>\<open>strftime("%Y")\<close> prints on the
  platform (\<open>year_text\<close>) and the truth value of a result cell (\<open>truth\<close>).
\<close>

section \<open>Trust inputs\<close>

record trust_input =
  ti_metric :: string
  ti_provenance :: string
  ti_has_assertion :: bool
  ti_binding :: "string option"
  ti_owner :: "string option"

definition ti_label :: "trust_input \<Rightarrow> string" where
  "ti_label ti =
     (case ti_owner ti of None \<Rightarrow> ti_metric ti | Some owner \<Rightarrow> owner @ '': component '' @ ti_metric ti)"

fun provenance_value :: "provenance \<Rightarrow> string" where
  "provenance_value BOARD_APPROVED = ''board_approved''"
| "provenance_value HUMAN_CURATED = ''human_curated''"
| "provenance_value INFERRED = ''inferred''"

definition mk_input :: "resolver \<Rightarrow> string \<Rightarrow> resolved \<Rightarrow> string option \<Rightarrow> trust_input" where
  "mk_input rs name b owner =
     \<lparr>ti_metric = name, ti_provenance = provenance_value (mb_provenance (rb_binding b)),
      ti_has_assertion = (assertions_for rs [name] \<noteq> []), ti_binding = resolved_key b, ti_owner = owner\<rparr>"

function component_inputs :: "resolver \<Rightarrow> string \<Rightarrow> resolved \<Rightarrow> trust_input list" where
  "component_inputs rs owner b =
     concat (map (\<lambda>c. mk_input rs (rb_metric c) c (Some owner) # component_inputs rs owner c) (dependencies b))"
  by pat_completeness auto

termination by (relation "measure (\<lambda>(rs, owner, b). size b)") (auto simp: dependencies_size)

declare component_inputs.simps [simp del]

definition trust_inputs_for_binding :: "resolver \<Rightarrow> string \<Rightarrow> resolved \<Rightarrow> trust_input list" where
  "trust_inputs_for_binding rs name b = mk_input rs name b None # component_inputs rs name b"

section \<open>Signals\<close>

definition inactive :: signal_verdict where
  "inactive = \<lparr>sv_cap = None, sv_reason = None\<rparr>"

definition capped :: "trust_tier \<Rightarrow> string \<Rightarrow> signal_verdict" where
  "capped t reason = \<lparr>sv_cap = Some t, sv_reason = Some reason\<rparr>"

definition provenance_signal :: "trust_input \<Rightarrow> signal_verdict" where
  "provenance_signal ti =
     (if ti_provenance ti = provenance_value INFERRED
      then capped PROVISIONAL (ti_label ti @ '': binding inferred'') else inactive)"

text \<open>The verdict recorded for an input: none without a history, or without a key to look up.\<close>

definition recorded :: "assertion_history option \<Rightarrow> trust_input \<Rightarrow> assertion_record option" where
  "recorded hist ti =
     (case (hist, ti_binding ti) of
        (Some h, Some b) \<Rightarrow> if b = [] then None else status_for h b
      | _ \<Rightarrow> None)"

definition assertion_signal :: "trust_input \<Rightarrow> assertion_history option \<Rightarrow> signal_verdict" where
  "assertion_signal ti hist =
     (if \<not> ti_has_assertion ti then capped PROVISIONAL (ti_label ti @ '': untested (no assertion)'')
      else (case recorded hist ti of
          None \<Rightarrow> capped PROVISIONAL (ti_label ti @ '': assertion unverified (pass/fail not yet persisted)'')
        | Some r \<Rightarrow>
            (if \<not> ar_passed r then capped CAUTION (ti_label ti @ '': assertion failed ('' @ ar_assertion_id r @ '')'')
             else inactive)))"

definition static_signals_for :: "trust_input list \<Rightarrow> assertion_history option \<Rightarrow> signal_verdict list" where
  "static_signals_for tis hist = concat (map (\<lambda>ti. [provenance_signal ti, assertion_signal ti hist]) tis)"

definition finality_signal :: "nat option \<Rightarrow> nat option \<Rightarrow> signal_verdict" where
  "finality_signal final_rows provisional_rows =
     (case provisional_rows of
        None \<Rightarrow> inactive
      | Some n \<Rightarrow> if n = 0 then inactive else capped PROVISIONAL ''finality: provisional rows included'')"

definition quarter_label :: "datetime \<Rightarrow> string" where
  "quarter_label t = show_int (d_year (dt_date t)) @ ''-Q'' @ show_int ((d_month (dt_date t) - 1) div 3 + 1)"

definition op_label :: "(int \<Rightarrow> string) \<Rightarrow> open_period \<Rightarrow> string" where
  "op_label year_text p =
     (case op_format p of
        Some tf \<Rightarrow> tf_render tf (op_start p)
      | None \<Rightarrow>
          (let d = dt_date (op_start p);
               ym = year_text (d_year d) @ ''-'' @ show_width 2 (nat (d_month d));
               ymd = ym @ ''-'' @ show_width 2 (nat (d_day d))
           in case op_grain p of
                GHour \<Rightarrow> ymd @ '' '' @ show_width 2 (nat (dt_hour (op_start p))) @ '':00''
              | GMonth \<Rightarrow> ym
              | GYear \<Rightarrow> year_text (d_year d)
              | GQuarter \<Rightarrow> quarter_label (op_start p)
              | _ \<Rightarrow> ymd))"

definition op_reason :: "(int \<Rightarrow> string) \<Rightarrow> open_period \<Rightarrow> string" where
  "op_reason year_text p =
     op_dimension p @ '': '' @ grain_value (op_grain p) @ '' '' @ op_label year_text p @ '' has not ended''"

definition open_period_signal :: "(int \<Rightarrow> string) \<Rightarrow> open_period list \<Rightarrow> signal_verdict" where
  "open_period_signal year_text ps =
     (if ps = [] then inactive else capped PROVISIONAL (join_with ''; '' (map (op_reason year_text) ps)))"

record source_freshness =
  sf_source :: string
  sf_last_validated_at :: "string option"
  sf_stale :: bool

definition freshness_signal :: "source_freshness list \<Rightarrow> signal_verdict" where
  "freshness_signal fs =
     (let stale = sort (map sf_source (filter sf_stale fs))
      in if stale = [] then inactive
         else capped PROVISIONAL (''freshness: stale ('' @ join_with '', '' stale @ '')''))"

definition outcome_signal :: "iso_reader \<Rightarrow> datetime \<Rightarrow> trust_input \<Rightarrow> outcome_history \<Rightarrow> nat \<Rightarrow> signal_verdict res" where
  "outcome_signal isoparse clock ti h days =
     (case ti_binding ti of
        None \<Rightarrow> Inr inactive
      | Some b \<Rightarrow>
          rbind (is_capped isoparse clock h b days) (\<lambda>c.
            Inr (if c then capped CAUTION
                   (if ti_owner ti \<noteq> None then ti_label ti @ '': outcome: confirmed-wrong'' else ''outcome: confirmed-wrong'')
                 else inactive)))"

section \<open>Staleness policy\<close>

definition is_stale :: "iso_reader \<Rightarrow> datetime \<Rightarrow> string option \<Rightarrow> nat option \<Rightarrow> bool" where
  "is_stale isoparse clock stamp days =
     (case (days, stamp) of
        (Some n, Some s) \<Rightarrow>
          (case parse_ts isoparse s of Inl _ \<Rightarrow> False | Inr t \<Rightarrow> int n * day_micros < instant clock - t)
      | _ \<Rightarrow> False)"

section \<open>Aggregation\<close>

text \<open>\<^verbatim>\<open>TrustScorer.score\<close>: one signal folded into the running tier and its reasons.\<close>

definition add_signal :: "signal_verdict \<Rightarrow> trust_score \<Rightarrow> trust_score" where
  "add_signal v acc =
     (let reason = (case sv_reason v of None \<Rightarrow> [] | Some r \<Rightarrow> if r = [] then [] else [r])
      in case sv_cap v of
           None \<Rightarrow> acc
         | Some c \<Rightarrow>
             (if tier_index c < tier_index (ts_tier acc) then \<lparr>ts_tier = c, ts_reasons = reason\<rparr>
              else if c = ts_tier acc then acc\<lparr>ts_reasons := ts_reasons acc @ reason\<rparr>
              else acc))"

definition score :: "signal_verdict list \<Rightarrow> trust_score" where
  "score vs = fold add_signal vs \<lparr>ts_tier = TRUSTED, ts_reasons = []\<rparr>"

record compiled =
  cq_trust_inputs :: "trust_input list"
  cq_freshness :: "source_freshness list"
  cq_finality :: bool \<comment> \<open>a finality rule applies\<close>
  cq_time_dimensions :: "time_dimension list"
  cq_probe_columns :: "probe_column list"

definition apply_staleness_policy :: "iso_reader \<Rightarrow> datetime \<Rightarrow> nat option \<Rightarrow> compiled \<Rightarrow> compiled" where
  "apply_staleness_policy isoparse clock days c =
     (if days = None \<or> cq_freshness c = [] then c
      else c\<lparr>cq_freshness :=
        map (\<lambda>f. f\<lparr>sf_stale := is_stale isoparse clock (sf_last_validated_at f) days\<rparr>) (cq_freshness c)\<rparr>)"

text \<open>The counts of final and provisional rows, when a finality rule applies and the rows carry the flag.\<close>

definition row_counts :: "(cell \<Rightarrow> bool) \<Rightarrow> bool \<Rightarrow> result_set option \<Rightarrow> (nat option \<times> nat option) res" where
  "row_counts truth fin result =
     (case result of
        None \<Rightarrow> Inr (None, None)
      | Some rs \<Rightarrow>
          (if \<not> fin \<or> ''is_final'' \<notin> set (rs_names rs) then Inr (None, None)
           else rbind (rmap (\<lambda>row. row_cell row (index_of ''is_final'' (rs_names rs))) (rs_rows rs)) (\<lambda>cells.
             let final = length (filter truth cells)
             in Inr (Some final, Some (length (rs_rows rs) - final)))))"

record serving =
  sg_result :: "result_set option"
  sg_outcomes :: "outcome_history option"
  sg_outcome_window :: nat
  sg_assertions :: "assertion_history option"
  sg_now :: "(datetime \<times> int option) option"
  sg_probes :: "(string \<times> string, cell) dict"

definition trust_for_compiled :: "(int \<Rightarrow> string) \<Rightarrow> iso_reader \<Rightarrow> (cell \<Rightarrow> bool) \<Rightarrow> datetime \<Rightarrow> compiled \<Rightarrow> serving \<Rightarrow>
    trust_score res" where
  "trust_for_compiled year_text isoparse truth clock c sg =
     rbind (row_counts truth (cq_finality c) (sg_result sg)) (\<lambda>(final_rows, provisional_rows).
     rbind (open_periods isoparse (cq_finality c) (cq_time_dimensions c) (cq_probe_columns c) (sg_result sg)
        (sg_now sg) (sg_probes sg)) (\<lambda>periods.
     let signals = static_signals_for (cq_trust_inputs c) (sg_assertions sg) @
       [finality_signal final_rows provisional_rows, freshness_signal (cq_freshness c),
        open_period_signal year_text periods]
     in case sg_outcomes sg of
          None \<Rightarrow> Inr (score signals)
        | Some h \<Rightarrow>
            rbind (rmap (\<lambda>ti. outcome_signal isoparse clock ti h (sg_outcome_window sg)) (cq_trust_inputs c))
              (\<lambda>more. Inr (score (signals @ more)))))"

section \<open>Scoring\<close>

definition caps :: "signal_verdict list \<Rightarrow> trust_tier set" where
  "caps vs = {c. \<exists>v\<in>set vs. sv_cap v = Some c}"

definition reason_of :: "signal_verdict \<Rightarrow> string list" where
  "reason_of v = (case sv_reason v of None \<Rightarrow> [] | Some r \<Rightarrow> if r = [] then [] else [r])"

lemma caps_simps [simp]:
  "caps [] = {}"
  "caps (v # vs) = (case sv_cap v of None \<Rightarrow> caps vs | Some c \<Rightarrow> insert c (caps vs))"
  "caps (vs @ ws) = caps vs \<union> caps ws"
  by (auto simp: caps_def split: option.splits)

lemma finite_caps [simp]: "finite (caps vs)"
proof (rule finite_subset)
  show "caps vs \<subseteq> set all_tiers" using trust_tier.exhaust by (auto simp: all_tiers_def)
qed simp

definition worst :: "signal_verdict list \<Rightarrow> trust_tier" where
  "worst vs = Min (insert TRUSTED (caps vs))"

lemma worst_snoc: "worst (vs @ [v]) = (case sv_cap v of None \<Rightarrow> worst vs | Some c \<Rightarrow> min c (worst vs))"
  by (auto simp: worst_def Min_insert2 insert_commute [of TRUSTED] split: option.splits)

lemma worst_le: "v \<in> set vs \<Longrightarrow> sv_cap v = Some c \<Longrightarrow> worst vs \<le> c"
  unfolding worst_def by (rule Min_le) (simp, auto simp: caps_def)

lemma worst_TRUSTED_iff: "worst vs = TRUSTED \<longleftrightarrow> caps vs \<subseteq> {TRUSTED}"
  unfolding worst_def by (subst Min_eq_iff) (auto intro: antisym)

lemma worst_mono: "caps ws \<subseteq> caps vs \<Longrightarrow> worst vs \<le> worst ws"
  unfolding worst_def by (rule Min_antimono) auto

lemma score_eq:
  "score vs = \<lparr>ts_tier = worst vs, ts_reasons = concat (map reason_of (filter (\<lambda>v. sv_cap v = Some (worst vs)) vs))\<rparr>"
proof (induction vs rule: rev_induct)
  case Nil
  show ?case by (simp add: score_def worst_def)
next
  case (snoc v vs)
  have step: "score (vs @ [v]) = add_signal v (score vs)" by (simp add: score_def)
  show ?case
  proof (cases "sv_cap v")
    case None
    then show ?thesis using snoc by (simp add: step add_signal_def worst_snoc)
  next
    case (Some c)
    have none: "filter (\<lambda>w. sv_cap w = Some c) vs = []" if "c < worst vs"
      using worst_le that by (fastforce simp: filter_empty_conv)
    show ?thesis
    proof (cases c "worst vs" rule: linorder_cases)
      case less
      then show ?thesis
        using Some snoc none by (simp add: step add_signal_def worst_snoc reason_of_def less_trust_tier_def min_def less_eq_trust_tier_def)
    next
      case equal
      then show ?thesis using Some snoc by (simp add: step add_signal_def worst_snoc reason_of_def)
    next
      case greater
      then have "min c (worst vs) = worst vs" by (simp add: min.absorb2)
      then show ?thesis
        using greater Some snoc by (auto simp: step add_signal_def worst_snoc less_trust_tier_def)
    qed
  qed
qed

lemma caps_of_signals:
  "caps [inactive] = {}" "caps [capped t r] = {t}"
  by (simp_all add: inactive_def capped_def)

text \<open>An input is clean when its binding is curated and its assertion passed at the last run.\<close>

definition clean_input :: "assertion_history option \<Rightarrow> trust_input \<Rightarrow> bool" where
  "clean_input hist ti \<longleftrightarrow> ti_provenance ti \<noteq> provenance_value INFERRED \<and> ti_has_assertion ti \<and>
     (\<exists>r. recorded hist ti = Some r \<and> ar_passed r)"

lemma static_caps:
  "caps (static_signals_for tis hist) = (\<Union>ti\<in>set tis. caps [provenance_signal ti, assertion_signal ti hist])"
  by (induction tis) (auto simp: static_signals_for_def split: option.splits)

lemma input_caps:
  "caps [provenance_signal ti, assertion_signal ti hist] \<subseteq> {TRUSTED} \<longleftrightarrow> clean_input hist ti"
  by (auto simp: provenance_signal_def assertion_signal_def clean_input_def capped_def inactive_def split: option.splits)

lemma input_caps_owner:
  "caps [provenance_signal (ti\<lparr>ti_owner := x\<rparr>), assertion_signal (ti\<lparr>ti_owner := x\<rparr>) hist] =
   caps [provenance_signal ti, assertion_signal ti hist]"
  by (auto simp: provenance_signal_def assertion_signal_def recorded_def capped_def inactive_def split: option.splits)

lemma component_inputs_mem:
  "c \<in> set (dependencies b) \<Longrightarrow>
    (\<lambda>ti. ti\<lparr>ti_owner := None\<rparr>) ` set (trust_inputs_for_binding rs (rb_metric c) c)
      \<subseteq> (\<lambda>ti. ti\<lparr>ti_owner := None\<rparr>) ` set (component_inputs rs owner b)"
proof -
  have owner: "(\<lambda>ti. ti\<lparr>ti_owner := None\<rparr>) ` set (component_inputs rs o1 x) =
      (\<lambda>ti. ti\<lparr>ti_owner := None\<rparr>) ` set (component_inputs rs o2 x)" for o1 o2 x
  proof (induction rs o1 x rule: component_inputs.induct)
    case (1 rs o1 x)
    then show ?case
      by (auto simp: component_inputs.simps [of rs o1 x] component_inputs.simps [of rs o2 x] image_UN mk_input_def)
  qed
  assume c: "c \<in> set (dependencies b)"
  have "set (mk_input rs (rb_metric c) c (Some owner) # component_inputs rs owner c) \<subseteq> set (component_inputs rs owner b)"
    using c by (subst component_inputs.simps [of rs owner b]) auto
  moreover have "(mk_input rs (rb_metric c) c None) = (mk_input rs (rb_metric c) c (Some owner))\<lparr>ti_owner := None\<rparr>"
    by (simp add: mk_input_def)
  ultimately show ?thesis
    using owner [of "rb_metric c" c owner] by (auto simp: trust_inputs_for_binding_def)
qed

section \<open>Properties\<close>

text \<open>
  The worst signal dominates. The tier of an answer is the lowest cap any signal forces, and
  \<^verbatim>\<open>trusted\<close> when none caps it; the reasons are exactly those of the signals that force that tier, in
  signal order.
\<close>

theorem score_is_worst_signal:
  "ts_tier (score vs) = Min (insert TRUSTED {c. \<exists>v\<in>set vs. sv_cap v = Some c}) \<and>
   ts_reasons (score vs) = concat (map reason_of (filter (\<lambda>v. sv_cap v = Some (ts_tier (score vs))) vs))"
  by (simp add: score_eq worst_def caps_def)

text \<open>
  A composite metric is never rated above a metric it is computed from: against the same
  assertion verdicts its static tier is at most that of each of its dependencies queried alone.
\<close>

theorem composite_never_above_component:
  assumes "c \<in> set (dependencies b)"
  shows "ts_tier (score (static_signals_for (trust_inputs_for_binding rs name b) hist)) \<le>
    ts_tier (score (static_signals_for (trust_inputs_for_binding rs (rb_metric c) c) hist))"
proof -
  let ?sig = "\<lambda>ti. caps [provenance_signal ti, assertion_signal ti hist]"
  let ?strip = "\<lambda>ti. ti\<lparr>ti_owner := None\<rparr>"
  have strip: "(\<Union>ti\<in>S. ?sig ti) = (\<Union>ti\<in>?strip ` S. ?sig ti)" for S
    by (simp only: image_image input_caps_owner)
  have "caps (static_signals_for (trust_inputs_for_binding rs (rb_metric c) c) hist) \<subseteq>
      caps (static_signals_for (component_inputs rs name b) hist)"
    unfolding static_caps strip [of "set (trust_inputs_for_binding rs (rb_metric c) c)"] strip [of "set (component_inputs rs name b)"]
    by (rule UN_mono [OF component_inputs_mem [OF assms] order_refl])
  also have "\<dots> \<subseteq> caps (static_signals_for (trust_inputs_for_binding rs name b) hist)"
    unfolding static_caps trust_inputs_for_binding_def by (simp only: set_simps UN_insert Un_upper2)
  finally show ?thesis by (simp add: score_eq worst_mono)
qed

lemma signals_clean:
  "caps [finality_signal f p] \<subseteq> {TRUSTED} \<longleftrightarrow> p \<in> {None, Some 0}"
  "caps [freshness_signal fs] \<subseteq> {TRUSTED} \<longleftrightarrow> \<not> (\<exists>x\<in>set fs. sf_stale x)"
  "caps [open_period_signal y ps] \<subseteq> {TRUSTED} \<longleftrightarrow> ps = []"
proof -
  show "caps [finality_signal f p] \<subseteq> {TRUSTED} \<longleftrightarrow> p \<in> {None, Some 0}"
    by (auto simp: finality_signal_def inactive_def capped_def split: option.splits)
  have "sort (map sf_source (filter sf_stale fs)) = [] \<longleftrightarrow> filter sf_stale fs = []"
    by (metis map_is_Nil_conv set_empty set_sort)
  then show "caps [freshness_signal fs] \<subseteq> {TRUSTED} \<longleftrightarrow> \<not> (\<exists>x\<in>set fs. sf_stale x)"
    by (auto simp: freshness_signal_def Let_def inactive_def capped_def filter_empty_conv)
  show "caps [open_period_signal y ps] \<subseteq> {TRUSTED} \<longleftrightarrow> ps = []"
    by (auto simp: open_period_signal_def inactive_def capped_def)
qed

lemma outcome_caps:
  assumes "rmap (\<lambda>ti. outcome_signal isoparse clock ti h days) tis = Inr vs"
  shows "caps vs \<subseteq> {TRUSTED} \<longleftrightarrow>
    (\<forall>ti\<in>set tis. \<forall>b. ti_binding ti = Some b \<longrightarrow> is_capped isoparse clock h b days = Inr False)"
  using assms
proof (induction tis arbitrary: vs)
  case (Cons ti tis)
  then obtain v ws where v: "outcome_signal isoparse clock ti h days = Inr v" "vs = v # ws"
    "rmap (\<lambda>ti. outcome_signal isoparse clock ti h days) tis = Inr ws"
    by (auto split: sum.splits)
  have "caps [v] \<subseteq> {TRUSTED} \<longleftrightarrow> (\<forall>b. ti_binding ti = Some b \<longrightarrow> is_capped isoparse clock h b days = Inr False)"
    using v(1) by (auto simp: outcome_signal_def rbind_Inr_iff inactive_def capped_def split: option.splits if_splits)
  moreover have "caps vs = caps [v] \<union> caps ws" using caps_simps(3) [of "[v]" ws] v(2) by simp
  ultimately show ?case using Cons.IH [OF v(3)] by auto
qed simp

text \<open>
  C25: what \<^verbatim>\<open>trusted\<close> means. An answer is rated trusted exactly when every metric behind it, components
  included, has a curated binding, an assertion and a passing verdict for it, no served row is
  provisional, no source is stale, no served period is still open, and no metric behind it has a
  standing confirmed-wrong mark.
\<close>

theorem trusted_means_every_check_passed:
  assumes "trust_for_compiled year_text isoparse truth clock c sg = Inr ts"
    and "row_counts truth (cq_finality c) (sg_result sg) = Inr (f, p)"
    and "open_periods isoparse (cq_finality c) (cq_time_dimensions c) (cq_probe_columns c) (sg_result sg)
      (sg_now sg) (sg_probes sg) = Inr periods"
  shows "ts_tier ts = TRUSTED \<longleftrightarrow>
    (\<forall>ti\<in>set (cq_trust_inputs c). clean_input (sg_assertions sg) ti) \<and> p \<in> {None, Some 0} \<and>
    \<not> (\<exists>x\<in>set (cq_freshness c). sf_stale x) \<and> periods = [] \<and>
    (\<forall>h. sg_outcomes sg = Some h \<longrightarrow> (\<forall>ti\<in>set (cq_trust_inputs c). \<forall>b. ti_binding ti = Some b \<longrightarrow>
      is_capped isoparse clock h b (sg_outcome_window sg) = Inr False))"
proof -
  let ?static = "static_signals_for (cq_trust_inputs c) (sg_assertions sg)"
  let ?serve = "[finality_signal f p, freshness_signal (cq_freshness c), open_period_signal year_text periods]"
  have static: "caps ?static \<subseteq> {TRUSTED} \<longleftrightarrow> (\<forall>ti\<in>set (cq_trust_inputs c). clean_input (sg_assertions sg) ti)"
    unfolding static_caps UN_subset_iff input_caps ..
  have serve: "caps ?serve \<subseteq> {TRUSTED} \<longleftrightarrow> p \<in> {None, Some 0} \<and> \<not> (\<exists>x\<in>set (cq_freshness c). sf_stale x) \<and> periods = []"
  proof -
    have "caps ?serve = caps [finality_signal f p] \<union> caps [freshness_signal (cq_freshness c)] \<union>
        caps [open_period_signal year_text periods]"
      by (auto split: option.splits)
    then show ?thesis using signals_clean by simp
  qed
  show ?thesis
  proof (cases "sg_outcomes sg")
    case None
    then have "ts = score (?static @ ?serve)" using assms by (simp add: trust_for_compiled_def Let_def)
    then have "ts_tier ts = TRUSTED \<longleftrightarrow> caps ?static \<subseteq> {TRUSTED} \<and> caps ?serve \<subseteq> {TRUSTED}"
      by (simp only: score_eq trust_score.simps worst_TRUSTED_iff caps_simps(3) Un_subset_iff)
    then show ?thesis using None static serve by simp
  next
    case (Some h)
    then obtain more where more: "rmap (\<lambda>ti. outcome_signal isoparse clock ti h (sg_outcome_window sg)) (cq_trust_inputs c) = Inr more"
      "ts = score ((?static @ ?serve) @ more)"
      using assms by (auto simp: trust_for_compiled_def Let_def rbind_Inr_iff)
    then have "ts_tier ts = TRUSTED \<longleftrightarrow> caps ?static \<subseteq> {TRUSTED} \<and> caps ?serve \<subseteq> {TRUSTED} \<and> caps more \<subseteq> {TRUSTED}"
      by (simp only: score_eq trust_score.simps worst_TRUSTED_iff caps_simps(3) Un_subset_iff conj_assoc)
    then show ?thesis using Some static serve outcome_caps [OF more(1)] by simp
  qed
qed

definition sample_ratio :: resolved where
  "sample_ratio = (case resolve_metric sample_resolver ''aov'' of Inr (RBinding r) \<Rightarrow> r
     | _ \<Rightarrow> leaf (plain_binding [] [] plain_ref) None NoPart)"

lemma composite_never_above_component_witness:
  "hd (dependencies sample_ratio) \<in> set (dependencies sample_ratio) \<and>
   ts_tier (score (static_signals_for (trust_inputs_for_binding sample_resolver ''aov'' sample_ratio) None)) \<le>
   ts_tier (score (static_signals_for
     (trust_inputs_for_binding sample_resolver (rb_metric (hd (dependencies sample_ratio))) (hd (dependencies sample_ratio))) None))"
proof -
  have "map rb_metric (dependencies sample_ratio) = [''revenue'', ''orders'']" by code_simp
  then have m: "hd (dependencies sample_ratio) \<in> set (dependencies sample_ratio)"
    by (metis hd_in_set list.simps(8) list.distinct(1))
  show ?thesis using composite_never_above_component [OF m] m by blast
qed

definition sample_input :: trust_input where
  "sample_input = \<lparr>ti_metric = ''revenue'', ti_provenance = ''human_curated'', ti_has_assertion = True,
     ti_binding = Some ''orders.revenue'', ti_owner = None\<rparr>"

definition sample_compiled :: compiled where
  "sample_compiled = \<lparr>cq_trust_inputs = [sample_input],
     cq_freshness = [\<lparr>sf_source = ''orders'', sf_last_validated_at = None, sf_stale = False\<rparr>],
     cq_finality = True, cq_time_dimensions = [], cq_probe_columns = []\<rparr>"

definition sample_serving :: serving where
  "sample_serving = \<lparr>sg_result = Some \<lparr>rs_names = [''revenue'', ''is_final''], rs_rows = [[CInt 7, CBool True]]\<rparr>,
     sg_outcomes = None, sg_outcome_window = 90,
     sg_assertions = Some [(''orders.revenue'', \<lparr>ar_ts = ''t'', ar_assertion_id = ''a'', ar_passed = True\<rparr>)],
     sg_now = None, sg_probes = []\<rparr>"

definition sample_truth :: "cell \<Rightarrow> bool" where
  "sample_truth c = (c = CBool True)"

lemma trusted_means_every_check_passed_witness:
  "\<exists>ts. trust_for_compiled show_int sample_iso sample_truth sample_now sample_compiled sample_serving = Inr ts \<and>
     row_counts sample_truth (cq_finality sample_compiled) (sg_result sample_serving) = Inr (Some 1, Some 0) \<and>
     ts_tier ts = TRUSTED"
proof -
  have ok: "is_ok (trust_for_compiled show_int sample_iso sample_truth sample_now sample_compiled sample_serving)" by code_simp
  then obtain ts where ts: "trust_for_compiled show_int sample_iso sample_truth sample_now sample_compiled sample_serving = Inr ts"
    by (auto simp: is_ok_iff)
  have r: "row_counts sample_truth (cq_finality sample_compiled) (sg_result sample_serving) = Inr (Some 1, Some 0)" by code_simp
  have o: "open_periods sample_iso (cq_finality sample_compiled) (cq_time_dimensions sample_compiled)
      (cq_probe_columns sample_compiled) (sg_result sample_serving) (sg_now sample_serving) (sg_probes sample_serving) = Inr []"
    by code_simp
  have clean: "clean_input (sg_assertions sample_serving) sample_input"
    by (simp add: clean_input_def sample_input_def sample_serving_def recorded_def status_for_def)
  show ?thesis
    using trusted_means_every_check_passed [OF ts r o] ts r clean by (simp add: sample_compiled_def sample_serving_def)
qed

end
