(* ===== verification/Decompose.thy ===== *)
theory Decompose
  imports Errors Complex_Main "HOL-Library.Multiset"
begin

text \<open>
  \<^verbatim>\<open>src/canonic/core/decompose_methods.py\<close> with the rows of \<^verbatim>\<open>decompose_models.py\<close>: the arithmetic
  that attributes the change of a metric between two periods to its parts and to the members of a
  dimension. Values are rational numbers: the source computes in floating point and states its
  identities up to rounding, the theorems state them exactly. Division by zero is the value
  \<^verbatim>\<open>ZeroDivisionError\<close>. A member is a number, a text (what \<^verbatim>\<open>str\<close> prints of it) or \<^verbatim>\<open>NULL\<close>.
\<close>

section \<open>Rows\<close>

datatype member = Null | Num rat | Text string

type_synonym leaf_values = "(string, rat \<times> rat) dict"
type_synonym member_values = "(member, leaf_values) dict"

record period_labels =
  pl_dimension :: string
  pl_base :: string
  pl_compare :: string

record total =
  to_base :: rat
  to_compare :: rat
  to_delta :: rat

datatype effect_kind = NUMERATOR | DENOMINATOR | PART

record effect =
  ef_effect :: effect_kind
  ef_metric :: string
  ef_base :: rat
  ef_compare :: rat
  ef_contribution :: rat

record additive_row =
  ad_member :: member
  ad_base :: rat
  ad_compare :: rat
  ad_contribution :: rat
  ad_rest :: bool

datatype presence = BOTH | BASE_ONLY | COMPARE_ONLY

record shift_share_row =
  sh_member :: member
  sh_share_base :: rat
  sh_share_compare :: rat
  sh_rate_base :: "rat option"
  sh_rate_compare :: "rat option"
  sh_mix :: rat
  sh_rate :: rat
  sh_contribution :: rat
  sh_presence :: "presence option"
  sh_rest :: bool

record denominator_row =
  de_member :: member
  de_base :: rat
  de_compare :: rat
  de_delta :: rat
  de_rest :: bool

section \<open>Helpers\<close>

definition leaf_value :: "leaf_values \<Rightarrow> string \<Rightarrow> rat \<times> rat" where
  "leaf_value vs metric = (case map_of vs metric of None \<Rightarrow> (0, 0) | Some p \<Rightarrow> p)"

definition mid :: "rat \<times> rat \<Rightarrow> rat" where
  "mid p = (fst p + snd p) / 2"

definition delta :: "rat \<times> rat \<Rightarrow> rat" where
  "delta p = snd p - fst p"

definition divide_res :: "rat \<Rightarrow> rat \<Rightarrow> rat res" where
  "divide_res a b = (if b = 0 then Inl ZeroDivisionError else Inr (a / b))"

fun member_key :: "member \<Rightarrow> bool \<times> nat \<times> rat \<times> string" where
  "member_key Null = (True, 0, 0, [])"
| "member_key (Num q) = (False, 0, q, [])"
| "member_key (Text s) = (False, 1, 0, s)"

definition ranked :: "('r \<Rightarrow> rat) \<Rightarrow> ('r \<Rightarrow> member) \<Rightarrow> 'r list \<Rightarrow> 'r list" where
  "ranked magnitude mem rows = sort_key (\<lambda>r. (- \<bar>magnitude r\<bar>, member_key (mem r))) rows"

definition top_rows :: "nat \<Rightarrow> ('r list \<Rightarrow> 'r) \<Rightarrow> 'r list \<Rightarrow> 'r list" where
  "top_rows n merge rows = (if length rows \<le> n then rows else take n rows @ [merge (drop n rows)])"

definition merge_additive :: "additive_row list \<Rightarrow> additive_row" where
  "merge_additive rs =
     \<lparr>ad_member = Null, ad_base = sum_list (map ad_base rs), ad_compare = sum_list (map ad_compare rs),
      ad_contribution = sum_list (map ad_contribution rs), ad_rest = True\<rparr>"

definition merge_shift_share :: "shift_share_row list \<Rightarrow> shift_share_row" where
  "merge_shift_share rs =
     \<lparr>sh_member = Null, sh_share_base = sum_list (map sh_share_base rs),
      sh_share_compare = sum_list (map sh_share_compare rs), sh_rate_base = None, sh_rate_compare = None,
      sh_mix = sum_list (map sh_mix rs), sh_rate = sum_list (map sh_rate rs),
      sh_contribution = sum_list (map sh_contribution rs), sh_presence = None, sh_rest = True\<rparr>"

definition merge_denominator :: "denominator_row list \<Rightarrow> denominator_row" where
  "merge_denominator rs =
     \<lparr>de_member = Null, de_base = sum_list (map de_base rs), de_compare = sum_list (map de_compare rs),
      de_delta = sum_list (map de_delta rs), de_rest = True\<rparr>"

definition additive_rows :: "member_values \<Rightarrow> string \<Rightarrow> rat \<Rightarrow> nat \<Rightarrow> additive_row list" where
  "additive_rows members metric scale n =
     top_rows n merge_additive (ranked ad_contribution ad_member
       (map (\<lambda>(m, vs). \<lparr>ad_member = m, ad_base = fst (leaf_value vs metric), ad_compare = snd (leaf_value vs metric),
          ad_contribution = delta (leaf_value vs metric) * scale, ad_rest = False\<rparr>) members))"

section \<open>Ratios\<close>

record ratio_totals =
  ra_numerator :: string
  ra_denominator :: string
  ra_metric :: string
  ra_labels :: period_labels

definition zero_denominator :: "ratio_totals \<Rightarrow> string \<Rightarrow> exn" where
  "zero_denominator r period =
     CanonicError ValidationFailed [ra_metric r, ra_denominator r, pl_dimension (ra_labels r), period] []"

definition check_denominator :: "ratio_totals \<Rightarrow> leaf_values \<Rightarrow> unit res" where
  "check_denominator r overall =
     (case leaf_value overall (ra_denominator r) of (base, compare) \<Rightarrow>
       checks [(base = 0, zero_denominator r (pl_base (ra_labels r))),
               (compare = 0, zero_denominator r (pl_compare (ra_labels r)))])"

definition ratio_total :: "ratio_totals \<Rightarrow> leaf_values \<Rightarrow> total res" where
  "ratio_total r overall =
     (case (leaf_value overall (ra_numerator r), leaf_value overall (ra_denominator r)) of
        ((n0, n1), (d0, d1)) \<Rightarrow>
          rbind (divide_res n0 d0) (\<lambda>base. rbind (divide_res n1 d1) (\<lambda>compare.
            Inr \<lparr>to_base = base, to_compare = compare, to_delta = compare - base\<rparr>)))"

text \<open>The mean and the difference of the inverse denominators.\<close>

definition inverses :: "ratio_totals \<Rightarrow> leaf_values \<Rightarrow> (rat \<times> rat) res" where
  "inverses r overall =
     (case leaf_value overall (ra_denominator r) of (d0, d1) \<Rightarrow>
        rbind (divide_res 1 d0) (\<lambda>i0. rbind (divide_res 1 d1) (\<lambda>i1. Inr ((i0 + i1) / 2, i1 - i0))))"

section \<open>The additive method\<close>

definition additive_total :: "string \<Rightarrow> leaf_values \<Rightarrow> total res" where
  "additive_total metric overall =
     (case leaf_value overall metric of (base, compare) \<Rightarrow>
        Inr \<lparr>to_base = base, to_compare = compare, to_delta = compare - base\<rparr>)"

definition additive_check :: "leaf_values \<Rightarrow> unit res" where
  "additive_check overall = Inr ()"

definition additive_effects :: "leaf_values \<Rightarrow> effect list res" where
  "additive_effects overall = Inr []"

definition additive_split :: "string \<Rightarrow> leaf_values \<Rightarrow> member_values \<Rightarrow> nat \<Rightarrow> (additive_row list \<times> rat) res" where
  "additive_split metric overall members n =
     (let rows = additive_rows members metric 1 n
      in rbind (additive_total metric overall) (\<lambda>t. Inr (rows, to_delta t - sum_list (map ad_contribution rows))))"

section \<open>The shift-share method\<close>

definition shift_share_leaves :: "ratio_totals \<Rightarrow> string list" where
  "shift_share_leaves r = dedup [ra_numerator r, ra_denominator r]"

definition mk_effect :: "effect_kind \<Rightarrow> string \<Rightarrow> rat \<times> rat \<Rightarrow> rat \<Rightarrow> effect" where
  "mk_effect k metric p contribution =
     \<lparr>ef_effect = k, ef_metric = metric, ef_base = fst p, ef_compare = snd p, ef_contribution = contribution\<rparr>"

definition shift_share_effects :: "ratio_totals \<Rightarrow> leaf_values \<Rightarrow> effect list res" where
  "shift_share_effects r overall =
     (let numerator = leaf_value overall (ra_numerator r); denominator = leaf_value overall (ra_denominator r)
      in rbind (inverses r overall) (\<lambda>(avg_inverse, delta_inverse).
        Inr [mk_effect NUMERATOR (ra_numerator r) numerator (delta numerator * avg_inverse),
             mk_effect DENOMINATOR (ra_denominator r) denominator (mid numerator * delta_inverse)]))"

text \<open>
  One member's row. The totals are only divided by here, and a zero total raises before anything
  else.
\<close>

definition row_of_member :: "ratio_totals \<Rightarrow> member \<Rightarrow> leaf_values \<Rightarrow> rat \<Rightarrow> rat \<Rightarrow> shift_share_row option res" where
  "row_of_member r m vs total_d0 total_d1 =
     (case (leaf_value vs (ra_numerator r), leaf_value vs (ra_denominator r)) of ((n0, n1), (d0, d1)) \<Rightarrow>
        rbind (divide_res d0 total_d0) (\<lambda>s0. rbind (divide_res d1 total_d1) (\<lambda>s1.
          if d0 \<noteq> 0 \<and> d1 \<noteq> 0 then
            (let r0 = n0 / d0; r1 = n1 / d1; mix = (s1 - s0) * (r0 + r1) / 2; rate = (s0 + s1) / 2 * (r1 - r0)
             in Inr (Some \<lparr>sh_member = m, sh_share_base = s0, sh_share_compare = s1, sh_rate_base = Some r0,
                  sh_rate_compare = Some r1, sh_mix = mix, sh_rate = rate, sh_contribution = mix + rate,
                  sh_presence = Some BOTH, sh_rest = False\<rparr>))
          else if d1 \<noteq> 0 then
            (let r1 = n1 / d1
             in Inr (Some \<lparr>sh_member = m, sh_share_base = 0, sh_share_compare = s1, sh_rate_base = None,
                  sh_rate_compare = Some r1, sh_mix = s1 * r1, sh_rate = 0, sh_contribution = s1 * r1,
                  sh_presence = Some COMPARE_ONLY, sh_rest = False\<rparr>))
          else if d0 \<noteq> 0 then
            (let r0 = n0 / d0
             in Inr (Some \<lparr>sh_member = m, sh_share_base = s0, sh_share_compare = 0, sh_rate_base = Some r0,
                  sh_rate_compare = None, sh_mix = - s0 * r0, sh_rate = 0, sh_contribution = - s0 * r0,
                  sh_presence = Some BASE_ONLY, sh_rest = False\<rparr>))
          else Inr None)))"

fun shift_share_rows :: "ratio_totals \<Rightarrow> rat \<Rightarrow> rat \<Rightarrow> member_values \<Rightarrow> shift_share_row list res" where
  "shift_share_rows r d0 d1 [] = Inr []"
| "shift_share_rows r d0 d1 ((m, vs) # ms) =
     rbind (row_of_member r m vs d0 d1) (\<lambda>row. rbind (shift_share_rows r d0 d1 ms) (\<lambda>rows.
       Inr (case row of None \<Rightarrow> rows | Some x \<Rightarrow> x # rows)))"

definition shift_share_split :: "ratio_totals \<Rightarrow> leaf_values \<Rightarrow> member_values \<Rightarrow> nat \<Rightarrow> (shift_share_row list \<times> rat) res" where
  "shift_share_split r overall members n =
     (case leaf_value overall (ra_denominator r) of (total_d0, total_d1) \<Rightarrow>
        rbind (shift_share_rows r total_d0 total_d1 members) (\<lambda>rows.
          let listed = top_rows n merge_shift_share (ranked sh_contribution sh_member rows)
          in rbind (ratio_total r overall) (\<lambda>t. Inr (listed, to_delta t - sum_list (map sh_contribution listed)))))"

section \<open>The parts method\<close>

record ratio_parts =
  rp_ratio :: ratio_totals
  rp_parts :: "string list"
  rp_tolerance :: rat

definition moving_parts :: "ratio_parts \<Rightarrow> string list" where
  "moving_parts p = filter (\<lambda>x. x \<noteq> ra_denominator (rp_ratio p)) (rp_parts p)"

definition parts_leaves :: "ratio_parts \<Rightarrow> string list" where
  "parts_leaves p = dedup (ra_numerator (rp_ratio p) # ra_denominator (rp_ratio p) # rp_parts p)"

definition parts_sum :: "ratio_parts \<Rightarrow> leaf_values \<Rightarrow> rat \<times> rat" where
  "parts_sum p overall =
     (sum_list (map (\<lambda>x. fst (leaf_value overall x)) (rp_parts p)),
      sum_list (map (\<lambda>x. snd (leaf_value overall x)) (rp_parts p)))"

definition off_by :: "rat \<Rightarrow> rat \<Rightarrow> rat \<Rightarrow> bool" where
  "off_by tolerance expected found \<longleftrightarrow> \<bar>found - expected\<bar> > tolerance * max \<bar>expected\<bar> \<bar>found\<bar>"

definition inconsistent_parts :: "ratio_parts \<Rightarrow> string \<Rightarrow> exn" where
  "inconsistent_parts p period =
     CanonicError DecompositionInconsistent
       [ra_metric (rp_ratio p), pl_dimension (ra_labels (rp_ratio p)), period, ra_numerator (rp_ratio p)] []"

definition parts_check :: "ratio_parts \<Rightarrow> leaf_values \<Rightarrow> unit res" where
  "parts_check p overall =
     (let numerator = leaf_value overall (ra_numerator (rp_ratio p)); found = parts_sum p overall;
          labels = ra_labels (rp_ratio p)
      in rbind (checks
           [(off_by (rp_tolerance p) (fst numerator) (fst found), inconsistent_parts p (pl_base labels)),
            (off_by (rp_tolerance p) (snd numerator) (snd found), inconsistent_parts p (pl_compare labels))])
         (\<lambda>_. check_denominator (rp_ratio p) overall))"

definition parts_effects :: "ratio_parts \<Rightarrow> leaf_values \<Rightarrow> effect list res" where
  "parts_effects p overall =
     (let denominator = leaf_value overall (ra_denominator (rp_ratio p))
      in rbind (inverses (rp_ratio p) overall) (\<lambda>(avg_inverse, delta_inverse).
        Inr (map (\<lambda>x. mk_effect PART x (leaf_value overall x) (delta (leaf_value overall x) * avg_inverse)) (moving_parts p) @
             [mk_effect DENOMINATOR (ra_denominator (rp_ratio p)) denominator
               (sum_list (map (\<lambda>x. mid (leaf_value overall x)) (moving_parts p)) * delta_inverse)])))"

definition denominator_rows :: "ratio_parts \<Rightarrow> member_values \<Rightarrow> nat \<Rightarrow> denominator_row list" where
  "denominator_rows p members n =
     (let d = (\<lambda>vs. leaf_value vs (ra_denominator (rp_ratio p)))
      in top_rows n merge_denominator (ranked de_delta de_member
        (map (\<lambda>(m, vs). \<lparr>de_member = m, de_base = fst (d vs), de_compare = snd (d vs), de_delta = delta (d vs), de_rest = False\<rparr>)
          (filter (\<lambda>(m, vs). fst (d vs) \<noteq> 0 \<or> snd (d vs) \<noteq> 0) members))))"

definition parts_split :: "ratio_parts \<Rightarrow> leaf_values \<Rightarrow> member_values \<Rightarrow> nat \<Rightarrow>
    ((string, additive_row list \<times> rat) dict \<times> denominator_row list) res" where
  "parts_split p overall members n =
     rbind (inverses (rp_ratio p) overall) (\<lambda>(avg_inverse, _).
       Inr (dict_of (map (\<lambda>x.
              (let rows = additive_rows members x avg_inverse n
               in (x, rows, delta (leaf_value overall x) * avg_inverse - sum_list (map ad_contribution rows))))
            (moving_parts p)),
          denominator_rows p members n))"

section \<open>Sums\<close>

lemma top_rows_sum:
  assumes "\<And>rs. f (merge rs) = sum_list (map f rs)"
  shows "sum_list (map f (top_rows n merge rows)) = (sum_list (map f rows) :: rat)"
proof (cases "length rows \<le> n")
  case False
  have "sum_list (map f rows) = sum_list (map f (take n rows)) + sum_list (map f (drop n rows))"
    by (metis append_take_drop_id map_append sum_list_append)
  then show ?thesis using False by (simp add: top_rows_def assms)
qed (simp add: top_rows_def)

lemma ranked_sum: "sum_list (map f (ranked g m rows)) = (sum_list (map f rows) :: rat)"
proof -
  have "mset (map f (ranked g m rows)) = mset (map f rows)" by (simp add: ranked_def)
  then show ?thesis by (metis sum_mset_sum_list)
qed

text \<open>The values of a metric summed over the members, in both periods.\<close>

definition member_sum :: "member_values \<Rightarrow> string \<Rightarrow> rat \<times> rat" where
  "member_sum members metric =
     (sum_list (map (\<lambda>(m, vs). fst (leaf_value vs metric)) members),
      sum_list (map (\<lambda>(m, vs). snd (leaf_value vs metric)) members))"

lemma member_sum_simps [simp]:
  "member_sum [] x = (0, 0)"
  "member_sum ((m, vs) # ms) x = (fst (leaf_value vs x) + fst (member_sum ms x), snd (leaf_value vs x) + snd (member_sum ms x))"
  by (simp_all add: member_sum_def)

lemma additive_rows_sum:
  "sum_list (map ad_contribution (additive_rows members metric scale n)) = delta (member_sum members metric) * scale"
proof -
  let ?rows = "map (\<lambda>(m, vs). \<lparr>ad_member = m, ad_base = fst (leaf_value vs metric), ad_compare = snd (leaf_value vs metric),
      ad_contribution = delta (leaf_value vs metric) * scale, ad_rest = False\<rparr>) members"
  have "sum_list (map ad_contribution ?rows) = delta (member_sum members metric) * scale"
    by (induction members) (auto simp: delta_def algebra_simps)
  then show ?thesis
    unfolding additive_rows_def by (subst top_rows_sum) (simp_all add: merge_additive_def ranked_sum)
qed

section \<open>Checked ratios\<close>

lemma check_denominator_ok:
  "check_denominator r v = Inr () \<longleftrightarrow> fst (leaf_value v (ra_denominator r)) \<noteq> 0 \<and> snd (leaf_value v (ra_denominator r)) \<noteq> 0"
  by (auto simp: check_denominator_def split: prod.splits)

lemma checked_ratio:
  assumes "fst (leaf_value v (ra_denominator r)) \<noteq> 0" and "snd (leaf_value v (ra_denominator r)) \<noteq> 0"
    and "leaf_value v (ra_numerator r) = (n0, n1)" and "leaf_value v (ra_denominator r) = (d0, d1)"
  shows "ratio_total r v = Inr \<lparr>to_base = n0 / d0, to_compare = n1 / d1, to_delta = n1 / d1 - n0 / d0\<rparr>"
    and "inverses r v = Inr ((1 / d0 + 1 / d1) / 2, 1 / d1 - 1 / d0)"
  using assms by (simp_all add: ratio_total_def inverses_def divide_res_def)

definition swap_periods :: "leaf_values \<Rightarrow> leaf_values" where
  "swap_periods vs = map (\<lambda>(k, p). (k, (snd p, fst p))) vs"

lemma leaf_value_swap [simp]: "leaf_value (swap_periods vs) x = (snd (leaf_value vs x), fst (leaf_value vs x))"
  by (induction vs) (auto simp: leaf_value_def swap_periods_def)

definition reversed :: "total \<Rightarrow> total" where
  "reversed t = \<lparr>to_base = to_compare t, to_compare = to_base t, to_delta = - to_delta t\<rparr>"

section \<open>The contract of a method\<close>

text \<open>
  What \<^verbatim>\<open>DecompositionMethod\<close> promises its caller: after a passed check the total exists, the
  effects account for the change within the method's slack, and comparing the periods the other way
  round negates everything.
\<close>

locale decomposition_method =
  fixes check :: "leaf_values \<Rightarrow> unit res" and total_of :: "leaf_values \<Rightarrow> total res"
    and effects_of :: "leaf_values \<Rightarrow> effect list res" and slack :: "leaf_values \<Rightarrow> rat"
  assumes total_ok: "check v = Inr () \<Longrightarrow> \<exists>t. total_of v = Inr t"
    and effects_ok: "check v = Inr () \<Longrightarrow> \<exists>es. effects_of v = Inr es"
    and total_swap: "check v = Inr () \<Longrightarrow> total_of v = Inr t \<Longrightarrow> total_of (swap_periods v) = Inr (reversed t)"
    and effects_swap: "check v = Inr () \<Longrightarrow> effects_of v = Inr es \<Longrightarrow>
      \<exists>fs. effects_of (swap_periods v) = Inr fs \<and> map ef_contribution fs = map (\<lambda>e. - ef_contribution e) es"
    and effects_explain: "check v = Inr () \<Longrightarrow> total_of v = Inr t \<Longrightarrow> effects_of v = Inr es \<Longrightarrow>
      es = [] \<or> \<bar>sum_list (map ef_contribution es) - to_delta t\<bar> \<le> slack v"
begin

lemma attribution:
  assumes "check v = Inr ()"
  shows "\<exists>t es fs. total_of v = Inr t \<and> effects_of v = Inr es \<and>
    (es = [] \<or> \<bar>sum_list (map ef_contribution es) - to_delta t\<bar> \<le> slack v) \<and>
    total_of (swap_periods v) = Inr (reversed t) \<and> effects_of (swap_periods v) = Inr fs \<and>
    map ef_contribution fs = map (\<lambda>e. - ef_contribution e) es"
  using total_ok [OF assms] effects_ok [OF assms] total_swap [OF assms] effects_swap [OF assms] effects_explain [OF assms]
  by metis

end

interpretation additive: decomposition_method additive_check "additive_total metric" additive_effects "\<lambda>_. 0" for metric
  by unfold_locales (auto simp: additive_total_def additive_effects_def reversed_def case_prod_unfold)

lemma midpoint_identity:
  "(n1 - n0) * ((i0 + i1) / 2) + (n0 + n1) / 2 * (i1 - i0) = n1 * i1 - n0 * (i0 :: rat)"
  by (simp add: field_simps)

lemma checkedE:
  assumes "check_denominator r v = Inr ()"
  obtains n0 n1 d0 d1 where "leaf_value v (ra_numerator r) = (n0, n1)" "leaf_value v (ra_denominator r) = (d0, d1)"
    "d0 \<noteq> 0" "d1 \<noteq> 0"
  using assms by (metis check_denominator_ok prod.collapse)

interpretation shift_share: decomposition_method "check_denominator r" "ratio_total r" "shift_share_effects r" "\<lambda>_. 0" for r
proof
  fix v t es
  assume ok: "check_denominator r v = Inr ()"
  then obtain n0 n1 d0 d1 where v: "leaf_value v (ra_numerator r) = (n0, n1)" "leaf_value v (ra_denominator r) = (d0, d1)"
    "d0 \<noteq> 0" "d1 \<noteq> 0" by (rule checkedE)
  note here = checked_ratio [of v r, unfolded v(2) fst_conv snd_conv, OF v(3,4) v(1) refl]
  note swapped = checked_ratio [of "swap_periods v" r n1 n0 d1 d0] v
  show "\<exists>t. ratio_total r v = Inr t" "\<exists>es. shift_share_effects r v = Inr es"
    by (simp_all add: here shift_share_effects_def Let_def)
  show "ratio_total r (swap_periods v) = Inr (reversed t)" if "ratio_total r v = Inr t"
    using that swapped by (auto simp: here reversed_def)
  show "\<exists>fs. shift_share_effects r (swap_periods v) = Inr fs \<and> map ef_contribution fs = map (\<lambda>e. - ef_contribution e) es"
    if "shift_share_effects r v = Inr es"
    using that swapped
    by (auto simp: here shift_share_effects_def mk_effect_def delta_def mid_def Let_def v field_simps)
  show "es = [] \<or> \<bar>sum_list (map ef_contribution es) - to_delta t\<bar> \<le> 0"
    if "ratio_total r v = Inr t" "shift_share_effects r v = Inr es"
    using that midpoint_identity [of n1 n0 "1 / d0" "1 / d1"]
    by (auto simp: here shift_share_effects_def mk_effect_def delta_def mid_def Let_def v)
qed

text \<open>How far parts that pass the check may still miss the numerator, per unit of the denominator.\<close>

definition parts_slack :: "ratio_parts \<Rightarrow> leaf_values \<Rightarrow> rat" where
  "parts_slack p v =
     (let n = leaf_value v (ra_numerator (rp_ratio p)); d = leaf_value v (ra_denominator (rp_ratio p)); q = parts_sum p v
      in rp_tolerance p * (max \<bar>fst n\<bar> \<bar>fst q\<bar> / \<bar>fst d\<bar> + max \<bar>snd n\<bar> \<bar>snd q\<bar> / \<bar>snd d\<bar>))"

lemma moving_sum:
  fixes f :: "string \<Rightarrow> rat"
  shows "sum_list (map f (rp_parts p)) =
    sum_list (map f (moving_parts p)) + of_nat (count_list (rp_parts p) (ra_denominator (rp_ratio p))) * f (ra_denominator (rp_ratio p))"
proof -
  have "sum_list (map f xs) = sum_list (map f (filter (\<lambda>x. x \<noteq> d) xs)) + of_nat (count_list xs d) * f d" for xs d
    by (induction xs) (auto simp: algebra_simps)
  then show ?thesis by (simp add: moving_parts_def)
qed

lemma moving_sums:
  fixes i :: rat
  shows "sum_list (map (\<lambda>x. delta (leaf_value v x) * i) xs) =
      (sum_list (map (\<lambda>x. snd (leaf_value v x)) xs) - sum_list (map (\<lambda>x. fst (leaf_value v x)) xs)) * i"
    "sum_list (map (\<lambda>x. mid (leaf_value v x)) xs) =
      (sum_list (map (\<lambda>x. fst (leaf_value v x)) xs) + sum_list (map (\<lambda>x. snd (leaf_value v x)) xs)) / 2"
  by (induction xs) (simp_all add: delta_def mid_def algebra_simps add_divide_distrib diff_divide_distrib)

lemma parts_effects_sum:
  assumes "d0 \<noteq> 0" and "d1 \<noteq> 0" and "leaf_value v (ra_denominator (rp_ratio p)) = (d0, d1)"
    and "parts_effects p v = Inr es"
  shows "sum_list (map ef_contribution es) = snd (parts_sum p v) / d1 - fst (parts_sum p v) / d0"
proof -
  define i j where "i = (1 / d0 + 1 / d1) / 2" and "j = 1 / d1 - 1 / d0"
  let ?M0 = "sum_list (map (\<lambda>x. fst (leaf_value v x)) (moving_parts p))"
    and ?M1 = "sum_list (map (\<lambda>x. snd (leaf_value v x)) (moving_parts p))"
    and ?k = "of_nat (count_list (rp_parts p) (ra_denominator (rp_ratio p))) :: rat"
  have inv: "inverses (rp_ratio p) v = Inr (i, j)" using assms(1-3) by (simp add: inverses_def divide_res_def i_def j_def)
  then have "es = map (\<lambda>x. mk_effect PART x (leaf_value v x) (delta (leaf_value v x) * i)) (moving_parts p) @
      [mk_effect DENOMINATOR (ra_denominator (rp_ratio p)) (d0, d1) (sum_list (map (\<lambda>x. mid (leaf_value v x)) (moving_parts p)) * j)]"
    using assms(3,4) by (simp add: parts_effects_def Let_def)
  then have "sum_list (map ef_contribution es) = (?M1 - ?M0) * i + (?M0 + ?M1) / 2 * j"
    by (simp add: mk_effect_def comp_def moving_sums del: times_divide_eq_left)
  also have "\<dots> = ?M1 / d1 - ?M0 / d0"
    using midpoint_identity [of ?M1 ?M0 "1 / d0" "1 / d1"] unfolding i_def j_def by simp
  also have "\<dots> = (?M1 + ?k * d1) / d1 - (?M0 + ?k * d0) / d0" using assms(1,2) by (simp add: add_divide_distrib)
  finally show ?thesis using moving_sum [where p = p] assms(3) by (simp add: parts_sum_def)
qed

lemma within_tolerance:
  fixes n q d :: rat
  assumes "\<bar>q - n\<bar> \<le> t * m" and "d \<noteq> 0"
  shows "\<bar>q / d - n / d\<bar> \<le> t * (m / \<bar>d\<bar>)"
proof -
  have "\<bar>q / d - n / d\<bar> = \<bar>q - n\<bar> / \<bar>d\<bar>" by (simp add: diff_divide_distrib [symmetric])
  also have "\<dots> \<le> (t * m) / \<bar>d\<bar>" using assms by (intro divide_right_mono) auto
  finally show ?thesis by simp
qed

lemma parts_check_ok:
  "parts_check p v = Inr () \<longleftrightarrow>
     \<not> off_by (rp_tolerance p) (fst (leaf_value v (ra_numerator (rp_ratio p)))) (fst (parts_sum p v)) \<and>
     \<not> off_by (rp_tolerance p) (snd (leaf_value v (ra_numerator (rp_ratio p)))) (snd (parts_sum p v)) \<and>
     check_denominator (rp_ratio p) v = Inr ()"
  by (auto simp: parts_check_def Let_def)

lemma parts_sum_swap [simp]: "parts_sum p (swap_periods v) = (snd (parts_sum p v), fst (parts_sum p v))"
  by (simp add: parts_sum_def)

interpretation parts: decomposition_method "parts_check p" "\<lambda>v. ratio_total (rp_ratio p) v" "parts_effects p" "parts_slack p" for p
proof
  fix v t es
  assume ok: "parts_check p v = Inr ()"
  then have den: "check_denominator (rp_ratio p) v = Inr ()" by (simp add: parts_check_ok)
  then obtain n0 n1 d0 d1 where v: "leaf_value v (ra_numerator (rp_ratio p)) = (n0, n1)"
    "leaf_value v (ra_denominator (rp_ratio p)) = (d0, d1)" "d0 \<noteq> 0" "d1 \<noteq> 0" by (rule checkedE)
  note here = checked_ratio [of v "rp_ratio p", unfolded v(2) fst_conv snd_conv, OF v(3,4) v(1) refl]
  note swapped = checked_ratio [of "swap_periods v" "rp_ratio p" n1 n0 d1 d0] v
  show "\<exists>t. ratio_total (rp_ratio p) v = Inr t" using den by (rule shift_share.total_ok)
  show "ratio_total (rp_ratio p) (swap_periods v) = Inr (reversed t)" if "ratio_total (rp_ratio p) v = Inr t"
    using den that by (rule shift_share.total_swap)
  show "\<exists>es. parts_effects p v = Inr es" by (simp add: here parts_effects_def Let_def)
  show "\<exists>fs. parts_effects p (swap_periods v) = Inr fs \<and> map ef_contribution fs = map (\<lambda>e. - ef_contribution e) es"
    if "parts_effects p v = Inr es"
    using that swapped
    by (auto simp: here parts_effects_def mk_effect_def delta_def mid_def Let_def v algebra_simps)
  show "es = [] \<or> \<bar>sum_list (map ef_contribution es) - to_delta t\<bar> \<le> parts_slack p v"
    if "ratio_total (rp_ratio p) v = Inr t" "parts_effects p v = Inr es"
  proof -
    obtain q0 q1 where q: "parts_sum p v = (q0, q1)" by fastforce
    have "\<bar>q0 - n0\<bar> \<le> rp_tolerance p * max \<bar>n0\<bar> \<bar>q0\<bar>" "\<bar>q1 - n1\<bar> \<le> rp_tolerance p * max \<bar>n1\<bar> \<bar>q1\<bar>"
      using ok by (auto simp: parts_check_ok off_by_def v q)
    from within_tolerance [OF this(1) v(3)] within_tolerance [OF this(2) v(4)]
    have "\<bar>q0 / d0 - n0 / d0\<bar> + \<bar>q1 / d1 - n1 / d1\<bar> \<le> parts_slack p v"
      unfolding parts_slack_def Let_def v q fst_conv snd_conv distrib_left by (rule add_mono)
    then have "\<bar>(q1 / d1 - q0 / d0) - (n1 / d1 - n0 / d0)\<bar> \<le> parts_slack p v" by linarith
    then show ?thesis using that parts_effects_sum [OF v(3,4,2) that(2)] by (auto simp: here q)
  qed
qed

section \<open>Shift-share rows\<close>

text \<open>The numerators the members account for: a member counts in a period in which it has a denominator.\<close>

definition counted :: "ratio_totals \<Rightarrow> leaf_values \<Rightarrow> rat \<times> rat" where
  "counted r vs =
     (if fst (leaf_value vs (ra_denominator r)) = 0 then 0 else fst (leaf_value vs (ra_numerator r)),
      if snd (leaf_value vs (ra_denominator r)) = 0 then 0 else snd (leaf_value vs (ra_numerator r)))"

definition attributed :: "ratio_totals \<Rightarrow> member_values \<Rightarrow> rat \<times> rat" where
  "attributed r members =
     (sum_list (map (\<lambda>(m, vs). fst (counted r vs)) members), sum_list (map (\<lambda>(m, vs). snd (counted r vs)) members))"

lemma attributed_simps [simp]:
  "attributed r [] = (0, 0)"
  "attributed r ((m, vs) # ms) = (fst (counted r vs) + fst (attributed r ms), snd (counted r vs) + snd (attributed r ms))"
  by (simp_all add: attributed_def)

lemma row_contribution:
  assumes "D0 \<noteq> 0" and "D1 \<noteq> 0"
  shows "\<exists>row. row_of_member r m vs D0 D1 = Inr row \<and>
    (case row of None \<Rightarrow> 0 | Some x \<Rightarrow> sh_contribution x) = snd (counted r vs) / D1 - fst (counted r vs) / D0"
proof -
  obtain n0 n1 d0 d1 where v: "leaf_value vs (ra_numerator r) = (n0, n1)" "leaf_value vs (ra_denominator r) = (d0, d1)"
    by fastforce
  have shares: "d0 \<noteq> 0 \<Longrightarrow> d0 / D0 * (n0 / d0) = n0 / D0" "d1 \<noteq> 0 \<Longrightarrow> d1 / D1 * (n1 / d1) = n1 / D1"
    by simp_all
  have both: "(s1 - s0) * (r0 + r1) / 2 + (s0 + s1) / 2 * (r1 - r0) = s1 * r1 - s0 * (r0 :: rat)" for s0 s1 r0 r1
    by (simp add: field_simps)
  show ?thesis
    using assms both [of "d1 / D1" "d0 / D0" "n0 / d0" "n1 / d1"] shares
    by (cases "d0 = 0"; cases "d1 = 0")
      (simp_all add: row_of_member_def divide_res_def Let_def v counted_def del: times_divide_eq_left times_divide_eq_right)
qed

lemma shift_share_rows_sum:
  assumes "D0 \<noteq> 0" and "D1 \<noteq> 0"
  shows "\<exists>rows. shift_share_rows r D0 D1 members = Inr rows \<and>
    sum_list (map sh_contribution rows) = snd (attributed r members) / D1 - fst (attributed r members) / D0"
proof (induction members)
  case (Cons mv members)
  obtain m vs where mv: "mv = (m, vs)" by (cases mv)
  obtain row where row: "row_of_member r m vs D0 D1 = Inr row"
    "(case row of None \<Rightarrow> 0 | Some x \<Rightarrow> sh_contribution x) = snd (counted r vs) / D1 - fst (counted r vs) / D0"
    using row_contribution [OF assms] by blast
  from Cons.IH obtain rows where rows: "shift_share_rows r D0 D1 members = Inr rows"
    "sum_list (map sh_contribution rows) = snd (attributed r members) / D1 - fst (attributed r members) / D0" by blast
  have "shift_share_rows r D0 D1 (mv # members) = Inr (case row of None \<Rightarrow> rows | Some x \<Rightarrow> x # rows)"
    using row rows mv by simp
  moreover have "sum_list (map sh_contribution (case row of None \<Rightarrow> rows | Some x \<Rightarrow> x # rows)) =
      (case row of None \<Rightarrow> 0 | Some x \<Rightarrow> sh_contribution x) + sum_list (map sh_contribution rows)"
    by (cases row) simp_all
  ultimately show ?case using row(2) rows(2) mv by (simp add: add_divide_distrib)
qed simp

section \<open>Properties\<close>

text \<open>
  C26: the effects of a ratio change explain it. Once the check has passed, the total exists, the
  numerator and denominator effects add up to the change of the ratio exactly, and comparing the
  periods the other way round negates the total and every contribution.
\<close>

theorem ratio_effects_explain_change:
  assumes "check_denominator r v = Inr ()"
  shows "\<exists>t es fs. ratio_total r v = Inr t \<and> shift_share_effects r v = Inr es \<and>
    sum_list (map ef_contribution es) = to_delta t \<and>
    ratio_total r (swap_periods v) = Inr (reversed t) \<and> shift_share_effects r (swap_periods v) = Inr fs \<and>
    map ef_contribution fs = map (\<lambda>e. - ef_contribution e) es"
proof -
  obtain t es fs where a: "ratio_total r v = Inr t" "shift_share_effects r v = Inr es"
    "es = [] \<or> \<bar>sum_list (map ef_contribution es) - to_delta t\<bar> \<le> 0"
    "ratio_total r (swap_periods v) = Inr (reversed t)" "shift_share_effects r (swap_periods v) = Inr fs"
    "map ef_contribution fs = map (\<lambda>e. - ef_contribution e) es"
    using shift_share.attribution [OF assms] by blast
  have "es \<noteq> []" using a(2) by (auto simp: shift_share_effects_def Let_def rbind_Inr_iff split: prod.splits)
  with a show ?thesis by auto
qed

definition sample_labels :: period_labels where
  "sample_labels = \<lparr>pl_dimension = ''month'', pl_base = ''2024-01'', pl_compare = ''2024-02''\<rparr>"

definition sample_totals :: ratio_totals where
  "sample_totals = \<lparr>ra_numerator = ''revenue'', ra_denominator = ''orders'', ra_metric = ''aov'', ra_labels = sample_labels\<rparr>"

definition sample_values :: leaf_values where
  "sample_values = [(''revenue'', (10, 30)), (''orders'', (2, 3))]"

lemma ratio_effects_explain_change_witness:
  "\<exists>t es. ratio_total sample_totals sample_values = Inr t \<and> shift_share_effects sample_totals sample_values = Inr es \<and>
    to_delta t = 5 \<and> sum_list (map ef_contribution es) = to_delta t"
proof -
  have c: "check_denominator sample_totals sample_values = Inr ()" by code_simp
  have "ratio_total sample_totals sample_values = Inr \<lparr>to_base = 5, to_compare = 10, to_delta = 5\<rparr>" by code_simp
  then show ?thesis using ratio_effects_explain_change [OF c] by auto
qed

text \<open>
  C34: with declared numerator parts the effects explain the change up to what the check tolerates:
  their sum differs from the change by at most the tolerance times the size of the ratio in the two
  periods, and by nothing at tolerance zero. A part that is the denominator itself drops out
  without breaking the sum.
\<close>

theorem parts_effects_within_tolerance:
  assumes "parts_check p v = Inr ()"
  shows "\<exists>t es. ratio_total (rp_ratio p) v = Inr t \<and> parts_effects p v = Inr es \<and>
    \<bar>sum_list (map ef_contribution es) - to_delta t\<bar> \<le> parts_slack p v \<and>
    (rp_tolerance p = 0 \<longrightarrow> sum_list (map ef_contribution es) = to_delta t)"
proof -
  obtain t es where a: "ratio_total (rp_ratio p) v = Inr t" "parts_effects p v = Inr es"
    "es = [] \<or> \<bar>sum_list (map ef_contribution es) - to_delta t\<bar> \<le> parts_slack p v"
    using parts.attribution [OF assms] by blast
  have "es \<noteq> []" using a(2) by (auto simp: parts_effects_def Let_def rbind_Inr_iff split: prod.splits)
  moreover have "parts_slack p v = 0" if "rp_tolerance p = 0" using that by (simp add: parts_slack_def Let_def)
  ultimately show ?thesis using a by auto
qed

definition sample_parts :: ratio_parts where
  "sample_parts = \<lparr>rp_ratio = sample_totals, rp_parts = [''fees'', ''orders''], rp_tolerance = 0\<rparr>"

definition sample_part_values :: leaf_values where
  "sample_part_values = [(''revenue'', (10, 30)), (''orders'', (2, 3)), (''fees'', (8, 27))]"

lemma parts_effects_within_tolerance_witness:
  "\<exists>t es. parts_check sample_parts sample_part_values = Inr () \<and> ratio_total sample_totals sample_part_values = Inr t \<and>
    parts_effects sample_parts sample_part_values = Inr es \<and> sum_list (map ef_contribution es) = to_delta t"
proof -
  have c: "parts_check sample_parts sample_part_values = Inr ()" by code_simp
  show ?thesis using parts_effects_within_tolerance [OF c] c by (auto simp: sample_parts_def)
qed


definition sample_members :: member_values where
  "sample_members = [(Text ''de'', [(''revenue'', (4, 30)), (''orders'', (1, 3))]), (Null, [(''revenue'', (6, 0)), (''orders'', (1, 0))])]"


end
