(* ===== verification/Time_Ranges.thy ===== *)
theory Time_Ranges
  imports Durations Semantic_Model
begin

text \<open>
  \<^verbatim>\<open>src/canonic/compiler/query.py\<close> and \<^verbatim>\<open>time_range.py\<close>: the semantic query, its filters and its typed
  time range, the parsers of the command line flags, and the resolution of a range to two dates.
  Parameters: \<^verbatim>\<open>date.fromisoformat\<close> (\<open>isodate\<close>), the printed form of a token that \<^verbatim>\<open>int\<close> or \<^verbatim>\<open>float\<close>
  reads (\<open>number\<close>), and the columns of an SQL expression (\<open>cols\<close>).
\<close>

section \<open>Filters\<close>

text \<open>A filter value: a text, a list (with the text \<^verbatim>\<open>str\<close> prints of it), or another value as \<^verbatim>\<open>str\<close> prints it.\<close>

datatype filter_value = VText string | VList "filter_value list" string | VOther string

definition OPERATOR_MAP :: "(string, string) dict" where
  "OPERATOR_MAP =
     [(''EQUALS'', ''=''), (''='', ''=''), (''=='', ''=''), (''NOT_EQUALS'', ''!=''), (''!='', ''!=''), (''<>'', ''!=''),
      (''GREATER_THAN'', ''>''), (''>'', ''>''), (''LESS_THAN'', ''<''), (''<'', ''<''),
      (''GREATER_THAN_OR_EQUAL'', ''>=''), (''>='', ''>=''), (''LESS_THAN_OR_EQUAL'', ''<=''), (''<='', ''<=''),
      (''LIKE'', ''LIKE''), (''IN'', ''IN'')]"

definition QUOTE :: char where
  "QUOTE = char_of (39 :: nat)"

fun escape :: "string \<Rightarrow> string" where
  "escape [] = []"
| "escape (c # cs) = (if c = QUOTE then QUOTE # QUOTE # escape cs else c # escape cs)"

fun quote_value :: "filter_value \<Rightarrow> string" where
  "quote_value (VText s) = QUOTE # escape s @ [QUOTE]"
| "quote_value (VList vs printed) = printed"
| "quote_value (VOther printed) = printed"

text \<open>\<^verbatim>\<open>str.upper\<close> below code point 256; a letter whose capital lies outside is kept.\<close>

definition upper_char :: "char \<Rightarrow> string" where
  "upper_char c =
     (let n = of_char c :: nat
      in if 97 \<le> n \<and> n \<le> 122 \<or> 224 \<le> n \<and> n \<le> 254 \<and> n \<noteq> 247 then [char_of (n - 32)]
         else if n = 223 then ''SS'' else [c])"

definition str_upper :: "string \<Rightarrow> string" where
  "str_upper s = concat (map upper_char s)"

record filter_dict =
  fd_field :: "string option"
  fd_operator :: string
  fd_value :: filter_value

definition dict_to_predicate :: "filter_dict \<Rightarrow> string res" where
  "dict_to_predicate d =
     (case fd_field d of
        None \<Rightarrow> Inl ValueError
      | Some field \<Rightarrow>
          (if field = [] then Inl ValueError
           else (case map_of OPERATOR_MAP (str_upper (fd_operator d)) of
               None \<Rightarrow> Inl ValueError
             | Some sql_op \<Rightarrow>
                 (if sql_op = ''IN'' then
                    (case fd_value d of
                       VList vs _ \<Rightarrow> Inr (field @ '' IN ('' @ join_with '', '' (map quote_value vs) @ '')'')
                     | _ \<Rightarrow> Inl ValueError)
                  else Inr (field @ '' '' @ sql_op @ '' '' @ quote_value (fd_value d))))))"

definition coerce_scalar :: "(string \<Rightarrow> string option) \<Rightarrow> string \<Rightarrow> filter_value" where
  "coerce_scalar number t = (case number t of Some printed \<Rightarrow> VOther printed | None \<Rightarrow> VText t)"

text \<open>The leftmost operator of the inline form, a two-character operator before its first character.\<close>

definition BARE_OPS :: "string list" where
  "BARE_OPS = [''>='', ''<='', ''!='', ''<>'', ''=='', ''>'', ''<'', ''='']"

definition op_here :: "string \<Rightarrow> string option" where
  "op_here s = find (\<lambda>op. take (length op) s = op) BARE_OPS"

fun find_op :: "string \<Rightarrow> (string \<times> string \<times> string) option" where
  "find_op [] = None"
| "find_op (c # cs) =
     (case op_here (c # cs) of
        Some op \<Rightarrow> Some ([], op, drop (length op) (c # cs))
      | None \<Rightarrow> map_option (\<lambda>(before, op, after). (c # before, op, after)) (find_op cs))"

definition parse_bare :: "(string \<Rightarrow> string option) \<Rightarrow> string \<Rightarrow> string res" where
  "parse_bare number raw =
     (case find_op raw of
        None \<Rightarrow> Inl ValueError
      | Some (field, op, v) \<Rightarrow>
          dict_to_predicate \<lparr>fd_field = Some (strip field), fd_operator = op, fd_value = coerce_scalar number v\<rparr>)"

definition parse_filter_flag :: "(string \<Rightarrow> string option) \<Rightarrow> (filter_value list \<Rightarrow> string) \<Rightarrow> string \<Rightarrow> string res" where
  "parse_filter_flag number show_list raw =
     (case partition_on CHR '':'' raw of (head, sep, tail) \<Rightarrow>
        (case partition_on CHR '':'' tail of (op_candidate, sep2, value_raw) \<Rightarrow>
           (if sep \<and> sep2 then
              (let op = str_upper (strip op_candidate);
                   v = (if op = ''IN''
                        then (let vs = map (\<lambda>x. coerce_scalar number (strip x)) (split_on CHR '','' value_raw)
                              in VList vs (show_list vs))
                        else coerce_scalar number value_raw)
               in dict_to_predicate \<lparr>fd_field = Some (strip head), fd_operator = op, fd_value = v\<rparr>)
            else parse_bare number raw)))"

datatype filter_item = ItemText string | ItemDict filter_dict | ItemOther

definition coerce_item :: "filter_item \<Rightarrow> string res" where
  "coerce_item i = (case i of ItemText s \<Rightarrow> Inr s | ItemDict d \<Rightarrow> dict_to_predicate d | ItemOther \<Rightarrow> Inl ValueError)"

definition coerce_filters :: "filter_item list option \<Rightarrow> string list res" where
  "coerce_filters v = (case v of None \<Rightarrow> Inl ValueError | Some is \<Rightarrow> rmap coerce_item is)"

section \<open>Time ranges\<close>

record time_range =
  tr_dimension :: string
  tr_last :: "duration option"
  tr_start :: "date option"
  tr_end :: "date option"
  tr_include_current :: bool

definition validate_bounds :: "time_range \<Rightarrow> unit res" where
  "validate_bounds tr =
     (let explicit = (tr_start tr \<noteq> None \<or> tr_end tr \<noteq> None)
      in checks
        [((tr_last tr = None) = (\<not> explicit), ValueError),
         (case tr_last tr of None \<Rightarrow> False | Some d \<Rightarrow> rank (du_unit d) < rank DAY, ValueError),
         (case (tr_start tr, tr_end tr) of (Some s, Some e) \<Rightarrow> e \<le> s | _ \<Rightarrow> False, ValueError),
         (tr_include_current tr \<and> tr_last tr = None, ValueError)])"

definition mk_time_range :: "time_range \<Rightarrow> time_range res" where
  "mk_time_range tr = rbind (validate_bounds tr) (\<lambda>_. Inr tr)"

text \<open>\<^verbatim>\<open>text.partition("..")\<close>\<close>

fun partition_dots :: "string \<Rightarrow> (string \<times> string) option" where
  "partition_dots (CHR ''.'' # CHR ''.'' # cs) = Some ([], cs)"
| "partition_dots (c # cs) = map_option (\<lambda>(a, b). (c # a, b)) (partition_dots cs)"
| "partition_dots [] = None"

definition read_bound :: "(string \<Rightarrow> date option) \<Rightarrow> string \<Rightarrow> date option res" where
  "read_bound isodate s = (if s = [] then Inr None else (case isodate s of None \<Rightarrow> Inl ValueError | Some d \<Rightarrow> Inr (Some d)))"

definition parse_time_range_flag :: "(string \<Rightarrow> date option) \<Rightarrow> string \<Rightarrow> time_range res" where
  "parse_time_range_flag isodate raw =
     (case partition_on CHR '':'' raw of (dimension, sep, rest) \<Rightarrow>
        (if \<not> sep \<or> strip dimension = [] then Inl ValueError
         else if take 5 rest = ''last:'' then
           (case partition_on CHR '':'' (drop 5 rest) of (dur, _, flag) \<Rightarrow>
              (if flag \<notin> {[], ''current''} then Inl ValueError
               else rbind (Durations.parse dur) (\<lambda>d.
                 mk_time_range \<lparr>tr_dimension = strip dimension, tr_last = Some d, tr_start = None, tr_end = None,
                   tr_include_current = (flag = ''current'')\<rparr>)))
         else (case partition_dots rest of
             None \<Rightarrow> Inl ValueError
           | Some (start, stop) \<Rightarrow>
               rbind (read_bound isodate start) (\<lambda>s. rbind (read_bound isodate stop) (\<lambda>e.
                 mk_time_range \<lparr>tr_dimension = strip dimension, tr_last = None, tr_start = s, tr_end = e,
                   tr_include_current = False\<rparr>)))))"

record semantic_query =
  sq_metrics :: "string list"
  sq_dimensions :: "string list"
  sq_filters :: "string list"
  sq_via :: "string list"
  sq_context :: "string option"
  sq_limit :: "int option"
  sq_as_of :: "(datetime \<times> int option) option"
  sq_time_range :: "time_range option"

record resolved_time_range =
  rt_dimension :: string
  rt_start :: "date option"
  rt_end :: "date option"
  rt_last :: "duration option"
  rt_include_current :: bool
  rt_anchor :: "(datetime \<times> int option) option"

text \<open>\<^verbatim>\<open>date.isoformat()\<close>\<close>

definition iso_date :: "date \<Rightarrow> string" where
  "iso_date d = show_width 4 (nat (d_year d)) @ ''-'' @ show_width 2 (nat (d_month d)) @ ''-'' @ show_width 2 (nat (d_day d))"

definition predicate :: "resolved_time_range \<Rightarrow> string" where
  "predicate rt =
     join_with '' AND ''
       ((case rt_start rt of None \<Rightarrow> [] | Some d \<Rightarrow> [rt_dimension rt @ '' >= '' @ QUOTE # iso_date d @ [QUOTE]]) @
        (case rt_end rt of None \<Rightarrow> [] | Some d \<Rightarrow> [rt_dimension rt @ '' < '' @ QUOTE # iso_date d @ [QUOTE]]))"

definition as_explicit :: "resolved_time_range \<Rightarrow> time_range" where
  "as_explicit rt = \<lparr>tr_dimension = rt_dimension rt, tr_last = None, tr_start = rt_start rt, tr_end = rt_end rt,
     tr_include_current = False\<rparr>"

definition anchor_day :: "datetime \<times> int option \<Rightarrow> date" where
  "anchor_day as_of = dt_date (fst as_of)"

definition resolve_time_range :: "datetime \<Rightarrow> time_range \<Rightarrow> (datetime \<times> int option) option \<Rightarrow> resolved_time_range res" where
  "resolve_time_range clock tr as_of =
     (case tr_last tr of
        None \<Rightarrow> Inr \<lparr>rt_dimension = tr_dimension tr, rt_start = tr_start tr, rt_end = tr_end tr, rt_last = None,
          rt_include_current = False, rt_anchor = None\<rparr>
      | Some dur \<Rightarrow>
          (let anchor = (case as_of of None \<Rightarrow> (clock, Some 0) | Some a \<Rightarrow> a); day = anchor_day anchor
           in rbind (floor_date day (du_unit dur)) (\<lambda>fl.
              rbind (add_to_date fl dur (- 1)) (\<lambda>start.
              rbind (if tr_include_current tr then add_days day 1 else Inr fl) (\<lambda>stop.
                Inr \<lparr>rt_dimension = tr_dimension tr, rt_start = Some start, rt_end = Some stop, rt_last = Some dur,
                  rt_include_current = tr_include_current tr, rt_anchor = Some anchor\<rparr>)))))"

definition check_range_dim :: "(string \<Rightarrow> string list option) \<Rightarrow> string \<Rightarrow> semantic_source \<Rightarrow> dimension \<Rightarrow> unit res" where
  "check_range_dim cols name src d =
     (let bare = after_last CHR ''.'' name
      in if dim_name d \<noteq> bare \<and> bare \<notin> set (dim_aliases d) then Inr ()
         else rbind (backing_columns cols d) (\<lambda>cs.
           (case (dedup cs, dim_json_path d) of
              ([c], None) \<Rightarrow>
                (case map_option col_type (find (\<lambda>k. col_name k = c) (ss_columns src)) of
                   None \<Rightarrow> Inl (CanonicError ValidationFailed [name, c] [])
                 | Some t \<Rightarrow>
                     (if t \<in> {DATE_T, TIMESTAMP_T} then Inr ()
                      else Inl (CanonicError ValidationFailed [name, c, type_value t] [])))
            | _ \<Rightarrow> Inl (CanonicError ValidationFailed [name] []))))"

definition check_time_range_dimension :: "(string \<Rightarrow> string list option) \<Rightarrow> time_range \<Rightarrow> semantic_source list \<Rightarrow> unit res" where
  "check_time_range_dimension cols tr srcs =
     rfor (\<lambda>src. rfor (check_range_dim cols (tr_dimension tr) src) (ss_dimensions src)) srcs"

definition apply_time_range :: "(string \<Rightarrow> string list option) \<Rightarrow> datetime \<Rightarrow> semantic_query \<Rightarrow> semantic_source list \<Rightarrow>
    (semantic_query \<times> resolved_time_range option) res" where
  "apply_time_range cols clock q srcs =
     (case sq_time_range q of
        None \<Rightarrow> Inr (q, None)
      | Some tr \<Rightarrow>
          rbind (check_time_range_dimension cols tr srcs) (\<lambda>_.
          rbind (resolve_time_range clock tr (sq_as_of q)) (\<lambda>rt.
            Inr (q\<lparr>sq_filters := sq_filters q @ [predicate rt], sq_time_range := Some (as_explicit rt)\<rparr>, Some rt))))"

section \<open>Reading a predicate back\<close>

text \<open>
  A standard SQL string literal at the head of a text: its value and what follows. Two quotes stand
  for one quote, a single quote ends the literal.
\<close>

fun literal_body :: "string \<Rightarrow> (string \<times> string) option" where
  "literal_body [] = None"
| "literal_body (c # cs) =
     (if c \<noteq> QUOTE then map_option (\<lambda>(v, rest). (c # v, rest)) (literal_body cs)
      else (case cs of
          d # ds \<Rightarrow> if d = QUOTE then map_option (\<lambda>(v, rest). (QUOTE # v, rest)) (literal_body ds) else Some ([], cs)
        | [] \<Rightarrow> Some ([], [])))"

definition sql_literal :: "string \<Rightarrow> (string \<times> string) option" where
  "sql_literal s = (case s of [] \<Rightarrow> None | c # cs \<Rightarrow> if c = QUOTE then literal_body cs else None)"

lemma literal_body_escape:
  "(\<And>r. rest \<noteq> QUOTE # r) \<Longrightarrow> literal_body (escape s @ QUOTE # rest) = Some (s, rest)"
  by (induction s) (auto split: list.splits)

lemma sql_literal_quote:
  "(\<And>r. rest \<noteq> QUOTE # r) \<Longrightarrow> sql_literal (quote_value (VText s) @ rest) = Some (s, rest)"
  using literal_body_escape [of rest s] by (simp add: sql_literal_def)

text \<open>
  In a dialect whose literals also escape with a backslash, doubling quotes is not enough: a value
  that holds a backslash before a quote ends its literal early.
\<close>

definition BACKSLASH :: char where
  "BACKSLASH = char_of (92 :: nat)"

fun backslash_body :: "string \<Rightarrow> (string \<times> string) option" where
  "backslash_body [] = None"
| "backslash_body [c] = (if c = QUOTE then Some ([], []) else None)"
| "backslash_body (c # d # cs) =
     (if c = BACKSLASH then map_option (\<lambda>(v, rest). (d # v, rest)) (backslash_body cs)
      else if c = QUOTE then
        (if d = QUOTE then map_option (\<lambda>(v, rest). (QUOTE # v, rest)) (backslash_body cs) else Some ([], d # cs))
      else map_option (\<lambda>(v, rest). (c # v, rest)) (backslash_body (d # cs)))"

lemma backslash_leaves_literal:
  "\<exists>s rest. rest \<noteq> [] \<and> backslash_body (tl (quote_value (VText s))) = Some ([QUOTE], rest)"
proof -
  have "backslash_body (tl (quote_value (VText ([BACKSLASH, QUOTE] @ '' OR 1=1 -- '')))) =
      Some ([QUOTE], '' OR 1=1 -- '' @ [QUOTE])" by code_simp
  then show ?thesis by blast
qed

section \<open>Resolved ranges\<close>

lemma resolve_last:
  assumes "tr_last tr = Some (Duration n u)" and "1 \<le> n" and "2 \<le> rank u" and "valid_date day"
    and "day = anchor_day (case as_of of None \<Rightarrow> (clock, Some 0) | Some a \<Rightarrow> a)"
    and "resolve_time_range clock tr as_of = Inr rt"
  obtains start stop where "rt_start rt = Some start" "rt_end rt = Some stop" "valid_date start" "valid_date stop"
    "floor_date start u = Inr start" "period_index u start = period_index u day - n"
    "start < stop" "rt_dimension rt = tr_dimension tr"
    "if tr_include_current tr then add_days day 1 = Inr stop else floor_date day u = Inr stop"
proof -
  let ?f = "unit_floor u day"
  have pu: "period_unit (period_index u) (unit_floor u)" using assms(3) by (rule unit_floor_period_unit)
  have fl: "floor_date day u = Inr ?f" using assms(3,4) by (simp add: floor_date_eq)
  have f: "valid_date ?f" "?f \<le> day" "period_index u ?f = period_index u day"
    using period_unit.flr_valid [OF pu assms(4)] period_unit.flr_le [OF pu assms(4)] period_unit.idx_flr [OF pu assms(4)]
    by auto
  have ff: "floor_date ?f u = Inr ?f"
    using floor_date_eq [OF f(1) assms(3)] period_unit.flr_idem [OF pu assms(4)] by simp
  obtain start stop where s: "add_to_date ?f (Duration n u) (- 1) = Inr start"
    "(if tr_include_current tr then add_days day 1 else Inr ?f) = Inr stop"
    "rt_start rt = Some start" "rt_end rt = Some stop" "rt_dimension rt = tr_dimension tr"
    using assms(6) fl unfolding resolve_time_range_def assms(1) assms(5) [symmetric] Let_def
    by (auto simp: rbind_Inr_iff simp flip: assms(5))
  have st: "valid_date start" "floor_date start u = Inr start" "period_index u start = period_index u ?f + - 1 * n"
    using add_aligned [OF f(1) ff s(1)] by auto
  have before: "start < ?f"
  proof (rule ccontr)
    assume "\<not> start < ?f"
    then have "?f \<le> start" by simp
    then have "period_index u ?f \<le> period_index u start" using period_unit.idx_mono [OF pu f(1) st(1)] by simp
    then show False using st(3) assms(2) by simp
  qed
  have stop: "valid_date stop \<and> ?f \<le> stop"
  proof (cases "tr_include_current tr")
    case True
    then have next_day: "add_days day 1 = Inr stop" using s(2) by simp
    note ok = add_days_ok [OF next_day]
    have "day \<le> stop" using toordinal_le_iff [OF assms(4) ok(1)] ok(2) by simp
    then show ?thesis using f(2) ok(1) by simp
  qed (use s(2) f(1) in simp)
  show ?thesis
    using that s st before stop fl f(3) by (cases "tr_include_current tr") auto
qed

section \<open>Properties\<close>

text \<open>
  C32: \<^verbatim>\<open>last: N unit\<close> is what it says. A resolved range starts at the first day of a unit, the one \<open>N\<close>
  units before the unit of the anchor day, and ends at the first day of that unit, so it holds
  exactly the \<open>N\<close> whole units before it and never the anchor day; with \<^verbatim>\<open>include_current\<close> it ends the
  day after the anchor. The explicit range put back on the query is always valid.
\<close>

theorem last_range_holds_whole_units:
  assumes "validate_bounds tr = Inr ()" and "tr_last tr = Some (Duration n u)" and "1 \<le> n"
    and "valid_date (anchor_day as_of)" and "resolve_time_range clock tr (Some as_of) = Inr rt"
  shows "\<exists>start stop. rt_start rt = Some start \<and> rt_end rt = Some stop \<and> start < stop \<and>
    floor_date start u = Inr start \<and> period_index u start = period_index u (anchor_day as_of) - n \<and>
    (if tr_include_current tr then add_days (anchor_day as_of) 1 = Inr stop
     else floor_date (anchor_day as_of) u = Inr stop \<and> stop \<le> anchor_day as_of \<and>
       period_index u stop = period_index u start + n) \<and>
    validate_bounds (as_explicit rt) = Inr ()"
proof -
  have u: "2 \<le> rank u" using assms(1,2) by (auto simp: validate_bounds_def Let_def simp del: checks.simps simp add: checks_ok_iff)
  obtain start stop where r: "rt_start rt = Some start" "rt_end rt = Some stop" "valid_date start" "valid_date stop"
    "floor_date start u = Inr start" "period_index u start = period_index u (anchor_day as_of) - n"
    "start < stop" "rt_dimension rt = tr_dimension tr"
    "if tr_include_current tr then add_days (anchor_day as_of) 1 = Inr stop else floor_date (anchor_day as_of) u = Inr stop"
    by (rule resolve_last [OF assms(2,3) u assms(4) _ assms(5)]) simp_all
  have pu: "period_unit (period_index u) (unit_floor u)" using u by (rule unit_floor_period_unit)
  have "stop \<le> anchor_day as_of \<and> period_index u stop = period_index u start + n" if "\<not> tr_include_current tr"
    using r(6,9) that floor_date_eq [OF assms(4) u] period_unit.flr_le [OF pu assms(4)] period_unit.idx_flr [OF pu assms(4)]
    by auto
  moreover have "validate_bounds (as_explicit rt) = Inr ()"
    using r(1,2,7) by (simp add: validate_bounds_def as_explicit_def)
  ultimately show ?thesis using r by auto
qed

lemma last_range_holds_whole_units_witness:
  "\<exists>start stop rt. resolve_time_range (midnight (Date 2026 1 1))
      \<lparr>tr_dimension = ''d'', tr_last = Some (Duration 3 MONTH), tr_start = None, tr_end = None, tr_include_current = False\<rparr>
      (Some (midnight (Date 2026 10 20), None)) = Inr rt \<and>
    rt_start rt = Some start \<and> rt_end rt = Some stop \<and> period_index MONTH stop = period_index MONTH start + 3"
proof -
  let ?tr = "\<lparr>tr_dimension = ''d'', tr_last = Some (Duration 3 MONTH), tr_start = None, tr_end = None, tr_include_current = False\<rparr>"
  have v: "validate_bounds ?tr = Inr ()" by code_simp
  have d: "valid_date (anchor_day (midnight (Date 2026 10 20), None))" by code_simp
  have "is_ok (resolve_time_range (midnight (Date 2026 1 1)) ?tr (Some (midnight (Date 2026 10 20), None)))" by code_simp
  then obtain rt where r: "resolve_time_range (midnight (Date 2026 1 1)) ?tr (Some (midnight (Date 2026 10 20), None)) = Inr rt"
    by (auto simp: is_ok_iff)
  have l: "tr_last ?tr = Some (Duration 3 MONTH)" by simp
  show ?thesis using last_range_holds_whole_units [OF v l _ d r] r by auto
qed

text \<open>
  C33: a filter value cannot leave its literal. Whatever text a structured filter carries, quotes
  included, the predicate is the field, the operator and one SQL string literal that reads back as
  exactly that text, with nothing after it.
\<close>

theorem filter_text_stays_in_its_literal:
  assumes "dict_to_predicate \<lparr>fd_field = Some f, fd_operator = op, fd_value = VText s\<rparr> = Inr p"
  shows "\<exists>sql_op literal. map_of OPERATOR_MAP (str_upper op) = Some sql_op \<and>
    p = f @ '' '' @ sql_op @ '' '' @ literal \<and> sql_literal literal = Some (s, [])"
proof -
  obtain sql_op where "map_of OPERATOR_MAP (str_upper op) = Some sql_op" "sql_op \<noteq> ''IN''"
    "p = f @ '' '' @ sql_op @ '' '' @ quote_value (VText s)"
    using assms by (auto simp: dict_to_predicate_def split: if_splits option.splits)
  then show ?thesis using sql_literal_quote [of "[]" s] by (simp del: quote_value.simps)
qed

definition sample_filter :: filter_dict where
  "sample_filter = \<lparr>fd_field = Some ''name'', fd_operator = ''equals'',
     fd_value = VText ([QUOTE] @ '' OR 1=1 --'')\<rparr>"

lemma filter_text_stays_in_its_literal_witness:
  "\<exists>p sql_op literal. dict_to_predicate sample_filter = Inr p \<and> p = ''name'' @ '' '' @ sql_op @ '' '' @ literal \<and>
    sql_literal literal = Some ([QUOTE] @ '' OR 1=1 --'', [])"
proof -
  have "is_ok (dict_to_predicate sample_filter)" by code_simp
  then obtain p where p: "dict_to_predicate sample_filter = Inr p" by (auto simp: is_ok_iff)
  show ?thesis using filter_text_stays_in_its_literal [OF p [unfolded sample_filter_def]] p by blast
qed

end
