(* ===== verification/Scoping.thy ===== *)
theory Scoping
  imports Trust Join_Planning Time_Ranges
begin

text \<open>
  The parts of \<^verbatim>\<open>src/canonic/compiler/_helpers.py\<close> that decide what a query may read: lookup of a
  dimension, qualification of the names of a filter, filters on denied columns, tenant predicates,
  guardrail enforcement and masking. An expression is a tree whose leaves are columns (\<open>sql\<close>); the
  record \<open>backend\<close> holds what is outside this model: the reader of \<^verbatim>\<open>sqlglot\<close> (\<open>bk_parse\<close>, with the
  rewriting of SQLite date modifiers), two constructors of the dialect adapter, and the ranking of
  \<^verbatim>\<open>difflib.get_close_matches\<close>, which only fills hints. \<open>cols\<close> gives the columns of a dimension's
  expression as in the semantic model. Python sets that are only tested or united are lists here.
\<close>

section \<open>Expressions\<close>

text \<open>
  A column carries its schema qualifier, its table and its name, empty where the text has none.
  \<^verbatim>\<open>Expression.transform\<close> replaces a column by what the callback returns and does not descend into it.
\<close>

datatype sql = Col string string string | Op string "sql list"

fun columns :: "sql \<Rightarrow> (string \<times> string) list" where
  "columns (Col db t n) = [(t, n)]"
| "columns (Op f es) = concat (map columns es)"

fun map_columns :: "(string \<Rightarrow> string \<Rightarrow> string \<Rightarrow> sql) \<Rightarrow> sql \<Rightarrow> sql" where
  "map_columns g (Col db t n) = g db t n"
| "map_columns g (Op f es) = Op f (map (map_columns g) es)"

lemma rmap_cong [fundef_cong]:
  "xs = ys \<Longrightarrow> (\<And>x. x \<in> set ys \<Longrightarrow> f x = g x) \<Longrightarrow> rmap f xs = rmap g ys"
  by (induction ys arbitrary: xs) (auto split: sum.splits)

text \<open>A callback that may raise and that records the aliases it touches.\<close>

fun bind_columns :: "(string \<Rightarrow> string \<Rightarrow> string \<Rightarrow> (sql \<times> string list) res) \<Rightarrow> sql \<Rightarrow> (sql \<times> string list) res" where
  "bind_columns g (Col db t n) = g db t n"
| "bind_columns g (Op f es) =
     rbind (rmap (bind_columns g) es) (\<lambda>rs. Inr (Op f (map fst rs), concat (map snd rs)))"

record backend =
  bk_parse :: "string \<Rightarrow> sql option"
  bk_json_value :: "sql \<Rightarrow> string list \<Rightarrow> normalized_type \<Rightarrow> sql"
  bk_date_add :: "sql \<Rightarrow> duration \<Rightarrow> bool \<Rightarrow> sql"
  bk_close_matches :: "string \<Rightarrow> string list \<Rightarrow> string list"

definition parse_sql :: "backend \<Rightarrow> string \<Rightarrow> sql res" where
  "parse_sql bk text = (case bk_parse bk text of None \<Rightarrow> Inl SqlglotError | Some e \<Rightarrow> Inr e)"

text \<open>
  The columns an offset moves, with their offsets and whether they hold dates: the context variable
  \<^verbatim>\<open>_SHIFTED\<close>, empty outside a shifted block.
\<close>

type_synonym shifts = "(string \<times> string, duration list \<times> bool) dict"

definition shift :: "backend \<Rightarrow> shifts \<Rightarrow> sql \<Rightarrow> sql" where
  "shift bk sh e =
     (if sh = [] then e
      else map_columns (\<lambda>db t n.
        case map_of sh (t, n) of
          None \<Rightarrow> Col db t n
        | Some (offsets, is_date) \<Rightarrow> fold (\<lambda>off moved. bk_date_add bk moved off is_date) offsets (Col db t n)) e)"

definition qualify_to :: "sql \<Rightarrow> string \<Rightarrow> sql" where
  "qualify_to e a = map_columns (\<lambda>db t n. if t = [] then Col [] a n else Col db t n) e"

definition dimension_base_expr :: "backend \<Rightarrow> shifts \<Rightarrow> string \<Rightarrow> dimension \<Rightarrow> sql res" where
  "dimension_base_expr bk sh a d =
     (case dim_expr d of
        Some text \<Rightarrow> rbind (parse_sql bk text) (\<lambda>e. Inr (shift bk sh (qualify_to e a)))
      | None \<Rightarrow>
          (case dim_column d of
             None \<Rightarrow> Inl AssertionError
           | Some c \<Rightarrow>
               (case dim_json_path d of
                  None \<Rightarrow> Inr (shift bk sh (Col [] a c))
                | Some path \<Rightarrow>
                    (case dim_type d of
                       None \<Rightarrow> Inl AssertionError
                     | Some ty \<Rightarrow> Inr (bk_json_value bk (Col [] a c) path ty)))))"

fun rfold :: "('a \<Rightarrow> 'b \<Rightarrow> 'b res) \<Rightarrow> 'a list \<Rightarrow> 'b \<Rightarrow> 'b res" where
  "rfold f [] acc = Inr acc"
| "rfold f (x # xs) acc = rbind (f x acc) (rfold f xs)"

section \<open>Dimensions\<close>

definition dim_matches :: "dimension \<Rightarrow> string \<Rightarrow> bool" where
  "dim_matches d name \<longleftrightarrow> dim_name d = name \<or> name \<in> set (dim_aliases d)"

definition find_measure :: "semantic_source \<Rightarrow> string \<Rightarrow> measure option" where
  "find_measure src name = find (\<lambda>me. me_name me = name) (ss_measures src)"

text \<open>\<^verbatim>\<open>_reachable_from\<close>: the sources a walk over declared joins reaches, the owner left out.\<close>

fun add_targets :: "join list \<Rightarrow> string list \<Rightarrow> string list \<Rightarrow> string list \<times> string list" where
  "add_targets [] frontier visited = (frontier, visited)"
| "add_targets (j # js) frontier visited =
     (if jn_to j \<in> set visited then add_targets js frontier visited
      else add_targets js (jn_to j # frontier) (visited @ [jn_to j]))"

definition all_targets :: "sources \<Rightarrow> string set" where
  "all_targets srcs = jn_to ` set (concat (map (ss_joins \<circ> snd) srcs))"

lemma finite_all_targets [simp]: "finite (all_targets srcs)"
  by (simp add: all_targets_def)

lemma joins_of_targets:
  assumes "j \<in> set (joins_of srcs s)"
  shows "jn_to j \<in> all_targets srcs"
proof -
  obtain src where src: "map_of srcs s = Some src" "j \<in> set (ss_joins src)"
    using assms by (cases "map_of srcs s") (simp_all add: joins_of_def)
  have "j \<in> set (concat (map (ss_joins \<circ> snd) srcs))"
    using map_of_SomeD [OF src(1)] src(2) by force
  then show ?thesis by (simp only: all_targets_def) (rule imageI)
qed

lemma add_targets_visited:
  "add_targets js frontier visited = (f, v) \<Longrightarrow> \<exists>new. v = visited @ new \<and> set new \<subseteq> jn_to ` set js \<and>
    set new \<inter> set visited = {} \<and> (new = [] \<longrightarrow> f = frontier)"
proof (induction js frontier visited arbitrary: f v rule: add_targets.induct)
  case (2 j js frontier visited)
  show ?case
  proof (cases "jn_to j \<in> set visited")
    case True
    then show ?thesis using 2 by (auto 0 4)
  next
    case False
    then obtain new where "v = (visited @ [jn_to j]) @ new" "set new \<subseteq> jn_to ` set js" "set new \<inter> set (visited @ [jn_to j]) = {}"
      using 2 by fastforce
    then show ?thesis using False by (intro exI [of _ "jn_to j # new"]) auto
  qed
qed simp

function reach_walk :: "sources \<Rightarrow> string list \<Rightarrow> string list \<Rightarrow> string list" where
  "reach_walk srcs [] visited = visited"
| "reach_walk srcs (node # frontier) visited =
     (case add_targets (joins_of srcs node) frontier visited of (f, v) \<Rightarrow> reach_walk srcs f v)"
  by pat_completeness auto

termination
proof (relation "inv_image (finite_psubset <*lex*> less_than)
    (\<lambda>(srcs, frontier, visited). (all_targets srcs - set visited, length frontier))", goal_cases)
  case 1
  show ?case by auto
next
  case (2 srcs node frontier visited f v)
  then obtain new where new: "v = visited @ new" "set new \<subseteq> jn_to ` set (joins_of srcs node)" "set new \<inter> set visited = {}"
    "new = [] \<longrightarrow> f = frontier"
    using add_targets_visited by metis
  have sub: "set new \<subseteq> all_targets srcs" using new(2) joins_of_targets by fastforce
  show ?case
  proof (cases new)
    case Nil
    then show ?thesis using new by simp
  next
    case (Cons t ts)
    then have "t \<in> all_targets srcs - set visited" "t \<notin> all_targets srcs - set v" using sub new by auto
    moreover have "all_targets srcs - set v \<subseteq> all_targets srcs - set visited" using new(1) by auto
    ultimately have "all_targets srcs - set v \<subset> all_targets srcs - set visited" by blast
    then show ?thesis by (simp add: finite_psubset_def)
  qed
qed

declare reach_walk.simps [simp del]

definition reachable_from :: "string \<Rightarrow> sources \<Rightarrow> string list" where
  "reachable_from owner srcs = filter (\<lambda>s. s \<noteq> owner) (reach_walk srcs [owner] [owner])"

definition dims_in :: "sources \<Rightarrow> string \<Rightarrow> dimension list" where
  "dims_in srcs s = (case map_of srcs s of None \<Rightarrow> [] | Some src \<Rightarrow> ss_dimensions src)"

definition ambiguous_dimension :: "string \<Rightarrow> (string \<times> dimension) list \<Rightarrow> exn" where
  "ambiguous_dimension name cands =
     CanonicError Ambiguous [name] (map (\<lambda>(a, d). a @ ''.'' @ dim_name d) cands)"

definition find_qualified :: "sources \<Rightarrow> (string, string) dict option \<Rightarrow> string \<Rightarrow> string \<Rightarrow> (string \<times> dimension) option" where
  "find_qualified srcs aliases role dname =
     (case aliases of
        None \<Rightarrow> None
      | Some tree \<Rightarrow>
          (case map_of tree role of
             None \<Rightarrow> None
           | Some s \<Rightarrow> map_option (\<lambda>d. (role, d)) (find (\<lambda>d. dim_matches d dname) (dims_in srcs s))))"

text \<open>The matching dimensions of the other aliases, in alias order.\<close>

definition joined_candidates :: "sources \<Rightarrow> string \<Rightarrow> (string, string) dict option \<Rightarrow> string \<Rightarrow> (string \<times> dimension) list" where
  "joined_candidates srcs owner aliases name =
     (let reachable = (case aliases of
            Some tree \<Rightarrow> filter (\<lambda>as. fst as \<noteq> owner) tree
          | None \<Rightarrow> map (\<lambda>s. (s, s)) (reachable_from owner srcs))
      in concat (map (\<lambda>(a, s). map (\<lambda>d. (a, d)) (filter (\<lambda>d. dim_matches d name) (dims_in srcs s)))
           (sort_key fst reachable)))"

definition find_dimension :: "string \<Rightarrow> sources \<Rightarrow> string option \<Rightarrow> (string, string) dict option \<Rightarrow>
    (string \<times> dimension) option res" where
  "find_dimension name srcs owner aliases =
     (if CHR ''.'' \<in> set name then
        (case partition_on CHR ''.'' name of (role, _, dname) \<Rightarrow> Inr (find_qualified srcs aliases role dname))
      else (case owner of
          Some ow \<Rightarrow>
            (case find (\<lambda>d. dim_matches d name) (dims_in srcs ow) of
               Some d \<Rightarrow> Inr (Some (ow, d))
             | None \<Rightarrow>
                 (case joined_candidates srcs ow aliases name of
                    [] \<Rightarrow> Inr None
                  | [c] \<Rightarrow> Inr (Some c)
                  | cands \<Rightarrow> Inl (ambiguous_dimension name cands)))
        | None \<Rightarrow>
            Inr (case concat (map (\<lambda>s. map (\<lambda>d. (s, d)) (filter (\<lambda>d. dim_matches d name) (dims_in srcs s))) (sort (map fst srcs))) of
               [] \<Rightarrow> None | c # _ \<Rightarrow> Some c)))"

definition dimension_output_names :: "(string \<times> dimension) list \<Rightarrow> string list" where
  "dimension_output_names dims =
     map (\<lambda>(role, d). if count_list (map (\<lambda>(r, x). dim_name x) dims) (dim_name d) = 1 then dim_name d
            else role @ ''.'' @ dim_name d) dims"

definition dimension_tokens :: "sources \<Rightarrow> (string, string) dict" where
  "dimension_tokens srcs =
     dict_of (concat (map (\<lambda>(k, src). concat (map (\<lambda>d.
       (str_lower (dim_name d), dim_name d) # map (\<lambda>a. (str_lower a, dim_name d)) (dim_aliases d) @
       (case dim_label d of None \<Rightarrow> [] | Some l \<Rightarrow> if l = [] then [] else [(str_lower l, dim_name d)]))
       (ss_dimensions src))) srcs))"

definition dimension_suggestions :: "backend \<Rightarrow> string \<Rightarrow> sources \<Rightarrow> string list" where
  "dimension_suggestions bk name srcs =
     (let tokens = dimension_tokens srcs
      in dedup (map (\<lambda>t. case map_of tokens t of None \<Rightarrow> t | Some c \<Rightarrow> c)
           (bk_close_matches bk (str_lower name) (map fst tokens))))"

definition resolve_dimensions :: "backend \<Rightarrow> semantic_query \<Rightarrow> sources \<Rightarrow> string \<Rightarrow> (string, string) dict \<Rightarrow>
    (string \<times> dimension) list res" where
  "resolve_dimensions bk q srcs owner tree =
     rmap (\<lambda>name. rbind (find_dimension name srcs (Some owner) (Some tree)) (\<lambda>found.
       case found of
         Some x \<Rightarrow> Inr x
       | None \<Rightarrow>
           (let suggestions = dimension_suggestions bk name (filter (\<lambda>(k, src). k \<in> set (map snd tree)) srcs)
            in Inl (CanonicError Unreachable (name # suggestions) suggestions)))) (sq_dimensions q)"

definition has_column :: "semantic_source \<Rightarrow> string \<Rightarrow> bool" where
  "has_column src name \<longleftrightarrow> (\<exists>c\<in>set (ss_columns src). col_name c = name)"

definition bind_name :: "string \<Rightarrow> sources \<Rightarrow> string option \<Rightarrow> (string, string) dict option \<Rightarrow> (string \<times> string) option res" where
  "bind_name name srcs owner aliases =
     (let has = (\<lambda>s. case map_of srcs s of None \<Rightarrow> False | Some src \<Rightarrow> has_column src name)
      in rbind (find_dimension name srcs owner aliases) (\<lambda>found.
        case (case found of None \<Rightarrow> None | Some (a, d) \<Rightarrow>
                (if dim_json_path d = None then map_option (\<lambda>c. (a, c)) (dim_column d) else None)) of
          Some x \<Rightarrow> Inr (Some x)
        | None \<Rightarrow>
            Inr (case owner of
                Some ow \<Rightarrow>
                  (if has ow then Some (ow, name)
                   else map_option (\<lambda>s. (s, name)) (find (\<lambda>s. s \<noteq> ow \<and> has s) (sort (map fst srcs))))
              | None \<Rightarrow> map_option (\<lambda>s. (s, name)) (find has (sort (map fst srcs))))))"

section \<open>Filters\<close>

definition source_of :: "(string, string) dict \<Rightarrow> string \<Rightarrow> string" where
  "source_of tree a = (case map_of tree a of None \<Rightarrow> a | Some s \<Rightarrow> s)"

definition derived_expr :: "backend \<Rightarrow> shifts \<Rightarrow> string \<Rightarrow> dimension \<Rightarrow> (sql \<times> string list) res" where
  "derived_expr bk sh a d = rbind (dimension_base_expr bk sh a d) (\<lambda>e. Inr (Op ''Paren'' [e], [a]))"

definition qualified_column :: "backend \<Rightarrow> shifts \<Rightarrow> sources \<Rightarrow> string option \<Rightarrow> (string, string) dict option \<Rightarrow>
    string \<Rightarrow> string \<Rightarrow> string \<Rightarrow> (sql \<times> string list) res" where
  "qualified_column bk sh srcs owner aliases db role name =
     (case aliases of
        None \<Rightarrow> Inr (Col db role name, [role])
      | Some tree \<Rightarrow>
          (if db \<noteq> [] then Inr (Col db role name, [role])
           else rbind (find_dimension (role @ ''.'' @ name) srcs owner aliases) (\<lambda>found.
             case found of
               Some (a, d) \<Rightarrow>
                 (if is_derived d then map_sum id (apsnd (\<lambda>used. role # used)) (derived_expr bk sh a d)
                  else Inr (case dim_column d of Some c \<Rightarrow> Col [] a c | None \<Rightarrow> Col db role name, [role]))
             | None \<Rightarrow>
                 (case map_of srcs (source_of tree role) of
                    None \<Rightarrow> Inl (CanonicError Unreachable [role] [])
                  | Some src \<Rightarrow>
                      (if has_column src name then Inr (Col db role name, [role])
                       else (let suggestions = dimension_suggestions bk name [(ss_name src, src)]
                             in Inl (CanonicError Unreachable (name # role # suggestions) suggestions)))))))"

definition bind_column :: "backend \<Rightarrow> shifts \<Rightarrow> sources \<Rightarrow> string option \<Rightarrow> (string, string) dict option \<Rightarrow>
    string \<Rightarrow> string \<Rightarrow> string \<Rightarrow> (sql \<times> string list) res" where
  "bind_column bk sh srcs owner aliases db t name =
     (if t \<noteq> [] then qualified_column bk sh srcs owner aliases db t name
      else rbind (find_dimension name srcs owner aliases) (\<lambda>found.
        case (case found of None \<Rightarrow> None | Some (a, d) \<Rightarrow> if is_derived d then Some (a, d) else None) of
          Some (a, d) \<Rightarrow> derived_expr bk sh a d
        | None \<Rightarrow>
            rbind (bind_name name srcs owner aliases) (\<lambda>b.
              case b of
                None \<Rightarrow> Inl (CanonicError Unreachable [name] [])
              | Some (a, c) \<Rightarrow> Inr (Col [] a c, [a]))))"

definition qualify_columns :: "backend \<Rightarrow> shifts \<Rightarrow> sql \<Rightarrow> sources \<Rightarrow> string option \<Rightarrow> (string, string) dict option \<Rightarrow>
    (sql \<times> string list) res" where
  "qualify_columns bk sh e srcs owner aliases = bind_columns (bind_column bk sh srcs owner aliases) e"

definition denied_filter_columns :: "(string \<Rightarrow> string list option) \<Rightarrow> sources \<Rightarrow> effective_policy \<Rightarrow> (string \<times> string) list res" where
  "denied_filter_columns cols srcs pol =
     map_sum id concat (rmap (\<lambda>(k, src).
       map_sum id concat (rmap (\<lambda>d. map_sum id (map (\<lambda>c. (ss_name src, c))) (backing_columns cols d))
         (filter (\<lambda>d. \<not> dimension_allowed pol (dim_name d)) (ss_dimensions src)))) srcs)"

definition bind_filter :: "backend \<Rightarrow> shifts \<Rightarrow> sources \<Rightarrow> string \<Rightarrow> (string, string) dict option \<Rightarrow>
    (string \<times> string) list \<Rightarrow> string \<Rightarrow> (sql \<times> string list) res" where
  "bind_filter bk sh srcs owner aliases denied raw =
     rbind (parse_sql bk raw) (\<lambda>parsed.
     rbind (qualify_columns bk sh parsed srcs (Some owner) aliases) (\<lambda>(bound, used).
     rbind (rfor (\<lambda>(a, c).
         if (source_of (case aliases of None \<Rightarrow> [] | Some tree \<Rightarrow> tree) a, c) \<in> set denied
         then Inl (CanonicError Unreachable [c] []) else Inr ()) (columns bound))
       (\<lambda>_. Inr (shift bk sh bound, used))))"

definition bind_filters :: "(string \<Rightarrow> string list option) \<Rightarrow> backend \<Rightarrow> shifts \<Rightarrow> string list \<Rightarrow> sources \<Rightarrow> string \<Rightarrow>
    (string, string) dict option \<Rightarrow> effective_policy option \<Rightarrow> (sql list \<times> string list) res" where
  "bind_filters cols bk sh filters srcs owner aliases policy =
     rbind (case policy of None \<Rightarrow> Inr [] | Some pol \<Rightarrow> denied_filter_columns cols srcs pol) (\<lambda>denied.
     rbind (rmap (bind_filter bk sh srcs owner aliases denied) filters) (\<lambda>bs.
       Inr (map fst bs, concat (map snd bs))))"

definition population_filter_conditions :: "backend \<Rightarrow> shifts \<Rightarrow> string option \<Rightarrow> sources \<Rightarrow> string \<Rightarrow>
    (string, string) dict option \<Rightarrow> sql list res" where
  "population_filter_conditions bk sh population srcs owner aliases =
     (case population of
        None \<Rightarrow> Inr []
      | Some text \<Rightarrow>
          (if text = [] then Inr []
           else rbind (parse_sql bk text) (\<lambda>parsed.
             map_sum id (\<lambda>(bound, used). [bound]) (qualify_columns bk sh parsed srcs (Some owner) aliases))))"

definition combine_population_filters :: "string option list \<Rightarrow> string option" where
  "combine_population_filters filters =
     (let present = concat (map (\<lambda>f. case f of None \<Rightarrow> [] | Some t \<Rightarrow> if t = [] then [] else [t]) filters)
      in if present = [] then None
         else Some (join_with '' AND '' (map (\<lambda>t. ''('' @ t @ '')'') present)))"

section \<open>Tenancy\<close>

datatype tenant_predicate = TenantEq string string tenant_value | TenantIn string string "tenant_value list"

definition INT_MAX_DIGITS :: nat where
  "INT_MAX_DIGITS = 4300"

text \<open>\<^verbatim>\<open>int(text)\<close>: blanks around, a sign, digits with single underscores between them, at most the limit.\<close>

definition int_of_text :: "string \<Rightarrow> int option" where
  "int_of_text s =
     (let t = strip s;
          neg = (take 1 t = ''-'');
          body = (if take 1 t \<in> {''-'', ''+''} then drop 1 t else t);
          parts = split_on CHR ''_'' body
      in if list_all (\<lambda>p. p \<noteq> [] \<and> list_all is_digit p) parts \<and> length (concat parts) \<le> INT_MAX_DIGITS
         then Some (if neg then - int (nat_of_digits (concat parts)) else int (nat_of_digits (concat parts)))
         else None)"

definition NUMERIC_TENANT_TYPES :: "normalized_type list" where
  "NUMERIC_TENANT_TYPES = [INT_T, DECIMAL_T, FLOAT_T]"

definition match_tenant :: "normalized_type option \<Rightarrow> string \<Rightarrow> tenant_value \<Rightarrow> tenant_value res" where
  "match_tenant ty place v =
     (if ty \<in> Some ` set NUMERIC_TENANT_TYPES then
        (case v of
           TInt n \<Rightarrow> Inr (TInt n)
         | TStr s \<Rightarrow> (case int_of_text s of Some n \<Rightarrow> Inr (TInt n) | None \<Rightarrow> Inl (CanonicError TenantUnresolved [s, place] [])))
      else if ty = Some STRING_T then
        Inr (TStr (case v of TInt n \<Rightarrow> show_int n | TStr s \<Rightarrow> s))
      else Inr v)"

definition tenant_literals :: "tenant_value list \<Rightarrow> normalized_type option \<Rightarrow> string \<Rightarrow> tenant_value list res" where
  "tenant_literals tenants ty place =
     rbind (rmap (match_tenant ty place) tenants) (\<lambda>vs. Inr (sort_key tenant_sort_key (remdups vs)))"

definition mk_tenant_predicate :: "string \<Rightarrow> string \<Rightarrow> tenant_value list \<Rightarrow> tenant_predicate" where
  "mk_tenant_predicate a column values = (case values of [v] \<Rightarrow> TenantEq a column v | _ \<Rightarrow> TenantIn a column values)"

definition scope_column_type :: "semantic_source option \<Rightarrow> string \<Rightarrow> normalized_type option" where
  "scope_column_type src column =
     (case src of None \<Rightarrow> None | Some s \<Rightarrow> map_option col_type (find (\<lambda>c. col_name c = column) (ss_columns s)))"

record tenant_scoping =
  tn_conditions :: "tenant_predicate list"
  tn_scoped :: "string list"
  tn_shared :: "string list"
  tn_warnings :: "string list"

definition no_scoping :: tenant_scoping where
  "no_scoping = \<lparr>tn_conditions = [], tn_scoped = [], tn_shared = [], tn_warnings = []\<rparr>"

text \<open>One alias of the leaf's join plan.\<close>

definition scope_alias :: "resolver \<Rightarrow> (string, string) dict \<Rightarrow> tenant_value list \<Rightarrow> sources \<Rightarrow> string \<Rightarrow> tenant_scoping \<Rightarrow>
    tenant_scoping res" where
  "scope_alias r tree tenants srcs a acc =
     (let source = source_of tree a
      in case tenancy_for r source of
           ScopeRule s column \<Rightarrow>
             (if tenants = [] then Inr acc
              else rbind (tenant_literals tenants (scope_column_type (map_of srcs source) column) (source @ ''.'' @ column))
                (\<lambda>values. Inr (acc\<lparr>tn_conditions := tn_conditions acc @ [mk_tenant_predicate a column values],
                  tn_scoped := tn_scoped acc @ [source]\<rparr>)))
         | Shared s \<Rightarrow> Inr (acc\<lparr>tn_shared := tn_shared acc @ [source]\<rparr>)
         | Undeclared s \<Rightarrow>
             (case rs_tenancy r of
                None \<Rightarrow> Inl AssertionError
              | Some pol \<Rightarrow>
                  (if tp_undeclared pol = US_WARN then Inr (acc\<lparr>tn_warnings := tn_warnings acc @ [source]\<rparr>)
                   else Inl (CanonicError TenantScopeMissing [source] []))))"

definition tenant_conditions :: "resolver \<Rightarrow> string \<Rightarrow> join_edge list \<Rightarrow> (string, string) dict \<Rightarrow> tenant_value list \<Rightarrow>
    effective_policy \<Rightarrow> sources \<Rightarrow> tenant_scoping res" where
  "tenant_conditions r owner edges tree tenants pol srcs =
     (if ep_tenancy_exempt pol then Inr no_scoping
      else rfold (scope_alias r tree tenants srcs) (owner # map je_alias edges) no_scoping)"

section \<open>Guardrails\<close>

definition block_or_warn :: "guardrail \<Rightarrow> string list \<Rightarrow> string res" where
  "block_or_warn g cands =
     (if gr_severity g = ERROR_SEV then Inl (CanonicError GuardrailBlock [gr_rationale g] cands)
      else Inr (gr_id g @ '': '' @ gr_rationale g))"

definition query_references_dimension :: "string \<Rightarrow> string set \<Rightarrow> string set \<Rightarrow> bool" where
  "query_references_dimension entry used_dims filter_tokens =
     (let bare = after_last CHR ''.'' entry
      in entry \<in> used_dims \<or> bare \<in> used_dims \<or> bare \<in> filter_tokens)"

definition guardrail_predicate :: "guardrail \<Rightarrow> string option" where
  "guardrail_predicate g =
     (case gr_kind g of
        MANDATORY_FILTER \<Rightarrow> gr_filter g
      | REQUIRED_DIMENSION \<Rightarrow> Some (''group by or filter on '' @ (case gr_dimension g of None \<Rightarrow> ''None'' | Some d \<Rightarrow> d))
      | RESTRICT_SOURCE \<Rightarrow> map_option (\<lambda>role. ''source role = '' @ role) (gr_restrict_to g)
      | MIN_TRUST \<Rightarrow> Some (''trust tier >= '' @ (case gr_level g of None \<Rightarrow> ''None'' | Some l \<Rightarrow> l)))"

text \<open>The entities a filter reads, as \<^verbatim>\<open>connection.source.member\<close>; none when it does not bind.\<close>

definition entity :: "semantic_source \<Rightarrow> string \<Rightarrow> string" where
  "entity src member = ss_connection src @ ''.'' @ ss_name src @ ''.'' @ member"

definition column_entities :: "sources \<Rightarrow> string \<times> string \<Rightarrow> string list" where
  "column_entities srcs tc =
     (case map_of srcs (fst tc) of
        None \<Rightarrow> []
      | Some src \<Rightarrow> entity src (snd tc) #
          map (\<lambda>d. entity src (dim_name d)) (filter (\<lambda>d. dim_column d = Some (snd tc)) (ss_dimensions src)))"

definition filter_entities :: "backend \<Rightarrow> shifts \<Rightarrow> string \<Rightarrow> string \<Rightarrow> sources \<Rightarrow> string list res" where
  "filter_entities bk sh text owner srcs =
     (case rbind (parse_sql bk text) (\<lambda>parsed. qualify_columns bk sh parsed srcs (Some owner) None) of
        Inr (bound, used) \<Rightarrow> Inr (dedup (concat (map (column_entities srcs) (columns bound))))
      | Inl SqlglotError \<Rightarrow> Inr []
      | Inl (CanonicError Unreachable args cands) \<Rightarrow> Inr []
      | Inl e \<Rightarrow> Inl e)"

record resolved_metric =
  rm_name :: string
  rm_source :: string
  rm_measure :: measure

definition member_entity :: "sources \<Rightarrow> string \<Rightarrow> string \<Rightarrow> string list" where
  "member_entity srcs source member =
     (case map_of srcs source of
        None \<Rightarrow> []
      | Some src \<Rightarrow> [ss_connection src @ ''.'' @ source @ ''.'' @ member])"

definition guardrail_entities :: "backend \<Rightarrow> shifts \<Rightarrow> guardrail \<Rightarrow> resolved_metric \<Rightarrow> sources \<Rightarrow> string list res" where
  "guardrail_entities bk sh g m srcs =
     rbind (if blank (gr_filter g) then Inr [] else filter_entities bk sh (the (gr_filter g)) (rm_source m) srcs)
       (\<lambda>read. Inr (dedup (member_entity srcs (rm_source m) (me_name (rm_measure m)) @ read @
          (if blank (gr_dimension g) then []
           else member_entity srcs (rm_source m) (after_last CHR ''.'' (the (gr_dimension g)))))))"

record fired_guardrail =
  fg_id :: string
  fg_kind :: guardrail_kind
  fg_severity :: severity
  fg_predicate :: "string option"
  fg_entities :: "string list"
  fg_refs :: "string list"

record guardrail_enforcement =
  ge_conditions :: "sql list"
  ge_fired :: "fired_guardrail list"
  ge_warnings :: "string list"

definition apply_guardrail :: "backend \<Rightarrow> shifts \<Rightarrow> sources \<Rightarrow> resolved_metric \<Rightarrow> guardrail \<Rightarrow> guardrail_enforcement \<Rightarrow>
    guardrail_enforcement res" where
  "apply_guardrail bk sh srcs m g e =
     (if gr_id g \<in> set (map fg_id (ge_fired e)) then Inr e
      else rbind (if blank (gr_filter g) then Inr []
                  else rbind (parse_sql bk (the (gr_filter g))) (\<lambda>parsed.
                    map_sum id (\<lambda>(bound, used). [bound]) (qualify_columns bk sh parsed srcs (Some (rm_source m)) None)))
        (\<lambda>conds. rbind (guardrail_entities bk sh g m srcs) (\<lambda>entities.
           Inr \<lparr>ge_conditions = ge_conditions e @ conds,
                ge_fired = ge_fired e @ [\<lparr>fg_id = gr_id g, fg_kind = gr_kind g, fg_severity = gr_severity g,
                  fg_predicate = guardrail_predicate g, fg_entities = entities, fg_refs = gr_knowledge_refs g\<rparr>],
                ge_warnings = ge_warnings e @
                  (if \<not> blank (gr_filter g) \<and> gr_severity g = WARN then [gr_id g @ '': '' @ gr_rationale g] else [])\<rparr>)))"

definition enforce_guardrails :: "backend \<Rightarrow> shifts \<Rightarrow> resolved_metric list \<Rightarrow> resolver \<Rightarrow> sources \<Rightarrow> guardrail_enforcement res" where
  "enforce_guardrails bk sh metrics r srcs =
     rfold (\<lambda>m. rfold (apply_guardrail bk sh srcs m) (guardrails_for r (rm_source m) (me_name (rm_measure m)))) metrics
       \<lparr>ge_conditions = [], ge_fired = [], ge_warnings = []\<rparr>"

text \<open>\<^verbatim>\<open>_guardrail_join_sources\<close>: the aliases met, and the guardrails already read.\<close>

definition guardrail_joins_step :: "backend \<Rightarrow> shifts \<Rightarrow> sources \<Rightarrow> (string, string) dict \<Rightarrow> string \<Rightarrow> guardrail \<Rightarrow>
    string list \<times> string list \<Rightarrow> (string list \<times> string list) res" where
  "guardrail_joins_step bk sh srcs tree source g acc =
     (if blank (gr_filter g) \<or> gr_id g \<in> set (snd acc) then Inr acc
      else rbind (parse_sql bk (the (gr_filter g))) (\<lambda>parsed.
        rbind (qualify_columns bk sh parsed srcs (Some source) (Some tree)) (\<lambda>(bound, used).
          Inr (fst acc @ used, snd acc @ [gr_id g]))))"

definition guardrail_join_sources :: "backend \<Rightarrow> shifts \<Rightarrow> (string \<times> string) list \<Rightarrow> resolver \<Rightarrow> sources \<Rightarrow>
    (string, string) dict \<Rightarrow> string list res" where
  "guardrail_join_sources bk sh pairs r srcs tree =
     map_sum id fst (rfold (\<lambda>(source, meas). rfold (guardrail_joins_step bk sh srcs tree source) (guardrails_for r source meas))
       pairs ([], []))"

section \<open>Masking\<close>

type_synonym dim_mask = "(string \<times> string, mask_strategy) dict"

definition mask_entries :: "(string, mask_strategy) dict \<Rightarrow> string \<times> string \<Rightarrow> ((string \<times> string) \<times> mask_strategy) list" where
  "mask_entries by_column as =
     concat (map (\<lambda>(key, strategy).
       (case partition_on CHR ''.'' key of (s, sep, column) \<Rightarrow>
          if sep \<and> s = snd as then [((fst as, column), strategy)] else [])) by_column)"

definition resolve_dim_mask :: "(string, string) dict \<Rightarrow> masking_rule list \<Rightarrow> dim_mask" where
  "resolve_dim_mask tree rules =
     (if rules = [] then []
      else (let by_column = dict_of (map (\<lambda>m. (mr_column m, mr_strategy m)) rules)
            in dict_of (concat (map (mask_entries by_column) tree))))"

fun first_some :: "('a \<Rightarrow> 'b option) \<Rightarrow> 'a list \<Rightarrow> 'b option" where
  "first_some f [] = None"
| "first_some f (x # xs) = (case f x of None \<Rightarrow> first_some f xs | Some y \<Rightarrow> Some y)"

definition dim_mask_strategy :: "(string \<Rightarrow> string list option) \<Rightarrow> dim_mask \<Rightarrow> string \<Rightarrow> dimension \<Rightarrow> mask_strategy option res" where
  "dim_mask_strategy cols dm a d =
     rbind (backing_columns cols d) (\<lambda>cs. Inr (first_some (\<lambda>c. map_of dm (a, c)) (sorted_set cs)))"

definition apply_mask :: "sql \<Rightarrow> mask_strategy \<Rightarrow> sql" where
  "apply_mask e s =
     (case s of
        MS_NULL \<Rightarrow> Op ''NULL'' []
      | MS_HASH \<Rightarrow> Op ''MD5'' [Op ''CAST text'' [e]]
      | MS_PARTIAL \<Rightarrow> Op ''CONCAT'' [Op ''SUBSTRING'' [e, Op ''1'' [], Op ''2'' []], Op ''***'' []])"

definition dimension_expr :: "backend \<Rightarrow> shifts \<Rightarrow> string \<Rightarrow> dimension \<Rightarrow> mask_strategy option \<Rightarrow> sql res" where
  "dimension_expr bk sh a d strategy =
     rbind (dimension_base_expr bk sh a d) (\<lambda>col.
       (let e = (if blank (dim_granularity d) then col else Op ''DATE_TRUNC'' [Op (the (dim_granularity d)) [], col])
        in Inr (case strategy of None \<Rightarrow> e | Some s \<Rightarrow> apply_mask e s)))"

section \<open>Measures and time dimensions\<close>

definition measure_expr :: "backend \<Rightarrow> string \<Rightarrow> measure \<Rightarrow> sql res" where
  "measure_expr bk a me = rbind (parse_sql bk (me_expr me)) (\<lambda>e. Inr (qualify_to e a))"

definition input_columns :: "backend \<Rightarrow> measure \<Rightarrow> string list res" where
  "input_columns bk me = rbind (parse_sql bk (me_expr me)) (\<lambda>e. Inr (sorted_set (map snd (columns e))))"

definition find_time_dim_name :: "(string \<times> dimension) list \<Rightarrow> sources \<Rightarrow> (string, string) dict \<Rightarrow> string option" where
  "find_time_dim_name dims srcs tree =
     first_some (\<lambda>(a, d). case map_of srcs (source_of tree a) of
         None \<Rightarrow> None
       | Some src \<Rightarrow>
           if value_type d (ss_columns src) \<in> {Some DATE_T, Some TIMESTAMP_T} then Some (dim_name d) else None) dims"

definition requalify_source :: "sql \<Rightarrow> string \<Rightarrow> string \<Rightarrow> sql" where
  "requalify_source e old new = map_columns (\<lambda>db t n. if t = old then Col [] new n else Col db t n) e"

record time_shift =
  ts_dimension :: string
  ts_offset :: duration
  ts_prefilters :: "string list"

text \<open>One offset resolved against a leaf's join tree: every column its dimension reads moves by it.\<close>

definition resolve_shift :: "(string \<Rightarrow> string list option) \<Rightarrow> string \<Rightarrow> sources \<Rightarrow> (string, string) dict \<Rightarrow> time_shift \<Rightarrow> shifts \<Rightarrow> shifts res" where
  "resolve_shift cols owner srcs tree ts resolved =
     rbind (find_dimension (ts_dimension ts) srcs (Some owner) (Some tree)) (\<lambda>found.
       case found of
         None \<Rightarrow> Inl (CanonicError Unreachable [ts_dimension ts] [])
       | Some (a, d) \<Rightarrow>
           (case map_of srcs (source_of tree a) of
              None \<Rightarrow> Inl KeyError
            | Some src \<Rightarrow>
                rbind (backing_columns cols d) (\<lambda>cs. Inr (fold (\<lambda>c sh.
                  AList.update (a, c) ((case map_of sh (a, c) of None \<Rightarrow> [] | Some x \<Rightarrow> fst x) @ [ts_offset ts],
                    scope_column_type (Some src) c \<noteq> Some TIMESTAMP_T) sh) (dedup cs) resolved))))"

definition resolve_shifts :: "(string \<Rightarrow> string list option) \<Rightarrow> time_shift list \<Rightarrow> string \<Rightarrow> sources \<Rightarrow> (string, string) dict \<Rightarrow> shifts res" where
  "resolve_shifts cols tss owner srcs tree = rfold (resolve_shift cols owner srcs tree) tss []"

section \<open>Filters read no denied column\<close>

lemma rfold_snoc: "rfold f (xs @ [x]) acc = rbind (rfold f xs acc) (f x)"
proof (induction xs arbitrary: acc)
  case (Cons y ys)
  then show ?case by (cases "f y acc") simp_all
next
  case Nil
  show ?case by (cases "f x acc") simp_all
qed

lemma map_columns_sub:
  assumes "\<And>db t n. set (columns (g db t n)) \<subseteq> {(t, n)}"
  shows "set (columns (map_columns g e)) \<subseteq> set (columns e)"
  using assms by (induction g e rule: map_columns.induct) (fastforce, fastforce)

lemma fold_date_add_sub:
  assumes "\<And>e off is_date. set (columns (bk_date_add bk e off is_date)) \<subseteq> set (columns e)"
  shows "set (columns (fold (\<lambda>off moved. bk_date_add bk moved off is_date) offsets e)) \<subseteq> set (columns e)"
proof (induction offsets arbitrary: e)
  case (Cons off offsets)
  then show ?case using assms [of e off is_date] by fastforce
qed simp

lemma shift_sub:
  assumes "\<And>e off is_date. set (columns (bk_date_add bk e off is_date)) \<subseteq> set (columns e)"
  shows "set (columns (shift bk sh e)) \<subseteq> set (columns e)"
proof (cases "sh = []")
  case False
  have "set (columns (map_columns (\<lambda>db t n. case map_of sh (t, n) of None \<Rightarrow> Col db t n
      | Some (offsets, is_date) \<Rightarrow> fold (\<lambda>off moved. bk_date_add bk moved off is_date) offsets (Col db t n)) e)) \<subseteq> set (columns e)"
  proof (rule map_columns_sub)
    fix db t n
    show "set (columns (case map_of sh (t, n) of None \<Rightarrow> Col db t n
      | Some (offsets, is_date) \<Rightarrow> fold (\<lambda>off moved. bk_date_add bk moved off is_date) offsets (Col db t n))) \<subseteq> {(t, n)}"
      using fold_date_add_sub [OF assms, where e = "Col db t n"] by (auto split: option.splits)
  qed
  then show ?thesis using False by (simp add: shift_def)
qed (simp add: shift_def)

lemma map_sum_Inr_iff: "map_sum id f m = Inr y \<longleftrightarrow> (\<exists>x. m = Inr x \<and> y = f x)"
  by (cases m) auto

lemma rmap_value: "rmap f xs = Inr ys \<Longrightarrow> x \<in> set xs \<Longrightarrow> \<exists>y\<in>set ys. f x = Inr y"
  by (auto simp: rmap_ok_iff list_all2_conv_all_nth in_set_conv_nth)

lemma rmap_origin: "rmap f xs = Inr ys \<Longrightarrow> y \<in> set ys \<Longrightarrow> \<exists>x\<in>set xs. f x = Inr y"
  unfolding rmap_ok_iff by (induction rule: list_all2_induct) auto

lemma denied_filter_columns_mem:
  assumes "denied_filter_columns cols srcs pol = Inr denied"
    and "(k, src) \<in> set srcs" and "d \<in> set (ss_dimensions src)" and "\<not> dimension_allowed pol (dim_name d)"
    and "backing_columns cols d = Inr cs" and "c \<in> set cs"
  shows "(ss_name src, c) \<in> set denied"
proof -
  obtain per_source where ps: "denied = concat per_source"
    and r: "rmap (\<lambda>(k, src). map_sum id concat (rmap (\<lambda>d. map_sum id (map (\<lambda>c. (ss_name src, c))) (backing_columns cols d))
         (filter (\<lambda>d. \<not> dimension_allowed pol (dim_name d)) (ss_dimensions src)))) srcs = Inr per_source"
    using assms(1) by (auto simp: denied_filter_columns_def map_sum_Inr_iff)
  obtain per_dim where pd: "concat per_dim \<in> set per_source"
    and r2: "rmap (\<lambda>d. map_sum id (map (\<lambda>c. (ss_name src, c))) (backing_columns cols d))
         (filter (\<lambda>d. \<not> dimension_allowed pol (dim_name d)) (ss_dimensions src)) = Inr per_dim"
    using rmap_value [OF r assms(2)] by (auto simp: map_sum_Inr_iff)
  have "map (\<lambda>c. (ss_name src, c)) cs \<in> set per_dim"
    using rmap_value [OF r2, of d] assms(3-5) by auto
  then show ?thesis using pd ps assms(6) by force
qed

lemma bind_filter_reads:
  assumes "bind_filter bk sh srcs owner aliases denied raw = Inr (cond, used)"
    and "\<And>e off is_date. set (columns (bk_date_add bk e off is_date)) \<subseteq> set (columns e)"
    and "(a, c) \<in> set (columns cond)"
  shows "(source_of (case aliases of None \<Rightarrow> [] | Some tree \<Rightarrow> tree) a, c) \<notin> set denied"
proof -
  obtain bound where "cond = shift bk sh bound"
    and "\<forall>x\<in>set (columns bound). (source_of (case aliases of None \<Rightarrow> [] | Some tree \<Rightarrow> tree) (fst x), snd x) \<notin> set denied"
    using assms(1) by (auto simp: bind_filter_def rbind_Inr_iff rfor_ok_iff case_prod_beta if_Inl_ok)
  then show ?thesis using shift_sub [OF assms(2)] assms(3) by fastforce
qed

text \<open>
  C10: A filter that \<^verbatim>\<open>_bind_filters\<close> accepts under a policy never reads, after names are bound, derived
  dimensions are inlined and time shifts are applied, a physical column behind a dimension the policy
  denies: neither by the dimension's name, nor by the raw column, nor through a join role. The
  hypothesis on the dialect adapter says that its date arithmetic reads no column of its own.
\<close>

theorem accepted_filters_read_no_denied_column:
  assumes "\<And>e off is_date. set (columns (bk_date_add bk e off is_date)) \<subseteq> set (columns e)"
    and "bind_filters cols bk sh filters srcs owner (Some tree) (Some pol) = Inr (conds, used)"
    and "cond \<in> set conds" and "(a, c) \<in> set (columns cond)"
    and "(k, src) \<in> set srcs" and "d \<in> set (ss_dimensions src)" and "\<not> dimension_allowed pol (dim_name d)"
    and "backing_columns cols d = Inr cs" and "c \<in> set cs"
  shows "source_of tree a \<noteq> ss_name src"
proof
  assume eq: "source_of tree a = ss_name src"
  obtain denied bs where d: "denied_filter_columns cols srcs pol = Inr denied"
    and bs: "rmap (bind_filter bk sh srcs owner (Some tree) denied) filters = Inr bs" "conds = map fst bs"
    using assms(2) by (auto simp: bind_filters_def rbind_Inr_iff)
  obtain raw used' where "bind_filter bk sh srcs owner (Some tree) denied raw = Inr (cond, used')"
    using bs assms(3) rmap_origin [OF bs(1)] by fastforce
  from bind_filter_reads [OF this assms(1,4)] have "(source_of tree a, c) \<notin> set denied" by simp
  then show False using denied_filter_columns_mem [OF d assms(5-9)] eq by simp
qed

section \<open>Tenant predicates confine the rows\<close>

fun admits :: "(string \<Rightarrow> string \<Rightarrow> tenant_value) \<Rightarrow> tenant_predicate \<Rightarrow> bool" where
  "admits row (TenantEq a column v) \<longleftrightarrow> row a column = v"
| "admits row (TenantIn a column vs) \<longleftrightarrow> row a column \<in> set vs"

lemma admits_mk: "admits row (mk_tenant_predicate a column vs) \<longleftrightarrow> row a column \<in> set vs"
  by (auto simp: mk_tenant_predicate_def split: list.splits)

text \<open>The principal's tenants in the type of the scope column.\<close>

definition tenant_values :: "sources \<Rightarrow> tenant_value list \<Rightarrow> string \<Rightarrow> string \<Rightarrow> tenant_value set" where
  "tenant_values srcs tenants source column =
     {v. \<exists>t\<in>set tenants. match_tenant (scope_column_type (map_of srcs source) column) (source @ ''.'' @ column) t = Inr v}"

lemma tenant_literals_set:
  assumes "tenant_literals tenants ty place = Inr vs"
  shows "set vs = {v. \<exists>t\<in>set tenants. match_tenant ty place t = Inr v}"
proof -
  obtain ws where ws: "rmap (match_tenant ty place) tenants = Inr ws" "set vs = set ws"
    using assms by (auto simp: tenant_literals_def rbind_Inr_iff)
  have "v \<in> set ws \<longleftrightarrow> (\<exists>t\<in>set tenants. match_tenant ty place t = Inr v)" for v
    using ws(1) by (force simp: rmap_ok_iff list_all2_conv_all_nth in_set_conv_nth)
  then show ?thesis using ws(2) by auto
qed

definition confined :: "resolver \<Rightarrow> (string, string) dict \<Rightarrow> tenant_value list \<Rightarrow> sources \<Rightarrow>
    (string \<Rightarrow> string \<Rightarrow> tenant_value) \<Rightarrow> string \<Rightarrow> bool" where
  "confined r tree tenants srcs row a =
     (case tenancy_for r (source_of tree a) of
        ScopeRule s column \<Rightarrow> row a column \<in> tenant_values srcs tenants (source_of tree a) column
      | _ \<Rightarrow> True)"

definition undeclared_only_warned :: "resolver \<Rightarrow> (string, string) dict \<Rightarrow> string list \<Rightarrow> string \<Rightarrow> bool" where
  "undeclared_only_warned r tree warned a =
     (case tenancy_for r (source_of tree a) of
        Undeclared s \<Rightarrow> source_of tree a \<in> set warned \<and> map_option tp_undeclared (rs_tenancy r) = Some US_WARN
      | _ \<Rightarrow> True)"

lemma scope_alias_spec:
  assumes "scope_alias r tree tenants srcs a acc = Inr sc" and "tenants \<noteq> []"
  shows "list_all (admits row) (tn_conditions sc) \<longleftrightarrow>
      list_all (admits row) (tn_conditions acc) \<and> confined r tree tenants srcs row a"
    and "undeclared_only_warned r tree (tn_warnings sc) a" and "set (tn_warnings acc) \<subseteq> set (tn_warnings sc)"
  using assms tenant_literals_set
  by (auto simp: scope_alias_def Let_def rbind_Inr_iff confined_def undeclared_only_warned_def admits_mk tenant_values_def
      split: scope_resolution.splits option.splits if_splits)

lemma scope_aliases_spec:
  assumes "rfold (scope_alias r tree tenants srcs) as no_scoping = Inr sc" and "tenants \<noteq> []"
  shows "(list_all (admits row) (tn_conditions sc) \<longleftrightarrow> list_all (confined r tree tenants srcs row) as) \<and>
    list_all (undeclared_only_warned r tree (tn_warnings sc)) as"
  using assms(1)
proof (induction as arbitrary: sc rule: rev_induct)
  case (snoc a as)
  then obtain acc where acc: "rfold (scope_alias r tree tenants srcs) as no_scoping = Inr acc"
    "scope_alias r tree tenants srcs a acc = Inr sc"
    by (auto simp: rfold_snoc rbind_Inr_iff)
  note step = scope_alias_spec [OF acc(2) assms(2)]
  have "list_all (undeclared_only_warned r tree (tn_warnings sc)) as"
    using snoc.IH [OF acc(1)] step(3)
    by (auto simp: list_all_iff undeclared_only_warned_def split: scope_resolution.splits)
  then show ?case using snoc.IH [OF acc(1)] step(1) [of row] step(2) by simp
qed (simp add: no_scoping_def)

text \<open>
  C2: For a principal with tenants and no exemption, a joined row passes the injected predicates exactly
  when on every alias of the leaf (its owner and every joined alias) whose source is scoped, the scope
  column holds one of the principal's tenants in that column's type. A source the policy does not
  declare is served only under \<^verbatim>\<open>undeclared_source: warn\<close>, and then with a warning that names it.
\<close>

theorem tenant_predicates_confine_rows:
  assumes "tenant_conditions r owner edges tree tenants pol srcs = Inr sc"
    and "\<not> ep_tenancy_exempt pol" and "tenants \<noteq> []"
  shows "(list_all (admits row) (tn_conditions sc) \<longleftrightarrow>
      list_all (confined r tree tenants srcs row) (owner # map je_alias edges)) \<and>
    list_all (undeclared_only_warned r tree (tn_warnings sc)) (owner # map je_alias edges)"
  using assms scope_aliases_spec [of r tree tenants srcs "owner # map je_alias edges" sc row]
  by (simp add: tenant_conditions_def)

section \<open>Masking covers what a dimension reads\<close>

lemma partition_on_iff: "partition_on ch s = (p, True, q) \<longleftrightarrow> s = p @ ch # q \<and> ch \<notin> set p"
proof
  assume "partition_on ch s = (p, True, q)"
  then have h: "ch \<in> set s" "p = takeWhile (\<lambda>x. x \<noteq> ch) s" "q = tl (dropWhile (\<lambda>x. x \<noteq> ch) s)"
    by (auto simp: partition_on_def split: if_splits)
  have "dropWhile (\<lambda>x. x \<noteq> ch) s = ch # q"
    using h(1,3) hd_dropWhile [of "\<lambda>x. x \<noteq> ch" s] by (cases "dropWhile (\<lambda>x. x \<noteq> ch) s") auto
  then have "s = p @ ch # q" using h(2) takeWhile_dropWhile_id [of "\<lambda>x. x \<noteq> ch" s] by simp
  moreover have "ch \<notin> set p" using h(2) by (auto dest: set_takeWhileD)
  ultimately show "s = p @ ch # q \<and> ch \<notin> set p" by simp
next
  assume s: "s = p @ ch # q \<and> ch \<notin> set p"
  then have "dropWhile (\<lambda>x. x \<noteq> ch) (p @ ch # q) = ch # q" by (subst dropWhile_append2) auto
  then show "partition_on ch s = (p, True, q)" using s by (simp add: partition_on_def takeWhile_neq_append)
qed

definition by_column :: "masking_rule list \<Rightarrow> (string, mask_strategy) dict" where
  "by_column rules = dict_of (map (\<lambda>m. (mr_column m, mr_strategy m)) rules)"

lemma by_column_Some: "map_of (by_column rules) k = Some s \<Longrightarrow> \<exists>m\<in>set rules. mr_column m = k \<and> mr_strategy m = s"
  by (auto simp: by_column_def map_of_dict_of dest!: map_of_SomeD)

lemma by_column_None: "map_of (by_column rules) k = None \<longleftrightarrow> (\<forall>m\<in>set rules. mr_column m \<noteq> k)"
  by (force simp: by_column_def map_of_dict_of map_of_eq_None_iff)

lemma map_of_unique_value:
  assumes "\<And>v. (k, v) \<in> set kvs \<longleftrightarrow> w = Some v"
  shows "map_of kvs k = w"
proof (cases w)
  case None
  then have "k \<notin> fst ` set kvs" using assms by force
  then show ?thesis using None by (simp add: map_of_eq_None_iff)
next
  case (Some v)
  then have "k \<in> fst ` set kvs" using assms [of v] by force
  then obtain u where u: "map_of kvs k = Some u" by (metis map_of_eq_None_iff not_Some_eq)
  then show ?thesis using assms [of u] map_of_SomeD Some by fastforce
qed

lemma mask_entries_mem:
  "((a, c), s) \<in> set (mask_entries bc as) \<longleftrightarrow>
    a = fst as \<and> (\<exists>key. (key, s) \<in> set bc \<and> partition_on CHR ''.'' key = (snd as, True, c))"
  unfolding mask_entries_def by (induction bc) (auto split: prod.splits)

lemma resolve_dim_mask_lookup:
  assumes "distinct (map fst tree)" and "map_of tree a = Some source" and "CHR ''.'' \<notin> set source"
  shows "map_of (resolve_dim_mask tree rules) (a, c) = map_of (by_column rules) (source @ ''.'' @ c)"
proof (cases "rules = []")
  case True
  then show ?thesis by (simp add: resolve_dim_mask_def by_column_def dict_of_def)
next
  case False
  let ?kvs = "concat (map (mask_entries (by_column rules)) tree)"
  have d: "distinct (map fst (by_column rules))" by (simp add: by_column_def distinct_dict_of)
  have mem: "((a, c), s) \<in> set (rev ?kvs) \<longleftrightarrow> map_of (by_column rules) (source @ ''.'' @ c) = Some s" for s
  proof -
    have "((a, c), s) \<in> set ?kvs \<longleftrightarrow> (\<exists>source'. (a, source') \<in> set tree \<and>
        (\<exists>key. (key, s) \<in> set (by_column rules) \<and> partition_on CHR ''.'' key = (source', True, c)))"
      by (simp add: mask_entries_mem Bex_def)
    also have "\<dots> \<longleftrightarrow> (\<exists>key. (key, s) \<in> set (by_column rules) \<and> partition_on CHR ''.'' key = (source, True, c))"
      using assms(1,2) by (metis map_of_eq_Some_iff option.inject)
    also have "\<dots> \<longleftrightarrow> (source @ ''.'' @ c, s) \<in> set (by_column rules)"
      using assms(3) by (auto simp: partition_on_iff)
    finally show ?thesis using d by simp
  qed
  have "resolve_dim_mask tree rules = dict_of ?kvs"
    using False by (simp add: resolve_dim_mask_def by_column_def)
  then show ?thesis using map_of_unique_value [OF mem] by (simp add: map_of_dict_of)
qed

lemma first_some_None: "first_some f xs = None \<longleftrightarrow> (\<forall>x\<in>set xs. f x = None)"
  by (induction xs) (auto split: option.splits)

lemma first_some_Some: "first_some f xs = Some y \<Longrightarrow> \<exists>x\<in>set xs. f x = Some y"
  by (induction xs) (auto split: option.splits)

text \<open>
  C28: Whether a dimension is masked depends on the columns it reads and nothing else: on every alias of a
  source, a dimension, plain, derived or a JSON key, gets a strategy exactly when some rule names a
  column of that source that the dimension reads, and the strategy is one such rule's.
\<close>

theorem masking_follows_the_columns_read:
  assumes "distinct (map fst tree)" and "map_of tree a = Some source" and "CHR ''.'' \<notin> set source"
    and "backing_columns cols d = Inr cs"
  shows "case dim_mask_strategy cols (resolve_dim_mask tree rules) a d of
      Inl e \<Rightarrow> False
    | Inr None \<Rightarrow> \<not> (\<exists>m\<in>set rules. \<exists>c\<in>set cs. mr_column m = source @ ''.'' @ c)
    | Inr (Some s) \<Rightarrow> \<exists>m\<in>set rules. \<exists>c\<in>set cs. mr_column m = source @ ''.'' @ c \<and> mr_strategy m = s"
proof -
  have look: "map_of (resolve_dim_mask tree rules) (a, c) = map_of (by_column rules) (source @ ''.'' @ c)" for c
    by (rule resolve_dim_mask_lookup [OF assms(1-3)])
  show ?thesis
    using assms(4) by_column_Some by_column_None
    by (auto simp: dim_mask_strategy_def look first_some_None split: option.splits dest!: first_some_Some)
       (metis by_column_Some)
qed

section \<open>Witnesses\<close>

definition shop_column :: "string \<Rightarrow> normalized_type \<Rightarrow> column" where
  "shop_column n ty = \<lparr>col_name = n, col_type = ty, col_nullable = False\<rparr>"

definition shop_sources :: sources where
  "shop_sources =
     [(''orders'', (bare_source ''orders'' ''orders'')
        \<lparr>ss_columns := [shop_column ''id'' INT_T, shop_column ''merchant_id'' INT_T, shop_column ''email'' STRING_T],
         ss_dimensions := [column_dimension ''contact'' ''email''],
         ss_joins := [sample_join ''customers'' (Some ''buyer'')]\<rparr>),
      (''customers'', (bare_source ''customers'' ''customers'')
        \<lparr>ss_columns := [shop_column ''id'' INT_T, shop_column ''merchant'' STRING_T],
         ss_dimensions := [column_dimension ''customer_no'' ''id'']\<rparr>)]"

definition shop_tree :: "(string, string) dict" where
  "shop_tree = [(''orders'', ''orders''), (''buyer'', ''customers'')]"

definition comparison :: "string \<Rightarrow> sql" where
  "comparison n = Op ''EQ'' [Col [] [] n, Op ''?'' []]"

definition shop_backend :: backend where
  "shop_backend =
     \<lparr>bk_parse = map_of [(''id = 1'', comparison ''id''), (''contact = 1'', comparison ''contact''),
        (''phone = 1'', comparison ''phone'')],
      bk_json_value = (\<lambda>e path ty. Op ''JSON'' [e]), bk_date_add = (\<lambda>e off is_date. Op ''DATE_ADD'' [e]),
      bk_close_matches = (\<lambda>s xs. [])\<rparr>"

definition shop_policy :: effective_policy where
  "shop_policy = (open_policy False)\<lparr>ep_deny_dimensions := {''contact'', ''customer_no''}\<rparr>"

lemma accepted_filters_read_no_denied_column_witness:
  "bind_filters (\<lambda>_. None) shop_backend [] [''id = 1''] shop_sources ''orders'' (Some shop_tree) (Some shop_policy) =
     Inr ([Op ''EQ'' [Col [] ''orders'' ''id'', Op ''?'' []]], [''orders'']) \<and>
   source_of shop_tree ''orders'' \<noteq> ''customers''"
proof -
  have b: "bind_filters (\<lambda>_. None) shop_backend [] [''id = 1''] shop_sources ''orders'' (Some shop_tree) (Some shop_policy) =
     Inr ([Op ''EQ'' [Col [] ''orders'' ''id'', Op ''?'' []]], [''orders''])" by code_simp
  have "source_of shop_tree ''orders'' \<noteq> ss_name (snd (shop_sources ! 1))"
    by (rule accepted_filters_read_no_denied_column [OF _ b, where d = "column_dimension ''customer_no'' ''id''"
          and a = "''orders''" and cond = "Op ''EQ'' [Col [] ''orders'' ''id'', Op ''?'' []]" and k = "''customers''" and c = "''id''" and cs = "[''id'']"])
      (simp_all add: shop_backend_def shop_sources_def shop_policy_def dimension_allowed_def column_dimension_def
        backing_columns_def after_last_def open_policy_def Let_def)
  then show ?thesis using b by (simp add: shop_sources_def bare_source_def)
qed

text \<open>
  The refusal is not the one an undeclared name gets: it names the physical column behind the denied
  dimension, which the caller did not write.
\<close>

lemma denied_filter_error_names_the_column:
  "bind_filters (\<lambda>_. None) shop_backend [] [''contact = 1''] shop_sources ''orders'' (Some shop_tree) (Some shop_policy) =
     Inl (CanonicError Unreachable [''email''] []) \<and>
   bind_filters (\<lambda>_. None) shop_backend [] [''phone = 1''] shop_sources ''orders'' (Some shop_tree) (Some shop_policy) =
     Inl (CanonicError Unreachable [''phone''] [])"
  by code_simp

definition shop_tenancy :: tenancy_policy where
  "shop_tenancy = \<lparr>tp_claim = ''merchant'', tp_on_missing = MP_DENY,
     tp_scoped = [\<lparr>sc_source = ''orders'', sc_column = ''merchant_id''\<rparr>, \<lparr>sc_source = ''customers'', sc_column = ''merchant''\<rparr>],
     tp_shared = [], tp_undeclared = US_DENY\<rparr>"

definition shop_resolver :: resolver where
  "shop_resolver = mk_resolver sample_bindings [] [] [] (Some shop_tenancy) None"

definition shop_edge :: join_edge where
  "shop_edge = mk_edge (\<lambda>_ s. s) shop_sources ''orders'' ''orders'' (sample_join ''customers'' (Some ''buyer''))"

definition shop_scoping :: tenant_scoping where
  "shop_scoping = \<lparr>tn_conditions = [TenantEq ''orders'' ''merchant_id'' (TInt 7), TenantEq ''buyer'' ''merchant'' (TStr ''7'')],
     tn_scoped = [''orders'', ''customers''], tn_shared = [], tn_warnings = []\<rparr>"

lemma tenant_predicates_confine_rows_witness:
  "tenant_conditions shop_resolver ''orders'' [shop_edge] shop_tree [TStr ''7''] shop_policy shop_sources = Inr shop_scoping \<and>
   (list_all (admits (\<lambda>a c. TInt 7)) (tn_conditions shop_scoping) \<longleftrightarrow>
     list_all (confined shop_resolver shop_tree [TStr ''7''] shop_sources (\<lambda>a c. TInt 7)) [''orders'', ''buyer'']) \<and>
   list_all (undeclared_only_warned shop_resolver shop_tree []) [''orders'', ''buyer'']"
proof -
  have t: "tenant_conditions shop_resolver ''orders'' [shop_edge] shop_tree [TStr ''7''] shop_policy shop_sources = Inr shop_scoping"
    by code_simp
  show ?thesis
    using tenant_predicates_confine_rows [OF t, of "\<lambda>a c. TInt 7"] t
    by (simp add: shop_policy_def open_policy_def shop_edge_def sample_join_def jn_alias_def shop_scoping_def)
qed

lemma masking_follows_the_columns_read_witness:
  "dim_mask_strategy (\<lambda>_. None) (resolve_dim_mask shop_tree [\<lparr>mr_column = ''customers.id'', mr_strategy = MS_HASH\<rparr>]) ''buyer''
     (column_dimension ''customer_no'' ''id'') = Inr (Some MS_HASH) \<and>
   (\<exists>m\<in>{\<lparr>mr_column = ''customers.id'', mr_strategy = MS_HASH\<rparr>}. mr_column m = ''customers'' @ ''.'' @ ''id'')"
proof -
  let ?rules = "[\<lparr>mr_column = ''customers.id'', mr_strategy = MS_HASH\<rparr>]"
  have m: "dim_mask_strategy (\<lambda>_. None) (resolve_dim_mask shop_tree ?rules) ''buyer'' (column_dimension ''customer_no'' ''id'') =
    Inr (Some MS_HASH)" by code_simp
  have "case dim_mask_strategy (\<lambda>_. None) (resolve_dim_mask shop_tree ?rules) ''buyer'' (column_dimension ''customer_no'' ''id'') of
      Inl e \<Rightarrow> False
    | Inr None \<Rightarrow> \<not> (\<exists>m\<in>set ?rules. \<exists>c\<in>set [''id'']. mr_column m = ''customers'' @ ''.'' @ c)
    | Inr (Some s) \<Rightarrow> \<exists>m\<in>set ?rules. \<exists>c\<in>set [''id'']. mr_column m = ''customers'' @ ''.'' @ c \<and> mr_strategy m = s"
    by (rule masking_follows_the_columns_read) (simp_all add: shop_tree_def column_dimension_def backing_columns_def)
  then show ?thesis using m by simp
qed

end
