(* ===== verification/Pipeline.thy ===== *)
theory Pipeline
  imports Scoping
begin

text \<open>
  The gates of \<^verbatim>\<open>src/canonic/compiler/pipeline.py\<close>: everything \<^verbatim>\<open>compile\<close> decides before it plans
  leaves. Stage 0 binds the principal, stage 1 resolves the metrics, stage 1b checks the dimensions,
  then the suggestions for the caller, the trust inputs, the \<^verbatim>\<open>min_trust\<close> and \<^verbatim>\<open>required_dimension\<close>
  guardrails and the dialect. \<open>gates\<close> composes them in the order of \<^verbatim>\<open>compile\<close>; its optional result
  is that of flattening roles. A set that is iterated is given as the list of its iteration.
\<close>

section \<open>Bindings\<close>

type_synonym raw_bindings = "(string \<times> resolved) list"

text \<open>The first truthy value of a list of optional strings.\<close>

definition first_truthy :: "string option list \<Rightarrow> string option" where
  "first_truthy xs = first_some (\<lambda>x. if blank x then None else x) xs"

fun dialect_for_bindings :: "raw_bindings \<Rightarrow> sources \<Rightarrow> (string, string) dict option \<Rightarrow> string" where
  "dialect_for_bindings [] srcs dialects = ''postgres''"
| "dialect_for_bindings ((n, b) # bs) srcs dialects =
     (case dialects of
        None \<Rightarrow> ''postgres''
      | Some table \<Rightarrow>
          (if table = [] then ''postgres''
           else (case Option.bind (first_truthy (map rb_source (leaves b))) (map_of srcs) of
               None \<Rightarrow> dialect_for_bindings bs srcs dialects
             | Some src \<Rightarrow>
                 (if ss_connection src = [] then dialect_for_bindings bs srcs dialects
                  else (case map_of table (ss_connection src) of None \<Rightarrow> ''postgres'' | Some d \<Rightarrow> d)))))"

definition trust_inputs_for :: "raw_bindings \<Rightarrow> resolver \<Rightarrow> trust_input list" where
  "trust_inputs_for bs r = concat (map (\<lambda>(name, b). trust_inputs_for_binding r name b) bs)"

definition source_measure_pairs :: "resolved \<Rightarrow> (string \<times> string) list" where
  "source_measure_pairs b =
     concat (map (\<lambda>l. case (rb_source l, rb_measure l) of (Some s, Some m) \<Rightarrow> [(s, m)] | _ \<Rightarrow> []) (leaves b))"

definition through_inputs :: "resolved \<Rightarrow> bool" where
  "through_inputs b =
     (case rb_part b of Offset _ _ _ \<Rightarrow> True | Derived _ _ _ \<Rightarrow> True | Conversion _ _ _ _ _ _ _ _ _ \<Rightarrow> True | _ \<Rightarrow> False)"

function matched_alone :: "resolved \<Rightarrow> resolved list" where
  "matched_alone b = (if through_inputs b then concat (map matched_alone (dependencies b)) else [b])"
  by pat_completeness auto

termination by (relation "measure size") (auto simp: dependencies_size)

declare matched_alone.simps [simp del]

section \<open>Guardrails before planning\<close>

definition min_trust_check :: "trust_tier \<Rightarrow> guardrail \<Rightarrow> string list res" where
  "min_trust_check tier g =
     (case gr_level g of
        None \<Rightarrow> Inl AssertionError
      | Some level \<Rightarrow>
          (case tier_of_value level of
             None \<Rightarrow> Inl ValueError
           | Some flr \<Rightarrow> if tier_meets tier flr then Inr [] else map_sum id (\<lambda>w. [w]) (block_or_warn g [])))"

definition min_trust_guardrails :: "raw_bindings \<Rightarrow> resolver \<Rightarrow> string option \<Rightarrow> guardrail list" where
  "min_trust_guardrails bs r ctx =
     concat (map (\<lambda>(name, b). concat (map (\<lambda>(source, meas). min_trust_for r source meas ctx) (source_measure_pairs b))) bs)"

definition enforce_min_trust :: "raw_bindings \<Rightarrow> resolver \<Rightarrow> string option \<Rightarrow> trust_input list \<Rightarrow>
    assertion_history option \<Rightarrow> string list res" where
  "enforce_min_trust bs r ctx inputs hist =
     (if ctx = None then Inr []
      else map_sum id concat
        (rmap (min_trust_check (ts_tier (score (static_signals_for inputs hist)))) (min_trust_guardrails bs r ctx)))"

text \<open>\<^verbatim>\<open>str.split()\<close>: the maximal runs of characters that are not blank.\<close>

function words :: "string \<Rightarrow> string list" where
  "words s =
     (let t = lstrip s
      in if t = [] then [] else takeWhile (\<lambda>c. \<not> is_space c) t # words (dropWhile (\<lambda>c. \<not> is_space c) t))"
  by pat_completeness auto

termination
proof (relation "measure length", goal_cases)
  case (2 s t)
  then obtain c cs where t: "t = c # cs" "\<not> is_space c"
    by (metis hd_dropWhile list.collapse list.sel(1) lstrip_def)
  have "length (dropWhile (\<lambda>c. \<not> is_space c) cs) < length t"
    using t(1) length_dropWhile_le [of _ cs] by (simp add: less_Suc_eq_le)
  moreover have "length t \<le> length s" using 2(1) length_dropWhile_le by (simp add: lstrip_def)
  ultimately show ?case using t by simp
qed simp

declare words.simps [simp del]

definition filter_tokens :: "semantic_query \<Rightarrow> string set" where
  "filter_tokens q = set (concat (map words (sq_filters q)))"

text \<open>Whether the query groups by or filters on the dimension a guardrail requires, under any of its names.\<close>

definition dimension_present :: "semantic_query \<Rightarrow> string \<Rightarrow> (string \<times> dimension) option \<Rightarrow> bool" where
  "dimension_present q source found =
     (case found of
        None \<Rightarrow> False
      | Some (a, d) \<Rightarrow>
          list_ex (\<lambda>cand. query_references_dimension (if a = source then cand else a @ ''.'' @ cand)
              (set (sq_dimensions q)) (filter_tokens q)) (dim_name d # dim_aliases d))"

definition required_step :: "semantic_query \<Rightarrow> sources \<Rightarrow> string \<Rightarrow> guardrail \<Rightarrow> string list \<times> string list \<Rightarrow>
    (string list \<times> string list) res" where
  "required_step q srcs source g acc =
     (case gr_dimension g of
        None \<Rightarrow> Inl AssertionError
      | Some dname \<Rightarrow>
          rbind (find_dimension dname srcs (Some source) (Some (build_alias_tree source srcs))) (\<lambda>found.
            if dimension_present q source found \<or> gr_id g \<in> set (snd acc) then Inr acc
            else rbind (block_or_warn g [dname]) (\<lambda>w. Inr (fst acc @ [w], snd acc @ [gr_id g]))))"

definition required_for :: "semantic_query \<Rightarrow> resolver \<Rightarrow> sources \<Rightarrow> resolved \<Rightarrow> string list \<times> string list \<Rightarrow>
    (string list \<times> string list) res" where
  "required_for q r srcs b acc =
     (case (rb_source b, rb_measure b) of
        (Some source, Some meas) \<Rightarrow>
          rfold (required_step q srcs source) (required_dimension_for r source meas (sq_context q)) acc
      | _ \<Rightarrow> Inr acc)"

definition enforce_required_dimension :: "semantic_query \<Rightarrow> raw_bindings \<Rightarrow> resolver \<Rightarrow> sources \<Rightarrow> string list res" where
  "enforce_required_dimension q bs r srcs =
     map_sum id fst (rfold (required_for q r srcs) (concat (map (\<lambda>(name, b). matched_alone b) bs)) ([], []))"

section \<open>Stages 0 and 1\<close>

definition ANONYMOUS :: principal where
  "ANONYMOUS = \<lparr>pr_tenants = [], pr_roles = [], pr_source = ''unknown'', pr_system_exempt = False\<rparr>"

text \<open>The tenant check of stage 0, on the policy the principal was given.\<close>

definition tenant_gate :: "resolver \<Rightarrow> principal \<Rightarrow> effective_policy \<Rightarrow> string list res" where
  "tenant_gate r pr pol =
     (case rs_tenancy r of
        None \<Rightarrow> Inr []
      | Some tenancy \<Rightarrow>
          (if ep_tenancy_exempt pol \<or> pr_tenants pr \<noteq> [] then Inr []
           else if tp_on_missing tenancy = ALLOW_UNSCOPED then Inr [''no tenant resolved'']
           else Inl (CanonicError TenantUnresolved [] [])))"

definition bind_principal :: "resolver \<Rightarrow> principal option \<Rightarrow> (principal \<times> effective_policy \<times> string list) res option" where
  "bind_principal r caller =
     (let pr = (case caller of None \<Rightarrow> ANONYMOUS | Some p \<Rightarrow> p)
      in map_option (\<lambda>a. rbind a (\<lambda>pol. rbind (tenant_gate r pr pol) (\<lambda>ws. Inr (pr, pol, ws)))) (authz_for r pr))"

record metric_resolution =
  mx_resolved :: raw_bindings
  mx_unresolved :: "string list"
  mx_ambiguous :: "string list"
  mx_candidates :: "metric_binding list"

definition resolve_step :: "resolver \<Rightarrow> effective_policy \<Rightarrow> string \<Rightarrow> metric_resolution \<Rightarrow> metric_resolution res" where
  "resolve_step r pol name acc =
     (if \<not> metric_allowed pol name then Inr (acc\<lparr>mx_unresolved := mx_unresolved acc @ [name]\<rparr>)
      else rbind (resolve_metric r name) (\<lambda>result.
        case result of
          RUnresolved n \<Rightarrow> Inr (acc\<lparr>mx_unresolved := mx_unresolved acc @ [name]\<rparr>)
        | RAmbiguous n cands \<Rightarrow>
            Inr (acc\<lparr>mx_ambiguous := mx_ambiguous acc @ [name],
              mx_candidates := fold (\<lambda>c cs. if c \<in> set cs then cs else cs @ [c]) cands (mx_candidates acc)\<rparr>)
        | RBinding b \<Rightarrow> Inr (acc\<lparr>mx_resolved := mx_resolved acc @ [(name, b)]\<rparr>)))"

text \<open>An ambiguous binding is named by its metric in the error's candidates.\<close>

definition resolve_all_metrics :: "semantic_query \<Rightarrow> resolver \<Rightarrow> effective_policy \<Rightarrow> raw_bindings res" where
  "resolve_all_metrics q r pol =
     rbind (rfold (resolve_step r pol) (sq_metrics q)
       \<lparr>mx_resolved = [], mx_unresolved = [], mx_ambiguous = [], mx_candidates = []\<rparr>) (\<lambda>acc.
       if mx_unresolved acc \<noteq> [] then Inl (CanonicError Unresolved (mx_unresolved acc @ mx_ambiguous acc) [])
       else if mx_ambiguous acc \<noteq> [] then
         Inl (CanonicError Ambiguous (mx_ambiguous acc) (map mb_metric (mx_candidates acc)))
       else Inr (mx_resolved acc))"

definition enforce_dimension_policy :: "semantic_query \<Rightarrow> effective_policy \<Rightarrow> unit res" where
  "enforce_dimension_policy q pol =
     (let denied = filter (\<lambda>d. \<not> dimension_allowed pol d) (sq_dimensions q)
      in if denied \<noteq> [] then Inl (CanonicError Unreachable denied []) else Inr ())"

section \<open>Suggestions\<close>

definition RELATED_CAP :: nat where
  "RELATED_CAP = 5"

text \<open>The only error of the lookup is an ambiguity, which counts as not addable.\<close>

definition addable_everywhere :: "string \<Rightarrow> string list \<Rightarrow> sources \<Rightarrow> bool" where
  "addable_everywhere entry queried srcs =
     list_all (\<lambda>s. case find_dimension (after_last CHR ''.'' entry) srcs (Some s) (Some (build_alias_tree s srcs)) of
         Inr (Some x) \<Rightarrow> True | _ \<Rightarrow> False) queried"

record related_dimension =
  rl_name :: string
  rl_source :: string
  rl_label :: "string option"

record related =
  rl_dimensions :: "related_dimension list"
  rl_metrics :: "(string \<times> string) list" \<comment> \<open>name and source\<close>

definition mk_related_dimension :: "sources \<Rightarrow> string list \<Rightarrow> string \<times> string \<Rightarrow> related_dimension" where
  "mk_related_dimension srcs queried ea =
     (let alias_to_src = dict_of (concat (map (\<lambda>s. build_alias_tree s srcs) queried));
          labels = dict_of (concat (map (\<lambda>(sn, src). map (\<lambda>d. ((sn, dim_name d), dim_label d)) (ss_dimensions src)) srcs))
      in \<lparr>rl_name = fst ea, rl_source = snd ea,
          rl_label = (case map_of labels (source_of alias_to_src (snd ea), after_last CHR ''.'' (fst ea)) of
             None \<Rightarrow> None | Some l \<Rightarrow> l)\<rparr>)"

definition suggested_dimensions :: "semantic_query \<Rightarrow> sources \<Rightarrow> effective_policy \<Rightarrow> string list \<Rightarrow> (string \<times> string) list" where
  "suggested_dimensions q srcs pol queried =
     keep_first {} (filter (\<lambda>(entry, a).
         \<not> query_references_dimension entry (set (sq_dimensions q)) (filter_tokens q) \<and>
         dimension_allowed pol entry \<and> addable_everywhere entry queried srcs)
       (concat (map (\<lambda>s. reachable_dimension_names s srcs) (sort queried))))"

definition suggested_metrics :: "resolver \<Rightarrow> effective_policy \<Rightarrow> string list \<Rightarrow> string list \<Rightarrow> (string \<times> string) list" where
  "suggested_metrics r pol queried names =
     keep_first {} (filter (\<lambda>(name, s). name \<notin> set names \<and> metric_allowed pol name)
       (concat (map (\<lambda>s. map (\<lambda>name. (name, s)) (metrics_for_source r s)) (sort queried))))"

definition related_queries :: "string list \<Rightarrow> string list \<Rightarrow> semantic_query \<Rightarrow> resolver \<Rightarrow> sources \<Rightarrow> effective_policy \<Rightarrow> related" where
  "related_queries queried names q r srcs pol =
     \<lparr>rl_dimensions = take RELATED_CAP (sort_key (\<lambda>d. (rl_name d, rl_source d))
        (map (mk_related_dimension srcs queried) (suggested_dimensions q srcs pol queried))),
      rl_metrics = take RELATED_CAP (sort_key fst (suggested_metrics r pol queried names))\<rparr>"

section \<open>The gates in order\<close>

record gate_result =
  gt_query :: semantic_query
  gt_range :: "resolved_time_range option"
  gt_principal :: principal
  gt_policy :: effective_policy
  gt_bindings :: raw_bindings
  gt_related :: related
  gt_inputs :: "trust_input list"
  gt_warnings :: "string list"
  gt_dialect :: string

text \<open>The sources the requested metrics group by; \<open>iter\<close> is the iteration order of that set.\<close>

definition queried_sources :: "(string list \<Rightarrow> string list) \<Rightarrow> raw_bindings \<Rightarrow> string list" where
  "queried_sources iter bs =
     iter (dedup (concat (map (\<lambda>(name, b). concat (map (\<lambda>l. if blank (rb_source l) then [] else opt_list (rb_source l)) (grouped_leaves b))) bs)))"

definition after_policy :: "(string list \<Rightarrow> string list) \<Rightarrow> semantic_query \<Rightarrow> resolved_time_range option \<Rightarrow> resolver \<Rightarrow> sources \<Rightarrow>
    (string, string) dict option \<Rightarrow> assertion_history option \<Rightarrow> principal \<times> effective_policy \<times> string list \<Rightarrow> gate_result res" where
  "after_policy iter q rt r srcs dialects hist bound =
     (case bound of (pr, pol, stage0) \<Rightarrow>
       if sq_metrics q = [] then Inl (CanonicError Unresolved [] [])
       else
         rbind (resolve_all_metrics q r pol) (\<lambda>bs.
         rbind (enforce_dimension_policy q pol) (\<lambda>_.
         rbind (enforce_min_trust bs r (sq_context q) (trust_inputs_for bs r) hist) (\<lambda>trust.
         rbind (enforce_required_dimension q bs r srcs) (\<lambda>required.
           Inr \<lparr>gt_query = q, gt_range = rt, gt_principal = pr, gt_policy = pol, gt_bindings = bs,
             gt_related = related_queries (queried_sources iter bs) (map fst bs) q r srcs pol,
             gt_inputs = trust_inputs_for bs r, gt_warnings = stage0 @ trust @ required,
             gt_dialect = dialect_for_bindings bs srcs dialects\<rparr>)))))"

definition gates :: "(string \<Rightarrow> string list option) \<Rightarrow> datetime \<Rightarrow> (string list \<Rightarrow> string list) \<Rightarrow> semantic_query \<Rightarrow> resolver \<Rightarrow>
    semantic_source list \<Rightarrow> (string, string) dict option \<Rightarrow> principal option \<Rightarrow> assertion_history option \<Rightarrow> gate_result res option" where
  "gates cols clock iter q r sources dialects caller hist =
     (let srcs = dict_of (map (\<lambda>s. (ss_name s, s)) sources)
      in case apply_time_range cols clock q (map snd srcs) of
           Inl e \<Rightarrow> Some (Inl e)
         | Inr (q', rt) \<Rightarrow>
             map_option (\<lambda>bound. rbind bound (after_policy iter q' rt r srcs dialects hist)) (bind_principal r caller))"

section \<open>Metrics and dimensions pass the policy\<close>

lemma rfold_ok:
  assumes "rfold f xs acc = Inr out" and "I acc"
    and "\<And>x a b. x \<in> set xs \<Longrightarrow> I a \<Longrightarrow> f x a = Inr b \<Longrightarrow> I b \<and> Q x"
  shows "I out \<and> (\<forall>x\<in>set xs. Q x)"
  using assms by (induction xs arbitrary: acc) (auto simp: rbind_Inr_iff)

lemma rfold_cong: "(\<And>x acc. x \<in> set xs \<Longrightarrow> f x acc = g x acc) \<Longrightarrow> rfold f xs acc = rfold g xs acc"
proof (induction xs arbitrary: acc)
  case (Cons x xs)
  then have "rfold f xs = rfold g xs" by (intro ext) simp
  then show ?case using Cons.prems [of x] by simp
qed simp

definition bound_to :: "resolver \<Rightarrow> effective_policy \<Rightarrow> string \<Rightarrow> string \<times> resolved \<Rightarrow> bool" where
  "bound_to r pol n nb \<longleftrightarrow> fst nb = n \<and> metric_allowed pol n \<and> resolve_metric r n = Inr (RBinding (snd nb))"

lemma resolve_fold_ok:
  assumes "rfold (resolve_step r pol) names acc = Inr out"
    and "mx_unresolved out = []" and "mx_ambiguous out = []"
  shows "mx_unresolved acc = [] \<and> mx_ambiguous acc = [] \<and>
    (\<exists>bs. mx_resolved out = mx_resolved acc @ bs \<and> list_all2 (bound_to r pol) names bs)"
  using assms
proof (induction names arbitrary: acc)
  case (Cons n names)
  then obtain mid where mid: "resolve_step r pol n acc = Inr mid" "rfold (resolve_step r pol) names mid = Inr out"
    by (auto simp: rbind_Inr_iff)
  then obtain bs where IH: "mx_unresolved mid = []" "mx_ambiguous mid = []" "mx_resolved out = mx_resolved mid @ bs"
    "list_all2 (bound_to r pol) names bs"
    using Cons.IH [OF mid(2)] Cons.prems by blast
  have allowed: "metric_allowed pol n" using mid(1) IH(1) by (auto simp: resolve_step_def split: if_splits)
  then obtain x where x: "resolve_metric r n = Inr x" using mid(1) by (auto simp: resolve_step_def rbind_Inr_iff)
  then obtain b where "x = RBinding b" using mid(1) IH(1,2) allowed by (cases x) (auto simp: resolve_step_def)
  with x allowed mid(1) have "metric_allowed pol n" "resolve_metric r n = Inr (RBinding b)"
    "mid = acc\<lparr>mx_resolved := mx_resolved acc @ [(n, b)]\<rparr>"
    by (auto simp: resolve_step_def)
  then show ?case
    using IH by (intro conjI exI [of _ "(n, b) # bs"]) (simp_all add: bound_to_def [of r pol n])
qed simp

lemma resolve_all_metrics_ok:
  assumes "resolve_all_metrics q r pol = Inr bs"
  shows "list_all2 (bound_to r pol) (sq_metrics q) bs"
  using assms resolve_fold_ok
  by (fastforce simp: resolve_all_metrics_def rbind_Inr_iff split: if_splits)

lemma after_policy_Inr:
  assumes "after_policy iter q rt r srcs dialects hist (pr, pol, stage0) = Inr g"
  obtains trust required where "sq_metrics q \<noteq> []" and "resolve_all_metrics q r pol = Inr (gt_bindings g)"
    and "enforce_dimension_policy q pol = Inr ()"
    and "enforce_min_trust (gt_bindings g) r (sq_context q) (gt_inputs g) hist = Inr trust"
    and "enforce_required_dimension q (gt_bindings g) r srcs = Inr required"
    and "gt_warnings g = stage0 @ trust @ required"
    and "gt_query g = q" and "gt_policy g = pol" and "gt_principal g = pr"
    and "gt_related g = related_queries (queried_sources iter (gt_bindings g)) (map fst (gt_bindings g)) q r srcs pol"
  using assms by (auto simp: after_policy_def rbind_Inr_iff split: if_splits)

lemma gates_Inr:
  assumes "gates cols clock iter q r sources dialects caller hist = Some (Inr g)"
  obtains rt stage0 where "authz_for r (case caller of None \<Rightarrow> ANONYMOUS | Some p \<Rightarrow> p) = Some (Inr (gt_policy g))"
    and "gt_principal g = (case caller of None \<Rightarrow> ANONYMOUS | Some p \<Rightarrow> p)"
    and "apply_time_range cols clock q (map snd (dict_of (map (\<lambda>s. (ss_name s, s)) sources))) = Inr (gt_query g, rt)"
    and "tenant_gate r (gt_principal g) (gt_policy g) = Inr stage0"
    and "after_policy iter (gt_query g) rt r (dict_of (map (\<lambda>s. (ss_name s, s)) sources)) dialects hist
      (gt_principal g, gt_policy g, stage0) = Inr g"
proof -
  let ?srcs = "dict_of (map (\<lambda>s. (ss_name s, s)) sources)"
  obtain q' rt where a: "apply_time_range cols clock q (map snd ?srcs) = Inr (q', rt)"
    and m: "map_option (\<lambda>bound. rbind bound (after_policy iter q' rt r ?srcs dialects hist)) (bind_principal r caller) = Some (Inr g)"
    using assms by (auto simp: gates_def Let_def split: sum.splits)
  then obtain pol stage0 where p: "authz_for r (case caller of None \<Rightarrow> ANONYMOUS | Some p \<Rightarrow> p) = Some (Inr pol)"
    "tenant_gate r (case caller of None \<Rightarrow> ANONYMOUS | Some p \<Rightarrow> p) pol = Inr stage0"
    "after_policy iter q' rt r ?srcs dialects hist ((case caller of None \<Rightarrow> ANONYMOUS | Some p \<Rightarrow> p), pol, stage0) = Inr g"
    by (auto simp: bind_principal_def Let_def rbind_Inr_iff)
  then have "gt_query g = q'" "gt_policy g = pol" "gt_principal g = (case caller of None \<Rightarrow> ANONYMOUS | Some p \<Rightarrow> p)"
    using after_policy_Inr [OF p(3)] by metis+
  then show thesis using that [of rt stage0] a p by simp
qed

lemma apply_time_range_keeps:
  "apply_time_range cols clock q ss = Inr (q', rt) \<Longrightarrow>
    sq_metrics q' = sq_metrics q \<and> sq_dimensions q' = sq_dimensions q \<and> sq_context q' = sq_context q"
  by (auto simp: apply_time_range_def rbind_Inr_iff split: option.splits)

text \<open>
  C3: A query that reaches planning was checked under the policy its caller's roles give: every requested
  metric is allowed and bound to what the resolver answers, in the requested order; every requested
  dimension is allowed; and under a tenancy policy the caller is exempt, has a tenant, or is served
  unscoped because the policy says so, with a warning.
\<close>

theorem planned_query_passed_the_policy:
  assumes "gates cols clock iter q r sources dialects caller hist = Some (Inr g)"
  shows "authz_for r (case caller of None \<Rightarrow> ANONYMOUS | Some p \<Rightarrow> p) = Some (Inr (gt_policy g)) \<and>
    sq_metrics q \<noteq> [] \<and> list_all2 (bound_to r (gt_policy g)) (sq_metrics q) (gt_bindings g) \<and>
    list_all (dimension_allowed (gt_policy g)) (sq_dimensions q) \<and>
    (case rs_tenancy r of
       None \<Rightarrow> True
     | Some tenancy \<Rightarrow> ep_tenancy_exempt (gt_policy g) \<or> pr_tenants (gt_principal g) \<noteq> [] \<or>
         tp_on_missing tenancy = ALLOW_UNSCOPED \<and> ''no tenant resolved'' \<in> set (gt_warnings g))"
  using assms
proof (cases rule: gates_Inr)
  case (1 rt stage0)
  note keep = apply_time_range_keeps [OF 1(3)]
  from 1(5) obtain trust required where ap: "sq_metrics q \<noteq> []" "resolve_all_metrics (gt_query g) r (gt_policy g) = Inr (gt_bindings g)"
    "enforce_dimension_policy (gt_query g) (gt_policy g) = Inr ()" "gt_warnings g = stage0 @ trust @ required"
    by (cases rule: after_policy_Inr) (use keep in simp)
  have "list_all2 (bound_to r (gt_policy g)) (sq_metrics q) (gt_bindings g)"
    using resolve_all_metrics_ok [OF ap(2)] keep by simp
  moreover have "list_all (dimension_allowed (gt_policy g)) (sq_dimensions q)"
    using ap(3) keep by (auto simp: enforce_dimension_policy_def Let_def list_all_iff filter_empty_conv split: if_splits)
  moreover have "case rs_tenancy r of
       None \<Rightarrow> True
     | Some tenancy \<Rightarrow> ep_tenancy_exempt (gt_policy g) \<or> pr_tenants (gt_principal g) \<noteq> [] \<or>
         tp_on_missing tenancy = ALLOW_UNSCOPED \<and> ''no tenant resolved'' \<in> set (gt_warnings g)"
    using 1(4) ap(4) by (auto simp: tenant_gate_def split: option.splits if_splits)
  ultimately show ?thesis using 1(1) ap(1) by blast
qed

text \<open>What a caller may learn of a metric name: a denied name looks like one no binding declares.\<close>

definition metric_view :: "effective_policy \<Rightarrow> resolver \<Rightarrow> string \<Rightarrow> resolution res" where
  "metric_view pol r n =
     (if metric_allowed pol n
      then (case resolve_metric r n of Inr (RUnresolved m) \<Rightarrow> Inr (RUnresolved n) | x \<Rightarrow> x)
      else Inr (RUnresolved n))"

lemma resolve_step_view:
  "metric_view pol r n = metric_view pol' r' n \<Longrightarrow> resolve_step r pol n acc = resolve_step r' pol' n acc"
  by (auto simp: resolve_step_def metric_view_def split: if_splits sum.splits resolution.splits)


section \<open>Guardrails with error severity hold\<close>

lemma min_trust_check_ok:
  "min_trust_check tier g = Inr ws \<Longrightarrow> gr_severity g = ERROR_SEV \<Longrightarrow>
    \<exists>level flr. gr_level g = Some level \<and> tier_of_value level = Some flr \<and> flr \<le> tier"
  by (auto simp: min_trust_check_def block_or_warn_def tier_meets_iff_le split: option.splits if_splits)

definition floor_met :: "trust_tier \<Rightarrow> guardrail \<Rightarrow> bool" where
  "floor_met tier g \<longleftrightarrow> (\<exists>level flr. gr_level g = Some level \<and> tier_of_value level = Some flr \<and> flr \<le> tier)"

lemma enforce_min_trust_ok:
  assumes "enforce_min_trust bs r ctx inputs hist = Inr ws" and "g \<in> set (min_trust_guardrails bs r ctx)"
    and "gr_severity g = ERROR_SEV"
  shows "floor_met (ts_tier (score (static_signals_for inputs hist))) g"
proof -
  have "ctx \<noteq> None"
    using assms(2) by (auto simp: min_trust_guardrails_def min_trust_for_def context_guardrails_def split: if_splits)
  then obtain ys where "rmap (min_trust_check (ts_tier (score (static_signals_for inputs hist)))) (min_trust_guardrails bs r ctx) = Inr ys"
    using assms(1) by (auto simp: enforce_min_trust_def map_sum_Inr_iff)
  from rmap_value [OF this assms(2)] show ?thesis
    using min_trust_check_ok [OF _ assms(3)] by (auto simp: floor_met_def)
qed

text \<open>The dimension a guardrail requires is found from the metric's source and used by the query.\<close>

definition requirement_met :: "semantic_query \<Rightarrow> sources \<Rightarrow> string \<Rightarrow> guardrail \<Rightarrow> bool" where
  "requirement_met q srcs source g \<longleftrightarrow>
     (\<exists>dname found. gr_dimension g = Some dname \<and>
        find_dimension dname srcs (Some source) (Some (build_alias_tree source srcs)) = Inr found \<and>
        dimension_present q source found)"

definition only_warned :: "resolver \<Rightarrow> string list \<times> string list \<Rightarrow> bool" where
  "only_warned r acc \<longleftrightarrow> (\<forall>i\<in>set (snd acc). \<exists>g\<in>set (rs_guardrails r). gr_id g = i \<and> gr_severity g = WARN)"

lemma error_id_is_new:
  assumes "only_warned r acc" and "g \<in> set (rs_guardrails r)" and "distinct (map gr_id (rs_guardrails r))" and "gr_severity g = ERROR_SEV"
  shows "gr_id g \<notin> set (snd acc)"
proof
  assume "gr_id g \<in> set (snd acc)"
  then obtain h where "h \<in> set (rs_guardrails r)" "gr_id h = gr_id g" "gr_severity h = WARN"
    using assms(1) by (auto simp: only_warned_def)
  moreover from this have "h = g" using assms(2,3) by (metis distinct_map inj_onD)
  ultimately show False using assms(4) by simp
qed

lemma not_error_is_warn: "gr_severity g \<noteq> ERROR_SEV \<longleftrightarrow> gr_severity g = WARN"
  by (cases "gr_severity g") simp_all

lemma required_step_ok:
  assumes "required_step q srcs source g acc = Inr out" and "only_warned r acc"
    and "g \<in> set (rs_guardrails r)" and "distinct (map gr_id (rs_guardrails r))"
  shows "only_warned r out \<and> (gr_severity g = ERROR_SEV \<longrightarrow> requirement_met q srcs source g)"
proof -
  have other: "gr_id g \<notin> set (snd acc)" if "gr_severity g = ERROR_SEV" by (rule error_id_is_new [OF assms(2-4) that])
  obtain dname found where d: "gr_dimension g = Some dname"
    "find_dimension dname srcs (Some source) (Some (build_alias_tree source srcs)) = Inr found"
    using assms(1) by (auto simp: required_step_def rbind_Inr_iff split: option.splits)
  show ?thesis
  proof (cases "dimension_present q source found \<or> gr_id g \<in> set (snd acc)")
    case True
    then show ?thesis using assms(1,2) d other by (auto simp: required_step_def requirement_met_def)
  next
    case False
    then show ?thesis
      using assms(1-3) d by (auto simp: required_step_def block_or_warn_def only_warned_def rbind_Inr_iff not_error_is_warn split: if_splits)
  qed
qed

lemma required_dimension_for_sub: "set (required_dimension_for r source meas ctx) \<subseteq> set (rs_guardrails r)"
  by (auto simp: required_dimension_for_def)

lemma enforce_required_dimension_ok:
  assumes "enforce_required_dimension q bs r srcs = Inr ws" and "distinct (map gr_id (rs_guardrails r))"
    and "(n, b) \<in> set bs" and "b' \<in> set (matched_alone b)"
    and "rb_source b' = Some source" and "rb_measure b' = Some meas"
    and "g \<in> set (required_dimension_for r source meas (sq_context q))" and "gr_severity g = ERROR_SEV"
  shows "requirement_met q srcs source g"
proof -
  let ?Q = "\<lambda>b. \<forall>source meas. rb_source b = Some source \<longrightarrow> rb_measure b = Some meas \<longrightarrow>
    (\<forall>g\<in>set (required_dimension_for r source meas (sq_context q)). gr_severity g = ERROR_SEV \<longrightarrow> requirement_met q srcs source g)"
  obtain out where out: "rfold (required_for q r srcs) (concat (map (\<lambda>(name, b). matched_alone b) bs)) ([], []) = Inr out"
    using assms(1) by (auto simp: enforce_required_dimension_def map_sum_Inr_iff)
  have step: "only_warned r y \<and> ?Q b" if "only_warned r x" "required_for q r srcs b x = Inr y" for b x y
  proof (cases "rb_source b = None \<or> rb_measure b = None")
    case True
    then show ?thesis using that by (auto simp: required_for_def split: option.splits)
  next
    case False
    then obtain source meas where sm: "rb_source b = Some source" "rb_measure b = Some meas" by auto
    then have "rfold (required_step q srcs source) (required_dimension_for r source meas (sq_context q)) x = Inr y"
      using that(2) by (simp add: required_for_def)
    from rfold_ok [where I = "only_warned r" and Q = "\<lambda>g. gr_severity g = ERROR_SEV \<longrightarrow> requirement_met q srcs source g", OF this that(1)]
    show ?thesis using required_step_ok [OF _ _ _ assms(2)] required_dimension_for_sub sm by fastforce
  qed
  have "?Q b'"
    using rfold_ok [where I = "only_warned r" and Q = ?Q, OF out] step assms(3,4) by (fastforce simp: only_warned_def)
  then show ?thesis using assms(5-8) by blast
qed


section \<open>Suggestions stay within the policy\<close>

lemma set_keep_first: "set (keep_first seen es) \<subseteq> set es"
  by (induction es arbitrary: seen) auto

lemma keep_first_distinct: "distinct (map fst (keep_first seen es)) \<and> fst ` set (keep_first seen es) \<inter> seen = {}"
proof (induction es arbitrary: seen)
  case (Cons e es)
  show ?case using Cons.IH [of seen] Cons.IH [of "insert (fst e) seen"] by auto
qed simp

lemma capped_all: "list_all P xs \<Longrightarrow> list_all P (take n (sort_key f xs))"
  using set_take_subset [of n "sort_key f xs"] by (auto simp: list_all_iff)

lemma capped_distinct: "distinct (map g xs) \<Longrightarrow> distinct (map g (take n (sort_key f xs)))"
  using set_take_subset [of n "sort_key f xs"] by (auto simp: distinct_map intro: inj_on_subset)

text \<open>
  The suggestions of a response name only dimensions and metrics the policy allows, each once and at
  most five of a kind; a suggested dimension is not yet used by the query and resolves from every
  queried source, and a suggested metric was not requested.
\<close>

theorem suggestions_stay_within_the_policy:
  "length (rl_dimensions (related_queries queried names q r srcs pol)) \<le> RELATED_CAP \<and>
   length (rl_metrics (related_queries queried names q r srcs pol)) \<le> RELATED_CAP \<and>
   distinct (map rl_name (rl_dimensions (related_queries queried names q r srcs pol))) \<and>
   distinct (map fst (rl_metrics (related_queries queried names q r srcs pol))) \<and>
   list_all (\<lambda>d. dimension_allowed pol (rl_name d) \<and>
       \<not> query_references_dimension (rl_name d) (set (sq_dimensions q)) (filter_tokens q) \<and>
       addable_everywhere (rl_name d) queried srcs) (rl_dimensions (related_queries queried names q r srcs pol)) \<and>
   list_all (\<lambda>m. metric_allowed pol (fst m) \<and> fst m \<notin> set names) (rl_metrics (related_queries queried names q r srcs pol))"
proof -
  let ?ds = "suggested_dimensions q srcs pol queried" and ?ms = "suggested_metrics r pol queried names"
  have d: "list_all (\<lambda>e. dimension_allowed pol (fst e) \<and>
      \<not> query_references_dimension (fst e) (set (sq_dimensions q)) (filter_tokens q) \<and>
      addable_everywhere (fst e) queried srcs) ?ds"
    using set_keep_first unfolding suggested_dimensions_def list_all_iff by fastforce
  have m: "list_all (\<lambda>e. metric_allowed pol (fst e) \<and> fst e \<notin> set names) ?ms"
    using set_keep_first unfolding suggested_metrics_def list_all_iff by fastforce
  have dd: "distinct (map rl_name (map (mk_related_dimension srcs queried) ?ds))" "distinct (map fst ?ms)"
    using keep_first_distinct
    by (simp_all add: suggested_dimensions_def suggested_metrics_def mk_related_dimension_def Let_def comp_def)
  have d': "list_all (\<lambda>e. dimension_allowed pol (rl_name e) \<and>
      \<not> query_references_dimension (rl_name e) (set (sq_dimensions q)) (filter_tokens q) \<and>
      addable_everywhere (rl_name e) queried srcs) (map (mk_related_dimension srcs queried) ?ds)"
    using d by (simp add: list_all_iff mk_related_dimension_def Let_def)
  show ?thesis
    unfolding related_queries_def related.simps
    by (intro conjI capped_distinct dd capped_all d' m) simp_all
qed

text \<open>The policy is asked about the requested name only, so an alias of a denied metric is served.\<close>

definition deny_aov :: effective_policy where
  "deny_aov = (open_policy False)\<lparr>ep_deny_metrics := {''aov''}\<rparr>"

definition plain_query :: "string list \<Rightarrow> semantic_query" where
  "plain_query ms = \<lparr>sq_metrics = ms, sq_dimensions = [], sq_filters = [], sq_via = [], sq_context = None,
     sq_limit = None, sq_as_of = None, sq_time_range = None\<rparr>"

lemma denied_metric_served_by_alias:
  "resolve_all_metrics (plain_query [''aov'']) sample_resolver deny_aov = Inl (CanonicError Unresolved [''aov''] []) \<and>
   map_sum id (map (\<lambda>nb. (fst nb, rb_metric (snd nb)))) (resolve_all_metrics (plain_query [''avg_order'']) sample_resolver deny_aov) =
     Inr [(''avg_order'', ''aov'')]"
  by code_simp

section \<open>Witnesses\<close>


definition shop_query :: semantic_query where
  "shop_query = (plain_query [''revenue''])\<lparr>sq_dimensions := [''contact'']\<rparr>"

definition shop_guardrail :: guardrail where
  "shop_guardrail = \<lparr>gr_id = ''by-contact'', gr_applies_to = \<lparr>at_source = Some ''orders'', at_measure = None, at_metric = None\<rparr>,
     gr_kind = REQUIRED_DIMENSION, gr_filter = None, gr_restrict_to = None, gr_level = None,
     gr_dimension = Some ''contact'', gr_context = None, gr_severity = ERROR_SEV, gr_rationale = ''why'',
     gr_knowledge_refs = [], gr_provenance = HUMAN_CURATED\<rparr>"

definition guarded_resolver :: resolver where
  "guarded_resolver = mk_resolver sample_bindings [shop_guardrail] [] [] (Some shop_tenancy) None"

definition shop_caller :: principal where
  "shop_caller = \<lparr>pr_tenants = [TStr ''7''], pr_roles = [], pr_source = ''token'', pr_system_exempt = False\<rparr>"

definition shop_gates :: "gate_result res option" where
  "shop_gates = gates (\<lambda>_. None) sample_now id shop_query guarded_resolver (map snd shop_sources) None (Some shop_caller) None"

definition shop_bindings :: raw_bindings where
  "shop_bindings = (case resolve_all_metrics shop_query guarded_resolver (open_policy False) of Inr bs \<Rightarrow> bs | Inl e \<Rightarrow> [])"

lemma shop_gates_pass:
  obtains g where "shop_gates = Some (Inr g)" and "gt_bindings g = shop_bindings"
proof -
  have pieces: "resolve_all_metrics shop_query guarded_resolver (open_policy False) = Inr shop_bindings"
    "enforce_dimension_policy shop_query (open_policy False) = Inr ()"
    "tenant_gate guarded_resolver shop_caller (open_policy False) = Inr []"
    "enforce_required_dimension shop_query shop_bindings guarded_resolver
      (dict_of (map (\<lambda>s. (ss_name s, s)) (map snd shop_sources))) = Inr []"
    by code_simp+
  have "authz_for guarded_resolver shop_caller = Some (Inr (open_policy False))" by code_simp
  moreover have "sq_context shop_query = None" "sq_time_range shop_query = None" "sq_metrics shop_query \<noteq> []"
    by (simp_all add: shop_query_def plain_query_def)
  ultimately show thesis
    using that pieces
    by (simp add: shop_gates_def gates_def apply_time_range_def bind_principal_def after_policy_def enforce_min_trust_def Let_def)
qed

lemma planned_query_passed_the_policy_witness:
  "\<exists>g. shop_gates = Some (Inr g) \<and> list_all2 (bound_to guarded_resolver (gt_policy g)) [''revenue''] (gt_bindings g) \<and>
     dimension_allowed (gt_policy g) ''contact''"
proof -
  obtain g where g: "shop_gates = Some (Inr g)" by (rule shop_gates_pass)
  show ?thesis
    using planned_query_passed_the_policy [OF g [unfolded shop_gates_def]] g by (auto simp: shop_query_def plain_query_def)
qed


text \<open>
  Ids are not checked to be distinct when contracts are loaded: the filter of a second guardrail with
  an id already seen is not applied.
\<close>

lemma same_id_filter_is_dropped:
  "map_sum id (\<lambda>e. (ge_conditions e, map fg_id (ge_fired e))) (enforce_guardrails shop_backend []
     [\<lparr>rm_name = ''revenue'', rm_source = ''orders'', rm_measure =
        \<lparr>me_name = ''revenue'', me_expr = ''sum(x)'', me_additivity = ADDITIVE, me_semi_additive_over = []\<rparr>\<rparr>]
     (mk_resolver sample_bindings
       [shop_guardrail\<lparr>gr_kind := MANDATORY_FILTER, gr_filter := Some ''id = 1''\<rparr>,
        shop_guardrail\<lparr>gr_kind := MANDATORY_FILTER, gr_filter := Some ''contact = 1''\<rparr>] [] [] None None)
     shop_sources) = Inr ([Op ''EQ'' [Col [] ''orders'' ''id'', Op ''?'' []]], [''by-contact''])"
  by code_simp

end
