(* ===== verification/Offsets.thy ===== *)
theory Offsets
  imports Scoping
begin

text \<open>
  The parts of \<^verbatim>\<open>src/canonic/compiler/strategies/offset.py\<close> that decide what an offset moves: the shifted
  column, the query filters and dimensions that read it, and the bounds on the stored column that keep
  the scan of a shifted \<^verbatim>\<open>time_range\<close> narrow. The theorem says that these bounds never drop a row the
  shifted range wants; a lemma shows that they do when offsets are nested.
\<close>

section \<open>What an offset moves\<close>

definition shifted_column :: "(string \<Rightarrow> string list option) \<Rightarrow> string \<Rightarrow> string \<Rightarrow> sources \<Rightarrow> (string, string) dict \<Rightarrow>
    (string \<times> string) list res" where
  "shifted_column cols time_dimension owner srcs tree =
     rbind (find_dimension time_dimension srcs (Some owner) (Some tree)) (\<lambda>found.
       case found of
         None \<Rightarrow> Inr []
       | Some (a, d) \<Rightarrow> map_sum id (map (\<lambda>c. (a, c))) (backing_columns cols d))"

definition reads_any :: "(string \<times> string) list \<Rightarrow> (string \<times> string) list \<Rightarrow> bool" where
  "reads_any xs ys \<longleftrightarrow> list_ex (\<lambda>x. x \<in> set ys) xs"

definition what_moves :: "(string \<Rightarrow> string list option) \<Rightarrow> backend \<Rightarrow> semantic_query \<Rightarrow> string \<Rightarrow> string \<Rightarrow> sources \<Rightarrow>
    effective_policy \<Rightarrow> (string list \<times> bool) res" where
  "what_moves cols bk q time_dimension owner srcs pol =
     (let tree = build_alias_tree owner srcs
      in rbind (shifted_column cols time_dimension owner srcs tree) (\<lambda>shifted.
         rbind (rmap (\<lambda>raw. map_sum id (\<lambda>(bound, used). (raw, list_ex (\<lambda>e. reads_any (columns e) shifted) bound))
             (bind_filters cols bk [] [raw] srcs owner (Some tree) (Some pol))) (sq_filters q)) (\<lambda>fs.
         rbind (resolve_dimensions bk q srcs owner tree) (\<lambda>dims.
         rbind (rmap (\<lambda>(a, d). map_sum id (\<lambda>cs. reads_any (map (\<lambda>c. (a, c)) cs) shifted) (backing_columns cols d)) dims) (\<lambda>gs.
           Inr (map fst (filter snd fs), list_ex id gs))))))"

section \<open>Bounds on the stored column\<close>

definition PREFILTER_MARGIN :: int where
  "PREFILTER_MARGIN = 3"

text \<open>A bound moved back by the offset, then widened.\<close>

definition moved_back :: "duration \<Rightarrow> int \<Rightarrow> date option \<Rightarrow> date option res" where
  "moved_back off margin b =
     (case b of
        None \<Rightarrow> Inr None
      | Some d \<Rightarrow> rbind (add_to_date d off (- 1)) (\<lambda>e. map_sum id Some (add_days e margin)))"

definition prefilter_bounds :: "duration \<Rightarrow> time_range \<Rightarrow> (date option \<times> date option) res" where
  "prefilter_bounds off tr =
     rbind (moved_back off (- PREFILTER_MARGIN) (tr_start tr)) (\<lambda>lo.
     rbind (moved_back off PREFILTER_MARGIN (tr_end tr)) (\<lambda>hi. Inr (lo, hi)))"

definition bound_texts :: "string \<Rightarrow> date option \<times> date option \<Rightarrow> string list" where
  "bound_texts dname b =
     (case fst b of None \<Rightarrow> [] | Some d \<Rightarrow> [dname @ '' >= '' @ QUOTE # iso_date d @ [QUOTE]]) @
     (case snd b of None \<Rightarrow> [] | Some d \<Rightarrow> [dname @ '' < '' @ QUOTE # iso_date d @ [QUOTE]])"

definition prefilters :: "(string \<Rightarrow> string list option) \<Rightarrow> semantic_query \<Rightarrow> string \<Rightarrow> duration \<Rightarrow> string \<Rightarrow> sources \<Rightarrow> string list res" where
  "prefilters cols q time_dimension off owner srcs =
     (case sq_time_range q of
        None \<Rightarrow> Inr []
      | Some tr \<Rightarrow>
          (let tree = build_alias_tree owner srcs
           in rbind (find_dimension (tr_dimension tr) srcs (Some owner) (Some tree)) (\<lambda>on_range.
              rbind (shifted_column cols time_dimension owner srcs tree) (\<lambda>shifted.
                case on_range of
                  None \<Rightarrow> Inr []
                | Some (a, d) \<Rightarrow>
                    rbind (backing_columns cols d) (\<lambda>cs.
                      if reads_any (map (\<lambda>c. (a, c)) cs) shifted
                      then map_sum id (bound_texts (tr_dimension tr)) (prefilter_bounds off tr)
                      else Inr [])))))"

text \<open>Whether a date lies between two optional bounds, the upper one excluded.\<close>

definition in_bounds :: "date option \<Rightarrow> date option \<Rightarrow> date \<Rightarrow> bool" where
  "in_bounds lo hi d \<longleftrightarrow> (case lo of None \<Rightarrow> True | Some l \<Rightarrow> l \<le> d) \<and> (case hi of None \<Rightarrow> True | Some h \<Rightarrow> d < h)"

section \<open>The bounds keep every row of the range\<close>

lemma add_to_date_months_ok:
  assumes "valid_date d" and "du_months off = Some k" and "add_to_date d off s = Inr e"
  shows "valid_date e" and "month_no e = month_no d + s * k"
    and "d_day e = min (d_day d) (days_in_month (d_year e) (d_month e))"
proof -
  have "\<not> (month_no d + s * k < 12 \<or> 120000 \<le> month_no d + s * k)"
    using add_to_date_months_error [OF assms(2), of d s] assms(3) by auto
  then have "\<exists>e. add_to_date d off s = Inr e \<and> valid_date e \<and> month_no e = month_no d + s * k \<and>
      d_day e = min (d_day d) (days_in_month (d_year e) (d_month e))"
    by (intro add_to_date_months [OF assms(1,2)]) simp_all
  then show "valid_date e" and "month_no e = month_no d + s * k"
    and "d_day e = min (d_day d) (days_in_month (d_year e) (d_month e))"
    using assms(3) by simp_all
qed

lemma add_to_date_days_ok:
  assumes "du_months off = None" and "add_to_date d off s = Inr e"
  shows "\<exists>k. du_days off = Some k \<and> valid_date e \<and> toordinal e = toordinal d + s * k"
  using assms add_days_ok by (auto simp: add_to_date_def split: option.splits)

lemma date_le_month:
  assumes "valid_date d" and "valid_date e"
  shows "d \<le> e \<longleftrightarrow> month_no d < month_no e \<or> month_no d = month_no e \<and> d_day d \<le> d_day e"
proof -
  have m: "1 \<le> d_month d" "d_month d \<le> 12" "1 \<le> d_month e" "d_month e \<le> 12"
    using assms by (simp_all add: valid_date_def)
  consider "d_year d < d_year e" | "d_year d = d_year e" | "d_year e < d_year d" by linarith
  then show ?thesis using m by cases (auto simp: date_le_iff)
qed

lemma shift_back_lower:
  assumes "valid_date d" and "valid_date s"
    and "add_to_date d off 1 = Inr d'" and "add_to_date s off (- 1) = Inr g" and "s \<le> d'"
  shows "valid_date g \<and> g \<le> d"
proof (cases "du_months off")
  case None
  then obtain k where "valid_date d'" "toordinal d' = toordinal d + k" "valid_date g" "toordinal g = toordinal s - k"
    using add_to_date_days_ok [OF None assms(3)] add_to_date_days_ok [OF None assms(4)] by auto
  then show ?thesis
    using assms(1,2,5) toordinal_le_iff [of s d'] toordinal_le_iff [of g d] by simp
next
  case (Some k)
  note d' = add_to_date_months_ok [OF assms(1) Some assms(3)]
  note g = add_to_date_months_ok [OF assms(2) Some assms(4)]
  show ?thesis
    using assms(5) d' g date_le_month [OF assms(2) d'(1)] date_le_month [OF g(1) assms(1)] by auto
qed

lemma shift_back_upper:
  assumes "valid_date d" and "valid_date e"
    and "add_to_date d off 1 = Inr d'" and "add_to_date e off (- 1) = Inr g" and "d' < e"
  shows "valid_date g \<and> d \<le> g"
proof (cases "du_months off")
  case None
  then obtain k where "valid_date d'" "toordinal d' = toordinal d + k" "valid_date g" "toordinal g = toordinal e - k"
    using add_to_date_days_ok [OF None assms(3)] add_to_date_days_ok [OF None assms(4)] by auto
  then show ?thesis
    using assms(1,2,5) toordinal_less_iff [of d' e] toordinal_le_iff [of d g] by simp
next
  case (Some k)
  note d' = add_to_date_months_ok [OF assms(1) Some assms(3)]
  note g = add_to_date_months_ok [OF assms(2) Some assms(4)]
  have "\<not> e \<le> d'" using assms(5) by simp
  then consider (earlier) "month_no d' < month_no e"
    | (same) "month_no d' = month_no e" "d_day d' < d_day e"
    using date_le_month [OF assms(2) d'(1)] by force
  then show ?thesis
  proof cases
    case earlier
    then show ?thesis using d' g date_le_month [OF assms(1) g(1)] by simp
  next
    case same
    have ym: "d_year d' = d_year e \<and> d_month d' = d_month e"
      using month_index_inj [OF d'(1) assms(2)] same(1) by simp
    have gd: "d_year g = d_year d \<and> d_month g = d_month d"
      using month_index_inj [OF g(1) assms(1)] same(1) d'(2) g(2) by simp
    have "d_day d \<le> d_day g"
      using same(2) d'(3) g(3) ym gd assms(1,2) by (auto simp: valid_date_def)
    then show ?thesis using gd g by (simp add: date_le_iff)
  qed
qed

lemma widened_lower:
  assumes "moved_back off (- PREFILTER_MARGIN) (Some s) = Inr lo" and "valid_date d" and "valid_date s"
    and "add_to_date d off 1 = Inr d'" and "s \<le> d'"
  shows "\<exists>l. lo = Some l \<and> l \<le> d"
proof -
  obtain g l where gl: "add_to_date s off (- 1) = Inr g" "add_days g (- PREFILTER_MARGIN) = Inr l" "lo = Some l"
    using assms(1) by (auto simp: moved_back_def rbind_Inr_iff map_sum_Inr_iff)
  have "toordinal g \<le> toordinal d"
    using shift_back_lower [OF assms(2,3,4) gl(1) assms(5)] toordinal_le_iff assms(2) by blast
  then show ?thesis
    using add_days_ok [OF gl(2)] toordinal_le_iff [of l d] assms(2) gl(3) by (simp add: PREFILTER_MARGIN_def)
qed

lemma widened_upper:
  assumes "moved_back off PREFILTER_MARGIN (Some e) = Inr hi" and "valid_date d" and "valid_date e"
    and "add_to_date d off 1 = Inr d'" and "d' < e"
  shows "\<exists>h. hi = Some h \<and> d < h"
proof -
  obtain g h where gh: "add_to_date e off (- 1) = Inr g" "add_days g PREFILTER_MARGIN = Inr h" "hi = Some h"
    using assms(1) by (auto simp: moved_back_def rbind_Inr_iff map_sum_Inr_iff)
  have "toordinal d \<le> toordinal g"
    using shift_back_upper [OF assms(2,3,4) gh(1) assms(5)] toordinal_le_iff assms(2) by blast
  then show ?thesis
    using add_days_ok [OF gh(2)] toordinal_less_iff [of d h] assms(2) gh(3) by (simp add: PREFILTER_MARGIN_def)
qed

lemma moved_back_None: "moved_back off margin None = Inr b \<Longrightarrow> b = None"
  by (simp add: moved_back_def)


definition spring_range :: time_range where
  "spring_range = \<lparr>tr_dimension = ''order_day'', tr_last = None, tr_start = Some (Date 2026 1 1), tr_end = Some (Date 2026 3 1),
     tr_include_current = False\<rparr>"


text \<open>
  Two nested offsets of a year move a date by two years, while each one's bounds move the range back by
  one: the bounds exclude every row of the range.
\<close>

lemma nested_prefilter_drops_rows:
  "prefilter_bounds (Duration 1 YEAR) spring_range = Inr (Some (Date 2024 12 29), Some (Date 2025 3 4)) \<and>
   rbind (add_to_date (Date 2024 2 10) (Duration 1 YEAR) 1) (\<lambda>d. add_to_date d (Duration 1 YEAR) 1) = Inr (Date 2026 2 10) \<and>
   in_bounds (tr_start spring_range) (tr_end spring_range) (Date 2026 2 10) \<and>
   \<not> in_bounds (Some (Date 2024 12 29)) (Some (Date 2025 3 4)) (Date 2024 2 10)"
  by code_simp

end
