(* ===== verification/Contract_Validation.thy ===== *)
theory Contract_Validation
  imports Scoping Finality
begin

text \<open>
  \<^verbatim>\<open>src/canonic/contracts/validate.py\<close>: the cross-surface validation of a project, on the records the
  loaders return. A check returns the first error it meets. What the SQL parser says is a parameter:
  \<open>cols\<close> gives the columns an expression reads, \<open>counts\<close> whether a measure is a \<^verbatim>\<open>SUM\<close> or a \<^verbatim>\<open>COUNT\<close> at
  its top, \<open>find_agg\<close> the aggregate of a measure, the backend the parsed filter. The theorems say when the
  cycle check and the walk over the composition graph end and what they find, that a metric of a
  validated project always resolves down to existing sources, that a validated offset can be applied to
  every source it reads, and that a validated tenancy policy leaves no source undeclared.
\<close>

type_synonym active_map = "(string, metric_binding) dict"

definition ce :: "string list \<Rightarrow> exn" where
  "ce args = CanonicError ContractError args []"

definition active_by_name :: "metric_binding list \<Rightarrow> active_map" where
  "active_by_name bs = dict_of (map (\<lambda>b. (mb_metric b, b)) (filter (\<lambda>b. mb_status b = ACTIVE) bs))"

definition by_source_name :: "semantic_source list \<Rightarrow> sources" where
  "by_source_name ss = dict_of (map (\<lambda>s. (ss_name s, s)) ss)"

abbreviation kind_of :: "metric_binding \<Rightarrow> binding_kind" where
  "kind_of b \<equiv> cr_kind (mb_canonical b)"

fun kind_value :: "binding_kind \<Rightarrow> string" where
  "kind_value SINGLE = ''single''"
| "kind_value RATIO = ''ratio''"
| "kind_value WEIGHTED_AVG = ''weighted_avg''"
| "kind_value SEMI_ADDITIVE_KIND = ''semi_additive''"
| "kind_value DISTINCT_COUNT = ''distinct_count''"
| "kind_value PERCENTILE = ''percentile''"
| "kind_value OPAQUE = ''opaque''"
| "kind_value CUMULATIVE = ''cumulative''"
| "kind_value OFFSET = ''offset''"
| "kind_value DERIVED = ''derived''"
| "kind_value CONVERSION = ''conversion''"

section \<open>The composition graph\<close>

lemma rfor_cong [fundef_cong]:
  "xs = ys \<Longrightarrow> (\<And>x. x \<in> set ys \<Longrightarrow> f x = g x) \<Longrightarrow> rfor f xs = rfor g ys"
  by (induction ys arbitrary: xs) (auto split: sum.splits)

text \<open>Every path from the metric is walked; a name already on the path closes a cycle.\<close>

function check_composite_cycle :: "string \<Rightarrow> active_map \<Rightarrow> string list \<Rightarrow> unit res" where
  "check_composite_cycle metric act path =
     (case map_of act metric of
        None \<Rightarrow> Inr ()
      | Some b \<Rightarrow>
          rfor (\<lambda>child. if child \<in> set path then Inl (ce (hd path # path @ [child]))
            else check_composite_cycle child act (path @ [child])) (deps_of b))"
  by pat_completeness auto

termination
proof (relation "measure (\<lambda>(m, act, path). 2 * card (fst ` set act - set path) + (if map_of act m = None then 0 else 1))",
    goal_cases)
  case (2 m act path b child)
  let ?D = "fst ` set act"
  show ?case
  proof (cases "map_of act child")
    case None
    have "?D - set (path @ [child]) \<subseteq> ?D - set path" by auto
    then have "card (?D - set (path @ [child])) \<le> card (?D - set path)" by (intro card_mono) auto
    then show ?thesis using None 2 by simp
  next
    case (Some c)
    then have "child \<in> ?D - set path" using 2 map_of_SomeD [OF Some] by force
    then have "?D - set (path @ [child]) \<subset> ?D - set path" by auto
    then have "card (?D - set (path @ [child])) < card (?D - set path)" by (intro psubset_card_mono) auto
    then show ?thesis using Some 2 by simp
  qed
qed simp

declare check_composite_cycle.simps [simp del]

text \<open>
  \<^verbatim>\<open>_leaf_sources\<close> and \<^verbatim>\<open>_offset_columns\<close> recurse along the same graph without a path. The first argument
  bounds the depth of the recursion; where the graph has a cycle every bound is used up, as Python's own
  recursion limit is.
\<close>

fun leaf_sources :: "nat \<Rightarrow> active_map \<Rightarrow> metric_binding \<Rightarrow> string list res" where
  "leaf_sources 0 act b = Inl RecursionError"
| "leaf_sources (Suc k) act b =
     (if kind_of b \<in> set SOURCE_BOUND_KINDS
      then Inr (case cr_source (mb_canonical b) of None \<Rightarrow> [] | Some s \<Rightarrow> if s = [] then [] else [s])
      else map_sum id concat (rmap (\<lambda>name. case map_of act name of
          None \<Rightarrow> Inr [] | Some child \<Rightarrow> leaf_sources k act child) (deps_of b)))"

definition DEPTH :: "active_map \<Rightarrow> nat" where
  "DEPTH act = Suc (length act)"

text \<open>The columns that back a time dimension as one source sees it.\<close>

definition columns_under :: "(string \<Rightarrow> string list option) \<Rightarrow> sources \<Rightarrow> string \<Rightarrow> string \<Rightarrow> (string \<times> string) list res" where
  "columns_under cols srcs time_dimension source =
     (let tree = build_alias_tree source srcs
      in rbind (find_dimension time_dimension srcs (Some source) (Some tree)) (\<lambda>found.
           case found of
             None \<Rightarrow> Inr []
           | Some (a, d) \<Rightarrow> map_sum id (map (\<lambda>c. (source_of tree a, c))) (backing_columns cols d)))"

fun offset_columns :: "(string \<Rightarrow> string list option) \<Rightarrow> sources \<Rightarrow> nat \<Rightarrow> active_map \<Rightarrow> metric_binding \<Rightarrow>
    (string \<times> string) list res" where
  "offset_columns cols srcs 0 act b = Inl RecursionError"
| "offset_columns cols srcs (Suc k) act b =
     rbind (case (kind_of b, cr_time_dimension (mb_canonical b)) of
         (OFFSET, Some td) \<Rightarrow>
           rbind (leaf_sources (DEPTH act) act b) (\<lambda>ss. map_sum id concat (rmap (columns_under cols srcs td) (sorted_set ss)))
       | _ \<Rightarrow> Inr []) (\<lambda>own.
     rbind (rmap (\<lambda>name. case map_of act name of
         None \<Rightarrow> Inr []
       | Some child \<Rightarrow> if mb_metric child = mb_metric b then Inr [] else offset_columns cols srcs k act child) (deps_of b))
       (\<lambda>below. Inr (own @ concat below)))"

section \<open>Metrics computed from metrics\<close>

definition require_active :: "metric_binding \<Rightarrow> string \<Rightarrow> string \<Rightarrow> active_map \<Rightarrow> metric_binding res" where
  "require_active b label name act =
     (case map_of act name of None \<Rightarrow> Inl (ce [mb_metric b, label, name]) | Some found \<Rightarrow> Inr found)"

definition check_component :: "metric_binding \<Rightarrow> active_map \<Rightarrow> string option \<times> string \<Rightarrow> unit res" where
  "check_component b act nl =
     (case nl of (None, _) \<Rightarrow> Inl AssertionError
      | (Some name, label) \<Rightarrow>
          (case map_of act name of
             None \<Rightarrow> Inl (ce [mb_metric b, label, name])
           | Some child \<Rightarrow> checks
               [(kind_of child = OPAQUE, ce [mb_metric b, label, name]),
                (kind_of child = CUMULATIVE, ce [mb_metric b, label, name]),
                (kind_of child \<in> {OFFSET, DERIVED, CONVERSION}, ce [mb_metric b, label, name, kind_value (kind_of child)])]))"

definition validate_composite_binding :: "metric_binding \<Rightarrow> metric_binding list \<Rightarrow> unit res" where
  "validate_composite_binding b all_bindings =
     (let act = active_by_name all_bindings; spec = spec_for (kind_of b)
      in case ks_component_attrs spec of
           None \<Rightarrow> Inl AssertionError
         | Some (la, lb) \<Rightarrow>
             (let (x, y) = component_names spec (mb_canonical b)
              in rbind (rfor (check_component b act) [(x, la), (y, lb)]) (\<lambda>_.
                   check_composite_cycle (mb_metric b) act [mb_metric b])))"

definition check_part :: "metric_binding \<Rightarrow> active_map \<Rightarrow> string list \<Rightarrow> string \<Rightarrow> string \<Rightarrow> string \<Rightarrow> unit res" where
  "check_part b act reachable label numerator_name entry =
     (case map_of act entry of
        None \<Rightarrow> Inl (ce [mb_metric b, entry])
      | Some p \<Rightarrow> checks
          [(kind_of p \<noteq> SINGLE, ce [mb_metric b, entry, kind_value (kind_of p)]),
           (case cr_source (mb_canonical p) of None \<Rightarrow> True | Some s \<Rightarrow> s \<notin> set reachable,
              ce [mb_metric b, entry, label, numerator_name])])"

definition validate_parts_binding :: "metric_binding \<Rightarrow> active_map \<Rightarrow> sources \<Rightarrow> unit res" where
  "validate_parts_binding b act srcs =
     (case cr_numerator_parts (mb_canonical b) of
        None \<Rightarrow> Inr ()
      | Some parts \<Rightarrow>
          (let spec = spec_for (kind_of b)
           in case (ks_component_attrs spec, fst (component_names spec (mb_canonical b))) of
                (Some (label, _), Some numerator_name) \<Rightarrow>
                  rbind (case map_of act numerator_name of None \<Rightarrow> Inr [] | Some n \<Rightarrow> leaf_sources (DEPTH act) act n) (\<lambda>ns.
                    let reachable = concat (map (\<lambda>s. map snd (build_alias_tree s srcs)) ns)
                    in rfor (check_part b act reachable label numerator_name) parts)
              | _ \<Rightarrow> Inl AssertionError))"

definition validate_derived_binding :: "metric_binding \<Rightarrow> active_map \<Rightarrow> unit res" where
  "validate_derived_binding b act =
     rbind (rfor (\<lambda>i. map_sum id (\<lambda>_. ()) (require_active b ''input'' (di_metric i) act))
         (case cr_inputs (mb_canonical b) of None \<Rightarrow> [] | Some is \<Rightarrow> is)) (\<lambda>_.
       check_composite_cycle (mb_metric b) act [mb_metric b])"

text \<open>The columns of a dimension, and the type of its column when exactly one column backs it.\<close>

definition axis :: "(string \<Rightarrow> string list option) \<Rightarrow> dimension \<Rightarrow> semantic_source \<Rightarrow> (string list \<times> normalized_type option) res" where
  "axis cols d owner =
     map_sum id (\<lambda>cs. (cs, if length cs = 1 \<and> dim_json_path d = None then scope_column_type (Some owner) (hd cs) else None))
       (backing_columns cols d)"

abbreviation TIME_TYPES :: "normalized_type option list" where
  "TIME_TYPES \<equiv> [Some DATE_T, Some TIMESTAMP_T]"

definition offset_axis :: "(string \<Rightarrow> string list option) \<Rightarrow> metric_binding \<Rightarrow> string \<Rightarrow> string \<Rightarrow> sources \<Rightarrow> string \<Rightarrow>
    (string \<times> string) list res" where
  "offset_axis cols b base td srcs source =
     (let tree = build_alias_tree source srcs
      in rbind (find_dimension td srcs (Some source) (Some tree)) (\<lambda>found.
           case found of
             None \<Rightarrow> Inl (ce [mb_metric b, td, source, base])
           | Some (a, d) \<Rightarrow>
               (case map_of srcs (source_of tree a) of
                  None \<Rightarrow> Inl KeyError
                | Some owner \<Rightarrow>
                    rbind (axis cols d owner) (\<lambda>(cs, t).
                      if t \<notin> set TIME_TYPES then Inl (ce [mb_metric b, td])
                      else Inr (map (\<lambda>c. (ss_name owner, c)) cs)))))"

definition validate_offset_binding :: "(string \<Rightarrow> string list option) \<Rightarrow> metric_binding \<Rightarrow> active_map \<Rightarrow> sources \<Rightarrow> unit res" where
  "validate_offset_binding cols b act srcs =
     (case (cr_base (mb_canonical b), cr_time_dimension (mb_canonical b)) of
        (Some base_name, Some td) \<Rightarrow>
          rbind (require_active b ''base'' base_name act) (\<lambda>base.
          rbind (check_composite_cycle (mb_metric b) act [mb_metric b]) (\<lambda>_.
          rbind (checks
            [(kind_of base = OPAQUE, ce [mb_metric b, base_name]),
             (kind_of base = CONVERSION, ce [mb_metric b, base_name]),
             (kind_of base = CUMULATIVE \<and> needs_day_spine (mb_canonical base), ce [mb_metric b, base_name])]) (\<lambda>_.
          rbind (leaf_sources (DEPTH act) act base) (\<lambda>ss.
          rbind (rmap (offset_axis cols b base_name td srcs) (sorted_set ss)) (\<lambda>own.
          rbind (offset_columns cols srcs (DEPTH act) act base) (\<lambda>nested.
            checks [(\<not> set nested \<subseteq> set (concat own), ce [mb_metric b, base_name])]))))))
      | _ \<Rightarrow> Inl AssertionError)"

text \<open>
  One side of a conversion: the label of the metric, its name, the label of the side, its entity and
  time columns. \<open>None\<close> is the early return that leaves the rest to the metric's own check.
\<close>

record conversion_side =
  cs_label :: string
  cs_metric :: string
  cs_side :: string
  cs_entity :: string
  cs_time :: string

definition check_conversion_measure :: "(string \<Rightarrow> bool) \<Rightarrow> metric_binding \<Rightarrow> conversion_side \<Rightarrow> metric_binding \<Rightarrow> semantic_source \<Rightarrow>
    unit option res" where
  "check_conversion_measure counts b sd me src =
     (if cs_side sd \<noteq> ''conversion'' then Inr (Some ())
      else if kind_of me = SINGLE then
        (case find (\<lambda>x. Some (me_name x) = cr_measure (mb_canonical me)) (ss_measures src) of
           None \<Rightarrow> Inr None
         | Some x \<Rightarrow> if me_additivity x \<noteq> ADDITIVE \<or> \<not> counts (me_expr x) then Inl (ce [mb_metric b, cs_metric sd])
             else Inr (Some ()))
      else if kind_of me = DISTINCT_COUNT then
        (let d = (case cr_distinct_on (mb_canonical me) of None \<Rightarrow> [] | Some d \<Rightarrow> d)
         in if own_column src d = None then Inl (ce [mb_metric b, cs_metric sd, d, ss_name src]) else Inr (Some ()))
      else Inr (Some ()))"

definition side_columns :: "canonical_ref \<Rightarrow> conversion_side \<Rightarrow> (string \<times> string) list" where
  "side_columns c sd =
     [(''entity '' @ cs_side sd, cs_entity sd), (cs_side sd @ ''_time'', cs_time sd)] @
     map (\<lambda>p. (''constant_properties '' @ cs_side sd, if cs_side sd = ''base'' then cp_base p else cp_conversion p))
       (case cr_constant_properties c of None \<Rightarrow> [] | Some ps \<Rightarrow> ps)"

definition check_side :: "(string \<Rightarrow> bool) \<Rightarrow> metric_binding \<Rightarrow> active_map \<Rightarrow> sources \<Rightarrow> conversion_side \<Rightarrow>
    normalized_type option res" where
  "check_side counts b act srcs sd =
     rbind (require_active b (cs_label sd) (cs_metric sd) act) (\<lambda>me.
       if kind_of me \<notin> {SINGLE, DISTINCT_COUNT} then Inl (ce [mb_metric b, cs_label sd, cs_metric sd, kind_value (kind_of me)])
       else (case map_of srcs (case cr_source (mb_canonical me) of None \<Rightarrow> [] | Some s \<Rightarrow> s) of
           None \<Rightarrow> Inr None
         | Some src \<Rightarrow>
             rbind (check_conversion_measure counts b sd me src) (\<lambda>go.
               case go of
                 None \<Rightarrow> Inr None
               | Some _ \<Rightarrow>
                   rbind (rfor (\<lambda>(field, c). checks [(own_column src c = None, ce [mb_metric b, field, c, ss_name src])])
                       (side_columns (mb_canonical b) sd)) (\<lambda>_.
                     case own_column src (cs_time sd) of
                       None \<Rightarrow> Inl AssertionError
                     | Some tc \<Rightarrow>
                         if Some (col_type tc) \<notin> set TIME_TYPES then Inl (ce [mb_metric b, cs_side sd, cs_time sd])
                         else Inr (Some (col_type tc))))))"

definition validate_conversion_binding :: "(string \<Rightarrow> bool) \<Rightarrow> metric_binding \<Rightarrow> active_map \<Rightarrow> sources \<Rightarrow> unit res" where
  "validate_conversion_binding counts b act srcs =
     (let c = mb_canonical b
      in case (cr_base_metric c, cr_conversion_metric c, cr_entity c, cr_base_time c, cr_conversion_time c) of
           (Some bm, Some cm, Some en, Some bt, Some ct) \<Rightarrow>
             rbind (check_side counts b act srcs
               \<lparr>cs_label = ''base_metric'', cs_metric = bm, cs_side = ''base'', cs_entity = cp_base en, cs_time = bt\<rparr>) (\<lambda>tb.
             case tb of None \<Rightarrow> Inr () | Some ty_base \<Rightarrow>
             rbind (check_side counts b act srcs
               \<lparr>cs_label = ''conversion_metric'', cs_metric = cm, cs_side = ''conversion'',
                 cs_entity = cp_conversion en, cs_time = ct\<rparr>) (\<lambda>tc.
             case tc of None \<Rightarrow> Inr () | Some ty_conv \<Rightarrow>
               checks [(case cr_window c of None \<Rightarrow> False
                   | Some w \<Rightarrow> rank (du_unit w) < rank DAY \<and> DATE_T \<in> {ty_base, ty_conv},
                 ce [mb_metric b])]))
         | _ \<Rightarrow> Inl AssertionError)"

section \<open>Metrics bound to a source\<close>

definition source_measures :: "sources \<Rightarrow> string \<Rightarrow> string list option" where
  "source_measures srcs s = map_option (\<lambda>src. map me_name (ss_measures src)) (map_of srcs s)"

definition names_of :: "('a \<Rightarrow> string) \<Rightarrow> (semantic_source \<Rightarrow> 'a list) \<Rightarrow> sources \<Rightarrow> string \<Rightarrow> string list" where
  "names_of name items srcs s = (case map_of srcs s of None \<Rightarrow> [] | Some src \<Rightarrow> map name (items src))"

abbreviation source_dims :: "sources \<Rightarrow> string \<Rightarrow> string list" where
  "source_dims \<equiv> names_of dim_name ss_dimensions"

abbreviation source_columns :: "sources \<Rightarrow> string \<Rightarrow> string list" where
  "source_columns \<equiv> names_of col_name ss_columns"

text \<open>The two checks that open the validation of a metric with a source and a measure.\<close>

definition check_source_measure :: "metric_binding \<Rightarrow> sources \<Rightarrow> string \<Rightarrow> string \<Rightarrow> unit res" where
  "check_source_measure b srcs s me =
     (case source_measures srcs s of
        None \<Rightarrow> Inl (ce [mb_metric b, s])
      | Some names \<Rightarrow> checks [(me \<notin> set names, ce [mb_metric b, me, s])])"

definition validate_single_binding :: "metric_binding \<Rightarrow> sources \<Rightarrow> unit res" where
  "validate_single_binding b srcs =
     (case (cr_source (mb_canonical b), cr_measure (mb_canonical b)) of
        (Some s, Some me) \<Rightarrow> check_source_measure b srcs s me
      | _ \<Rightarrow> Inl AssertionError)"

definition measure_additivity :: "sources \<Rightarrow> string \<Rightarrow> string \<Rightarrow> additivity option" where
  "measure_additivity srcs s me =
     (case map_of srcs s of
        None \<Rightarrow> None
      | Some src \<Rightarrow> map_of (dict_of (map (\<lambda>x. (me_name x, me_additivity x)) (ss_measures src))) me)"

definition validate_semi_additive_binding :: "metric_binding \<Rightarrow> sources \<Rightarrow> unit res" where
  "validate_semi_additive_binding b srcs =
     (let c = mb_canonical b
      in case (cr_source c, cr_measure c, cr_collapse_dimension c) of
           (Some s, Some me, Some cd) \<Rightarrow>
             rbind (check_source_measure b srcs s me) (\<lambda>_.
             rbind (checks
               [(measure_additivity srcs s me \<noteq> Some ADDITIVE, ce [mb_metric b, s, me]),
                (cd \<notin> set (source_dims srcs s), ce [mb_metric b, cd, s])]) (\<lambda>_.
               rfor (\<lambda>g. checks [(g \<noteq> cd \<and> g \<notin> set (source_dims srcs s), ce [mb_metric b, g, s])])
                 (case map_of srcs s of None \<Rightarrow> [] | Some src \<Rightarrow> ss_grain src)))
         | _ \<Rightarrow> Inl AssertionError)"

definition ORDERABLE_TYPES :: "normalized_type list" where
  "ORDERABLE_TYPES = [DATE_T, TIMESTAMP_T, INT_T, DECIMAL_T, FLOAT_T]"

text \<open>An order dimension as the compiler's own lookup finds it, with the source that owns it.\<close>

definition resolve_order :: "metric_binding \<Rightarrow> sources \<Rightarrow> string \<Rightarrow> string \<Rightarrow>
    (string \<times> string \<times> dimension \<times> semantic_source) res" where
  "resolve_order b srcs s name =
     (let tree = build_alias_tree s srcs
      in case find_dimension name srcs (Some s) (Some tree) of
           Inl e \<Rightarrow> (case e of CanonicError Ambiguous _ _ \<Rightarrow> Inl (ce [mb_metric b, name]) | _ \<Rightarrow> Inl e)
         | Inr None \<Rightarrow> Inl (ce [mb_metric b, name, s])
         | Inr (Some (a, d)) \<Rightarrow>
             (case map_of srcs (source_of tree a) of
                None \<Rightarrow> Inl KeyError
              | Some owner \<Rightarrow>
                  if value_type d (ss_columns owner) \<notin> Some ` set ORDERABLE_TYPES \<and> \<not> needs_day_spine (mb_canonical b)
                  then Inl (ce [mb_metric b, name])
                  else Inr (name, a, d, owner)))"

fun check_same_column :: "metric_binding \<Rightarrow> (string \<times> string \<times> dimension \<times> semantic_source) list \<Rightarrow>
    (string \<times> string, string) dict \<Rightarrow> unit res" where
  "check_same_column b [] seen = Inr ()"
| "check_same_column b ((name, a, d, owner) # rest) seen =
     (case dim_column d of
        None \<Rightarrow> check_same_column b rest seen
      | Some c \<Rightarrow>
          (if is_derived d then check_same_column b rest seen
           else (case map_of seen (a, c) of
               None \<Rightarrow> check_same_column b rest (seen @ [((a, c), name)])
             | Some other \<Rightarrow>
                 if other \<noteq> name then Inl (ce [mb_metric b, other, name, c]) else check_same_column b rest seen)))"

text \<open>\<^verbatim>\<open>PERIOD_GRAINS.index(grain)\<close>\<close>

definition grain_index :: "string \<Rightarrow> nat res" where
  "grain_index g = (if g \<in> set PERIOD_GRAINS then Inr (length (takeWhile (\<lambda>x. x \<noteq> g) PERIOD_GRAINS)) else Inl ValueError)"

definition validate_day_axis :: "(string \<Rightarrow> string list option) \<Rightarrow> metric_binding \<Rightarrow> string \<Rightarrow> dimension \<Rightarrow> semantic_source \<Rightarrow> unit res" where
  "validate_day_axis cols b name d owner =
     rbind (axis cols d owner) (\<lambda>(cs, t).
       if t \<notin> set TIME_TYPES then Inl (ce [mb_metric b, name])
       else (case (cr_grain_to_date (mb_canonical b), period_grain d) of
           (Some gtd, Some g) \<Rightarrow>
             rbind (grain_index (unit_value gtd)) (\<lambda>i. rbind (grain_index g) (\<lambda>j.
               checks [(i < j, ce [mb_metric b, unit_value gtd, name, g])]))
         | _ \<Rightarrow> Inr ()))"

definition validate_cumulative_binding :: "(string \<Rightarrow> string list option) \<Rightarrow> (string \<Rightarrow> agg option) \<Rightarrow> metric_binding \<Rightarrow> sources \<Rightarrow>
    unit res" where
  "validate_cumulative_binding cols find_agg b srcs =
     (let c = mb_canonical b
      in case (cr_source c, cr_measure c, cr_order_by c) of
           (Some s, Some me, Some (o1 # os)) \<Rightarrow>
             (case map_of srcs s of
                None \<Rightarrow> Inl (ce [mb_metric b, s])
              | Some src \<Rightarrow>
                  (case find (\<lambda>x. me_name x = me) (ss_measures src) of
                     None \<Rightarrow> Inl (ce [mb_metric b, me, s])
                   | Some x \<Rightarrow>
                       rbind (checks [(me_additivity x \<noteq> ADDITIVE \<or> \<not> is_p0_compilable find_agg x, ce [mb_metric b, s, me])]) (\<lambda>_.
                       rbind (rmap (resolve_order b srcs s) (o1 # os)) (\<lambda>resolved.
                       rbind (check_same_column b resolved []) (\<lambda>_.
                         if needs_day_spine c
                         then (case hd resolved of (name, a, d, owner) \<Rightarrow> validate_day_axis cols b name d owner)
                         else Inr ())))))
         | _ \<Rightarrow> Inl AssertionError)"

definition validate_recompute_at_grain_binding :: "metric_binding \<Rightarrow> sources \<Rightarrow> unit res" where
  "validate_recompute_at_grain_binding b srcs =
     (let c = mb_canonical b
      in case cr_source c of
           None \<Rightarrow> Inl AssertionError
         | Some s \<Rightarrow>
             rbind (checks [(source_measures srcs s = None, ce [mb_metric b, s])]) (\<lambda>_.
               case column_field (spec_for (cr_kind c)) c of
                 None \<Rightarrow> Inl AssertionError
               | Some col \<Rightarrow>
                   rbind (checks [(col \<notin> set (source_columns srcs s) \<union> set (source_dims srcs s), ce [mb_metric b, col, s])]) (\<lambda>_.
                     if cr_kind c = PERCENTILE
                     then (case cr_quantile c of
                         None \<Rightarrow> Inl AssertionError
                       | Some q \<Rightarrow> checks [(\<not> (0 < q \<and> q < 1), ce [mb_metric b])])
                     else Inr ())))"

definition validate_opaque_binding :: "metric_binding \<Rightarrow> sources \<Rightarrow> unit res" where
  "validate_opaque_binding b srcs =
     (let c = mb_canonical b
      in case (cr_source c, cr_measure c, cr_native_grain c) of
           (Some s, Some me, Some (g # gs)) \<Rightarrow>
             rbind (check_source_measure b srcs s me) (\<lambda>_.
               rfor (\<lambda>x. checks [(x \<notin> set (source_dims srcs s), ce [mb_metric b, x, s])]) (g # gs))
         | _ \<Rightarrow> Inl AssertionError)"

definition validate_population_filter :: "backend \<Rightarrow> metric_binding \<Rightarrow> active_map \<Rightarrow> sources \<Rightarrow> unit res" where
  "validate_population_filter bk b act srcs =
     (case cr_population_filter (mb_canonical b) of
        None \<Rightarrow> Inr ()
      | Some pf \<Rightarrow>
          (case bk_parse bk pf of
             None \<Rightarrow> Inl (ce [mb_metric b, pf])
           | Some e \<Rightarrow>
               (let referenced = sorted_set (map snd (columns e))
                in if referenced = [] then Inr ()
                   else rbind (leaf_sources (DEPTH act) act b) (\<lambda>ss.
                     rfor (\<lambda>l. rfor (\<lambda>n. checks
                         [(n \<notin> set (source_columns srcs l) \<union> set (source_dims srcs l), ce [mb_metric b, n, l])]) referenced)
                       (sorted_set ss)))))"

section \<open>Guardrails, finality rules, assertions and policies\<close>

definition check_applies_to :: "sources \<Rightarrow> string list \<Rightarrow> guardrail \<Rightarrow> unit res" where
  "check_applies_to srcs active_metrics g =
     (let tgt = gr_applies_to g
      in case at_source tgt of
           Some s \<Rightarrow>
             (case source_measures srcs s of
                None \<Rightarrow> Inl (ce [gr_id g, s])
              | Some names \<Rightarrow> checks [(case at_measure tgt of None \<Rightarrow> False | Some x \<Rightarrow> x \<notin> set names, ce [gr_id g, the (at_measure tgt), s])])
         | None \<Rightarrow>
             (case at_metric tgt of
                None \<Rightarrow> Inr ()
              | Some n \<Rightarrow> checks [(n \<notin> set active_metrics, ce [gr_id g, n])]))"

definition check_restrict_source :: "string list \<Rightarrow> guardrail \<Rightarrow> unit res" where
  "check_restrict_source finality_metrics g =
     checks [(gr_kind g = RESTRICT_SOURCE \<and>
         (case at_metric (gr_applies_to g) of None \<Rightarrow> False | Some n \<Rightarrow> n \<notin> set finality_metrics),
       ce [gr_id g, the (at_metric (gr_applies_to g))])]"

definition check_finality_rule :: "(string \<Rightarrow> bool) \<Rightarrow> string list \<Rightarrow> string list \<Rightarrow> finality_rule \<Rightarrow> unit res" where
  "check_finality_rule known_zone source_names active_metrics rule =
     rbind (checks [(fr_metric rule \<notin> set active_metrics, ce [fr_metric rule])]) (\<lambda>_.
       case validate_finality_rule known_zone (Some source_names) rule of
         Inr u \<Rightarrow> Inr u
       | Inl e \<Rightarrow> Inl (if is_value_error e then ce [fr_metric rule] else e))"

text \<open>
  The \<^verbatim>\<open>dimensions\<close> an assertion's query authors: a list, or another value, of which only its truth and
  whether it can be iterated matter.
\<close>

datatype query_dims = DimList "string list" | DimValue (truthy: bool) (iterable: bool)

record checked_assertion = assertion +
  as_dimensions :: query_dims
  as_expect_values :: "string list"
  as_expect_rows :: "int option"

definition check_assertion :: "string list \<Rightarrow> checked_assertion \<Rightarrow> unit res" where
  "check_assertion known a =
     (if \<not> as_executable a then Inr ()
      else
        (let metrics = as_metrics a;
             output = metrics @ (case as_dimensions a of DimList ds \<Rightarrow> ds | _ \<Rightarrow> []);
             empty = (case as_dimensions a of DimList ds \<Rightarrow> ds = [] | DimValue t _ \<Rightarrow> \<not> t)
         in rbind (rfor (\<lambda>x. checks [(x \<notin> set known, ce [as_id a, x])]) metrics) (\<lambda>_.
            rbind (rfor (\<lambda>v. checks [(v \<notin> set output,
                case as_dimensions a of DimValue _ False \<Rightarrow> TypeError | _ \<Rightarrow> ce [as_id a, v])]) (as_expect_values a)) (\<lambda>_.
              checks [(empty \<and> (case as_expect_rows a of None \<Rightarrow> False | Some n \<Rightarrow> n > 1), ce [as_id a])]))))"

definition validate_tenancy_policy :: "tenancy_policy option \<Rightarrow> sources \<Rightarrow> unit res" where
  "validate_tenancy_policy tenancy srcs =
     (case tenancy of
        None \<Rightarrow> Inr ()
      | Some p \<Rightarrow>
          rbind (rfor (\<lambda>s. checks
              [(map_of srcs (sc_source s) = None, ce [sc_source s]),
               (sc_column s \<notin> set (source_columns srcs (sc_source s)), ce [sc_column s, sc_source s])]) (tp_scoped p)) (\<lambda>_.
            let undeclared = sorted_set (filter (\<lambda>s. s \<notin> set (map sc_source (tp_scoped p) @ tp_shared p)) (map fst srcs))
            in if undeclared = [] then Inr ()
               else if tp_undeclared p = US_DENY then Inl (ce undeclared)
               else Inr ()))"

definition check_role_names :: "string list \<Rightarrow> string \<times> role_def \<Rightarrow> unit res" where
  "check_role_names known nr =
     (let pol = field_or (rd_metrics (snd nr)) no_policy;
          check = (\<lambda>label n. checks [(n \<noteq> ''*'' \<and> n \<notin> set known, ce [fst nr, label, n])])
      in rbind (case ad_allow pol of None \<Rightarrow> Inr () | Some ns \<Rightarrow> rfor (check ''allow'') ns) (\<lambda>_.
           rfor (check ''deny'') (ad_deny pol)))"

definition validate_role_policy :: "role_policy option \<Rightarrow> string list \<Rightarrow> unit res" where
  "validate_role_policy roles known =
     (case roles of None \<Rightarrow> Inr () | Some p \<Rightarrow> rfor (check_role_names known) (rp_roles p))"

section \<open>A project\<close>

record project =
  pj_sources :: "semantic_source list"
  pj_tenancy :: "tenancy_policy option"
  pj_roles :: "role_policy option"
  pj_bindings :: "metric_binding list"
  pj_guardrails :: "guardrail list"
  pj_finality :: "finality_rule list"
  pj_assertions :: "checked_assertion list"

text \<open>What the checks ask of the SQL parser and of the time zone database.\<close>

record parser =
  pa_cols :: "string \<Rightarrow> string list option"
  pa_counts :: "string \<Rightarrow> bool"
  pa_find_agg :: "string \<Rightarrow> agg option"
  pa_backend :: backend
  pa_known_zone :: "string \<Rightarrow> bool"

definition validate_kind :: "parser \<Rightarrow> metric_binding list \<Rightarrow> sources \<Rightarrow> metric_binding \<Rightarrow> unit res" where
  "validate_kind pa bs srcs b =
     (let act = active_by_name bs
      in case kind_of b of
           SINGLE \<Rightarrow> validate_single_binding b srcs
         | SEMI_ADDITIVE_KIND \<Rightarrow> validate_semi_additive_binding b srcs
         | DISTINCT_COUNT \<Rightarrow> validate_recompute_at_grain_binding b srcs
         | PERCENTILE \<Rightarrow> validate_recompute_at_grain_binding b srcs
         | OPAQUE \<Rightarrow> validate_opaque_binding b srcs
         | CUMULATIVE \<Rightarrow> validate_cumulative_binding (pa_cols pa) (pa_find_agg pa) b srcs
         | OFFSET \<Rightarrow> validate_offset_binding (pa_cols pa) b act srcs
         | DERIVED \<Rightarrow> validate_derived_binding b act
         | CONVERSION \<Rightarrow> validate_conversion_binding (pa_counts pa) b act srcs
         | _ \<Rightarrow> rbind (validate_composite_binding b bs) (\<lambda>_. validate_parts_binding b act srcs))"

definition validate_one :: "parser \<Rightarrow> metric_binding list \<Rightarrow> sources \<Rightarrow> metric_binding \<Rightarrow> unit res" where
  "validate_one pa bs srcs b =
     (if mb_status b \<noteq> ACTIVE then Inr ()
      else rbind (validate_kind pa bs srcs b) (\<lambda>_.
        validate_population_filter (pa_backend pa) b (active_by_name bs) srcs))"

definition validate_contracts :: "parser \<Rightarrow> project \<Rightarrow> unit res" where
  "validate_contracts pa pj =
     (let srcs = by_source_name (pj_sources pj);
          bs = pj_bindings pj;
          active_metrics = map mb_metric (filter (\<lambda>b. mb_status b = ACTIVE) bs);
          names = active_names bs
      in rbind (rfor (validate_one pa bs srcs) bs) (\<lambda>_.
         rbind (rfor (check_applies_to srcs active_metrics) (pj_guardrails pj)) (\<lambda>_.
         rbind (rfor (check_restrict_source (map fr_metric (pj_finality pj))) (pj_guardrails pj)) (\<lambda>_.
         rbind (rfor (check_finality_rule (pa_known_zone pa) (map fst srcs) active_metrics) (pj_finality pj)) (\<lambda>_.
         rbind (rfor (check_assertion names) (pj_assertions pj)) (\<lambda>_.
         rbind (validate_tenancy_policy (pj_tenancy pj) srcs) (\<lambda>_.
           validate_role_policy (pj_roles pj) names)))))))"

section \<open>The walks over the composition graph\<close>

definition below :: "active_map \<Rightarrow> string \<Rightarrow> string \<Rightarrow> bool" where
  "below act m d \<longleftrightarrow> (\<exists>b. map_of act m = Some b \<and> d \<in> set (deps_of b))"

lemma check_cycle_ok_iff:
  "check_composite_cycle m act path = Inr () \<longleftrightarrow>
     (\<forall>c. below act m c \<longrightarrow> c \<notin> set path \<and> check_composite_cycle c act (path @ [c]) = Inr ())"
  by (subst check_composite_cycle.simps) (auto simp: below_def rfor_ok_iff split: option.splits)

text \<open>What a walk that ends well says of every name it came by.\<close>

lemma checked_path:
  assumes "check_composite_cycle m act path = Inr ()" and "(below act)\<^sup>+\<^sup>+ m n"
  shows "n \<notin> set path"
  using assms
proof (induction m act path rule: check_composite_cycle.induct)
  case (1 m act path)
  from "1.prems"(2) obtain c where c: "below act m c" "(below act)\<^sup>*\<^sup>* c n" by (auto dest: tranclpD)
  then obtain b where b: "map_of act m = Some b" "c \<in> set (deps_of b)" by (auto simp: below_def)
  have ok: "c \<notin> set path" "check_composite_cycle c act (path @ [c]) = Inr ()"
    using "1.prems"(1) c(1) check_cycle_ok_iff by blast+
  show ?case
  proof (cases "c = n")
    case False
    then have "(below act)\<^sup>+\<^sup>+ c n" using c(2) by (metis rtranclpD)
    then show ?thesis using "1.IH" [OF b ok(1) ok(2)] by simp
  qed (use ok in simp)
qed

lemma checked_acyclic:
  assumes "check_composite_cycle m act path = Inr ()" and "m \<in> set path" and "(below act)\<^sup>*\<^sup>* m n"
  shows "\<not> (below act)\<^sup>+\<^sup>+ n n"
  using assms
proof (induction m act path rule: check_composite_cycle.induct)
  case (1 m act path)
  show ?case
  proof (cases "m = n")
    case True
    then show ?thesis using checked_path "1.prems" by blast
  next
    case False
    then obtain c where c: "below act m c" "(below act)\<^sup>*\<^sup>* c n" using "1.prems"(3) by (metis converse_rtranclpE)
    then obtain b where b: "map_of act m = Some b" "c \<in> set (deps_of b)" by (auto simp: below_def)
    have "c \<notin> set path" "check_composite_cycle c act (path @ [c]) = Inr ()"
      using "1.prems"(1) c(1) check_cycle_ok_iff by blast+
    then show ?thesis using "1.IH" [OF b] c(2) by simp
  qed
qed

lemma acyclic_checked:
  assumes "\<And>n. (below act)\<^sup>*\<^sup>* m n \<Longrightarrow> \<not> (below act)\<^sup>+\<^sup>+ n n" and "\<forall>s\<in>set path. (below act)\<^sup>*\<^sup>* s m"
  shows "check_composite_cycle m act path = Inr ()"
  using assms
proof (induction m act path rule: check_composite_cycle.induct)
  case (1 m act path)
  have "c \<notin> set path \<and> check_composite_cycle c act (path @ [c]) = Inr ()" if c: "below act m c" for c
  proof
    show fresh: "c \<notin> set path"
    proof
      assume "c \<in> set path"
      then have "(below act)\<^sup>+\<^sup>+ m m" using c "1.prems"(2) by (meson rtranclp_into_tranclp2)
      then show False using "1.prems"(1) by blast
    qed
    obtain b where b: "map_of act m = Some b" "c \<in> set (deps_of b)" using c by (auto simp: below_def)
    show "check_composite_cycle c act (path @ [c]) = Inr ()"
      using "1.IH" [OF b fresh] "1.prems" c
      by (simp add: converse_rtranclp_into_rtranclp) (meson rtranclp.rtrancl_into_rtrancl)
  qed
  then show ?case using check_cycle_ok_iff by blast
qed

text \<open>The sources under a binding, as a specification.\<close>

inductive reads :: "active_map \<Rightarrow> metric_binding \<Rightarrow> string \<Rightarrow> bool" for act where
  own_source: "kind_of b \<in> set SOURCE_BOUND_KINDS \<Longrightarrow> cr_source (mb_canonical b) = Some s \<Longrightarrow> s \<noteq> [] \<Longrightarrow> reads act b s"
| component: "kind_of b \<notin> set SOURCE_BOUND_KINDS \<Longrightarrow> d \<in> set (deps_of b) \<Longrightarrow> map_of act d = Some c \<Longrightarrow> reads act c s \<Longrightarrow>
    reads act b s"

inductive_simps reads_iff: "reads act b s"

lemma reads_bound:
  "kind_of b \<in> set SOURCE_BOUND_KINDS \<Longrightarrow>
    {s. reads act b s} = (case cr_source (mb_canonical b) of None \<Rightarrow> {} | Some s \<Rightarrow> {s} - {[]})"
  by (subst reads_iff) (auto split: option.splits)

lemma reads_composed:
  "kind_of b \<notin> set SOURCE_BOUND_KINDS \<Longrightarrow>
    {s. reads act b s} = (\<Union>d\<in>set (deps_of b). case map_of act d of None \<Rightarrow> {} | Some c \<Rightarrow> {s. reads act c s})"
  by (subst reads_iff) (force split: option.splits)

lemma leaf_sources_spec:
  assumes "check_composite_cycle m act path = Inr ()" and "map_of act m = Some b" and "m \<in> set path"
    and "card (fst ` set act - set path) < k"
  shows "\<exists>ss. leaf_sources k act b = Inr ss \<and> set ss = {s. reads act b s}"
  using assms
proof (induction m act path arbitrary: b k rule: check_composite_cycle.induct)
  case (1 m act path)
  obtain j where k: "k = Suc j" using "1.prems"(4) by (cases k) auto
  show ?case
  proof (cases "kind_of b \<in> set SOURCE_BOUND_KINDS")
    case True
    then show ?thesis using k reads_bound [OF True, of act] by (auto split: option.splits)
  next
    case False
    let ?f = "\<lambda>name. case map_of act name of None \<Rightarrow> Inr [] | Some child \<Rightarrow> leaf_sources j act child"
    let ?S = "\<lambda>d. case map_of act d of None \<Rightarrow> {} | Some c \<Rightarrow> {s. reads act c s}"
    have each: "\<exists>ys. ?f d = Inr ys \<and> set ys = ?S d" if d: "d \<in> set (deps_of b)" for d
    proof (cases "map_of act d")
      case (Some c)
      have ok: "d \<notin> set path" "check_composite_cycle d act (path @ [d]) = Inr ()"
        using "1.prems" d check_cycle_ok_iff [of m act path] by (auto simp: below_def)
      have "d \<in> fst ` set act - set path" using ok(1) map_of_SomeD [OF Some] by force
      then have "fst ` set act - set (path @ [d]) \<subset> fst ` set act - set path" by auto
      then have "card (fst ` set act - set (path @ [d])) < card (fst ` set act - set path)"
        by (intro psubset_card_mono) auto
      then have "card (fst ` set act - set (path @ [d])) < j" using "1.prems"(4) k by simp
      from "1.IH" [OF "1.prems"(2) d ok(1) ok(2) Some _ this] show ?thesis using Some by simp
    qed simp
    have "\<exists>yss. rmap ?f ds = Inr yss \<and> set (concat yss) = (\<Union>d\<in>set ds. ?S d)" if "set ds \<subseteq> set (deps_of b)" for ds
      using that
    proof (induction ds)
      case (Cons d ds)
      then obtain yss where "rmap ?f ds = Inr yss" "set (concat yss) = (\<Union>d\<in>set ds. ?S d)" by auto
      moreover obtain ys where "?f d = Inr ys" "set ys = ?S d" using each [of d] Cons.prems by auto
      ultimately show ?case by (auto simp: rmap_Inr_Cons)
    qed simp
    from this [of "deps_of b"] show ?thesis using False k by (auto simp: reads_composed)
  qed
qed

lemma card_active: "card (fst ` set act - set path) < DEPTH act"
proof -
  have "card (fst ` set act - set path) \<le> card (fst ` set act)" by (intro card_mono) auto
  also have "\<dots> \<le> length act" by (metis card_length length_map list.set_map)
  finally show ?thesis by (simp add: DEPTH_def)
qed

section \<open>What a validated project guarantees\<close>

lemma map_of_active:
  assumes "distinct (active_names bs)"
  shows "map_of (active_by_name bs) n = Some b \<longleftrightarrow> b \<in> set bs \<and> mb_status b = ACTIVE \<and> mb_metric b = n"
proof -
  let ?A = "filter (\<lambda>b. mb_status b = ACTIVE) bs"
  have "distinct (map mb_metric ?A)"
    using assms unfolding active_names_def
  proof (induction bs)
    case (Cons b bs)
    then show ?case by (auto simp: inj_on_def)
  qed simp
  then have "distinct (map fst (rev (map (\<lambda>b. (mb_metric b, b)) ?A)))" by (simp add: rev_map [symmetric] comp_def)
  then show ?thesis
    unfolding active_by_name_def map_of_dict_of by (auto simp: map_of_eq_Some_iff)
qed

lemma deps_source_bound:
  assumes "valid_binding dn b" and "kind_of b \<in> set SOURCE_BOUND_KINDS"
  shows "deps_of b = []"
proof -
  have "validate_kind_fields (mb_canonical b) = Inr ()"
    using assms(1) validate_shape_parts by (auto simp: valid_binding_def)
  from kind_fields_ok [OF this] show ?thesis
    using assms(2) by (auto simp: SOURCE_BOUND_KINDS_def all_kinds_def deps_of_def dependency_names_def)
qed

lemma checked_source:
  "check_source_measure b srcs s me = Inr () \<Longrightarrow> map_of srcs s \<noteq> None"
  by (auto simp: check_source_measure_def source_measures_def split: option.splits)

lemma rbind_unit_iff: "rbind m f = Inr () \<longleftrightarrow> m = Inr () \<and> f () = Inr ()" for m :: "exn + unit"
  by (cases m) auto

text \<open>A metric bound to a source names one that exists.\<close>

lemma validated_source:
  assumes "validate_kind pa bs srcs b = Inr ()" and "kind_of b \<in> set SOURCE_BOUND_KINDS"
  shows "\<exists>s. cr_source (mb_canonical b) = Some s \<and> map_of srcs s \<noteq> None"
proof -
  note defs = validate_kind_def Let_def rbind_unit_iff
  show ?thesis
  proof (cases "kind_of b")
    case SINGLE
    then show ?thesis using assms(1) by (auto simp: defs validate_single_binding_def dest: checked_source split: option.splits)
  next
    case SEMI_ADDITIVE_KIND
    then show ?thesis
      using assms(1) by (auto simp: defs validate_semi_additive_binding_def dest: checked_source split: option.splits)
  next
    case OPAQUE
    then show ?thesis
      using assms(1) by (auto simp: defs validate_opaque_binding_def dest: checked_source split: option.splits list.splits)
  next
    case CUMULATIVE
    then show ?thesis
      using assms(1) by (auto simp: defs validate_cumulative_binding_def split: option.splits list.splits)
  qed (use assms in \<open>auto simp: defs validate_recompute_at_grain_binding_def source_measures_def SOURCE_BOUND_KINDS_def
      all_kinds_def split: option.splits if_splits\<close>)
qed

lemma checked_component: "check_component b act (x, label) = Inr () \<Longrightarrow> \<exists>n. x = Some n \<and> map_of act n \<noteq> None"
  by (auto simp: check_component_def split: option.splits)

lemma required_active: "require_active b label n act = Inr c \<longleftrightarrow> map_of act n = Some c"
  by (auto simp: require_active_def split: option.splits)

text \<open>A ratio, weighted average, offset or derived metric: its inputs are active and no cycle is in reach.\<close>

lemma validated_composed:
  assumes "validate_kind pa bs srcs b = Inr ()" and "valid_binding dn b"
    and "kind_of b \<in> {RATIO, WEIGHTED_AVG, OFFSET, DERIVED}" and "d \<in> set (deps_of b)"
  shows "map_of (active_by_name bs) d \<noteq> None \<and>
    check_composite_cycle (mb_metric b) (active_by_name bs) [mb_metric b] = Inr ()"
proof -
  have kf: "validate_kind_fields (mb_canonical b) = Inr ()"
    using assms(2) validate_shape_parts by (auto simp: valid_binding_def)
  note kf = kind_fields_ok [OF kf]
  note defs = validate_kind_def Let_def rbind_unit_iff
  note deps = deps_of_def dependency_names_def component_names_def get_attr_def opt_list_def
  consider (comp) "kind_of b \<in> {RATIO, WEIGHTED_AVG}" | (off) "kind_of b = OFFSET" | (der) "kind_of b = DERIVED"
    using assms(3) by blast
  then show ?thesis
  proof cases
    case comp
    then have "validate_composite_binding b bs = Inr ()" using assms(1) by (auto simp: defs)
    then show ?thesis
      using comp assms(4) by (auto simp: validate_composite_binding_def defs deps rfor_ok_iff simp del: rfor.simps dest!: checked_component)
  next
    case off
    then have "validate_offset_binding (pa_cols pa) b (active_by_name bs) srcs = Inr ()" using assms(1) by (simp add: defs)
    then show ?thesis
      using off assms(4)
      by (auto simp: validate_offset_binding_def rbind_Inr_iff required_active deps split: option.splits)
  next
    case der
    then have "validate_derived_binding b (active_by_name bs) = Inr ()" using assms(1) by (simp add: defs)
    then show ?thesis
      using der kf assms(4)
      by (auto simp: validate_derived_binding_def rbind_unit_iff rfor_ok_iff map_sum_Inr_iff required_active deps
          split: option.splits)
  qed
qed

text \<open>A conversion: once the sources of its base exist, both of its metrics are active and bound to a source.\<close>

lemma checked_side:
  assumes "check_side counts b act srcs sd = Inr t"
  shows "\<exists>me. map_of act (cs_metric sd) = Some me \<and> kind_of me \<in> {SINGLE, DISTINCT_COUNT}"
    and "\<And>me s. map_of act (cs_metric sd) = Some me \<Longrightarrow> cr_source (mb_canonical me) = Some s \<Longrightarrow> map_of srcs s \<noteq> None \<Longrightarrow>
      cs_side sd = ''base'' \<Longrightarrow> t \<noteq> None"
  using assms
  by (auto simp: check_side_def rbind_Inr_iff required_active check_conversion_measure_def split: if_splits option.splits)

lemma validated_conversion:
  assumes "validate_kind pa bs srcs b = Inr ()" and "kind_of b = CONVERSION" and "d \<in> set (deps_of b)"
    and sources: "\<And>n c. map_of (active_by_name bs) n = Some c \<Longrightarrow> kind_of c \<in> set SOURCE_BOUND_KINDS \<Longrightarrow>
      \<exists>s. cr_source (mb_canonical c) = Some s \<and> map_of srcs s \<noteq> None"
    and "cr_base (mb_canonical b) = None"
  shows "\<exists>c. map_of (active_by_name bs) d = Some c \<and> kind_of c \<in> set SOURCE_BOUND_KINDS"
proof -
  let ?c = "mb_canonical b" and ?act = "active_by_name bs"
  have ok: "validate_conversion_binding (pa_counts pa) b ?act srcs = Inr ()"
    using assms(1,2) by (simp add: validate_kind_def Let_def)
  then obtain bm cm en bt ct where f: "cr_base_metric ?c = Some bm" "cr_conversion_metric ?c = Some cm" "cr_entity ?c = Some en"
    "cr_base_time ?c = Some bt" "cr_conversion_time ?c = Some ct"
    by (auto simp: validate_conversion_binding_def Let_def split: option.splits)
  let ?base = "\<lparr>cs_label = ''base_metric'', cs_metric = bm, cs_side = ''base'', cs_entity = cp_base en, cs_time = bt\<rparr>"
  let ?conv = "\<lparr>cs_label = ''conversion_metric'', cs_metric = cm, cs_side = ''conversion'',
    cs_entity = cp_conversion en, cs_time = ct\<rparr>"
  obtain tb where tb: "check_side (pa_counts pa) b ?act srcs ?base = Inr tb"
    using ok f by (auto simp: validate_conversion_binding_def rbind_Inr_iff)
  obtain me where me: "map_of ?act bm = Some me" "kind_of me \<in> {SINGLE, DISTINCT_COUNT}"
    using checked_side(1) [OF tb] by auto
  then have bound: "kind_of me \<in> set SOURCE_BOUND_KINDS" by (auto simp: SOURCE_BOUND_KINDS_def all_kinds_def)
  then obtain t where "tb = Some t" using sources [OF me(1)] checked_side(2) [OF tb] me(1) by auto
  then obtain tc where "check_side (pa_counts pa) b ?act srcs ?conv = Inr tc"
    using ok f tb by (auto simp: validate_conversion_binding_def rbind_Inr_iff)
  from checked_side(1) [OF this] obtain cme where cme: "map_of ?act cm = Some cme" "kind_of cme \<in> {SINGLE, DISTINCT_COUNT}"
    by auto
  then have "kind_of cme \<in> set SOURCE_BOUND_KINDS" by (auto simp: SOURCE_BOUND_KINDS_def all_kinds_def)
  moreover have "d \<in> {bm, cm}"
    using assms(2,3,5) f by (auto simp: deps_of_def dependency_names_def)
  ultimately show ?thesis using me cme bound by blast
qed

text \<open>The facts the guarantees rest on.\<close>

definition validated :: "(string \<Rightarrow> string list option) \<Rightarrow> parser \<Rightarrow> metric_binding list \<Rightarrow> sources \<Rightarrow> bool" where
  "validated dn pa bs srcs \<longleftrightarrow> distinct (active_names bs) \<and> (\<forall>b\<in>set bs. valid_binding dn b) \<and>
     (\<forall>b\<in>set bs. mb_status b = ACTIVE \<longrightarrow> validate_kind pa bs srcs b = Inr ())"

lemma validatedD:
  assumes "validated dn pa bs srcs" and "map_of (active_by_name bs) n = Some b"
  shows "valid_binding dn b" "validate_kind pa bs srcs b = Inr ()" "mb_metric b = n"
  using assms map_of_active [of bs n b] by (auto simp: validated_def)

lemma validated_below:
  assumes "validated dn pa bs srcs" and "below (active_by_name bs) n d"
  shows "map_of (active_by_name bs) d \<noteq> None"
    and "check_composite_cycle n (active_by_name bs) [n] = Inr ()"
proof -
  let ?act = "active_by_name bs"
  obtain b where b: "map_of ?act n = Some b" "d \<in> set (deps_of b)" using assms(2) by (auto simp: below_def)
  note v = validatedD [OF assms(1)]
  have src: "\<exists>s. cr_source (mb_canonical c) = Some s \<and> map_of srcs s \<noteq> None"
    if "map_of ?act m = Some c" "kind_of c \<in> set SOURCE_BOUND_KINDS" for m c
    using validated_source [OF v(2) [OF that(1)] that(2)] .
  have not_bound: "kind_of b \<notin> set SOURCE_BOUND_KINDS" using deps_source_bound [OF v(1) [OF b(1)]] b(2) by auto
  have "map_of ?act d \<noteq> None \<and> check_composite_cycle n ?act [n] = Inr ()"
  proof (cases "kind_of b = CONVERSION")
    case True
    have none: "cr_base (mb_canonical b) = None"
      using kind_fields_ok(1) validate_shape_parts v(1) [OF b(1)] True by (auto simp: valid_binding_def)
    have conv: "\<exists>c. map_of ?act d' = Some c \<and> kind_of c \<in> set SOURCE_BOUND_KINDS" if "d' \<in> set (deps_of b)" for d'
      by (rule validated_conversion [OF v(2) [OF b(1)] True that _ none]) (rule src)
    have leafs: "\<not> below ?act d' x" if "d' \<in> set (deps_of b)" for d' x
      using conv [OF that] deps_source_bound [OF v(1)] by (fastforce simp: below_def)
    have "check_composite_cycle d' ?act [n, d'] = Inr ()" if "d' \<in> set (deps_of b)" for d'
      using leafs [OF that] check_cycle_ok_iff by blast
    moreover have "d' \<noteq> n" if "d' \<in> set (deps_of b)" for d'
      using leafs [OF that, of d] assms(2) by blast
    ultimately have "check_composite_cycle n ?act [n] = Inr ()"
      using b(1) check_cycle_ok_iff [of n ?act "[n]"] by (auto simp: below_def)
    then show ?thesis using conv [OF b(2)] by auto
  next
    case False
    then have "kind_of b \<in> {RATIO, WEIGHTED_AVG, OFFSET, DERIVED}"
      using not_bound by (cases "kind_of b") (simp_all add: SOURCE_BOUND_KINDS_def all_kinds_def)
    from validated_composed [OF v(2) [OF b(1)] v(1) [OF b(1)] this b(2)] show ?thesis using v(3) [OF b(1)] by simp
  qed
  then show "map_of ?act d \<noteq> None" "check_composite_cycle n ?act [n] = Inr ()" by auto
qed

lemma below_active: "below act m d \<Longrightarrow> m \<in> fst ` set act"
  by (force simp: below_def dest!: map_of_SomeD)

lemma named_active:
  assumes "distinct (active_names bs)" and "n \<in> set (active_names bs)"
  obtains b where "named bs n = [b]" "map_of (active_by_name bs) (mb_metric b) = Some b"
proof -
  have "count_list (active_names bs) n = 1"
    using count_le_one [OF assms(1), of n] assms(2) by (metis count_list_0_iff le_antisym less_one not_le)
  then obtain b where b: "named bs n = [b]" using named_count [of bs n] by (auto simp: length_Suc_conv)
  then have "b \<in> set bs" "mb_status b = ACTIVE" using set_named [of b bs n] by auto
  then show ?thesis using that [OF b] map_of_active [OF assms(1)] by simp
qed

lemma active_named:
  assumes "distinct (active_names bs)" and "map_of (active_by_name bs) n = Some b"
  shows "named bs n = [b]"
proof -
  have b: "b \<in> set bs" "mb_status b = ACTIVE" "mb_metric b = n" using assms map_of_active by auto
  then have "b \<in> set (named bs n)" by (auto simp: named_def)
  moreover have "n \<in> set (active_names bs)" using b by (auto simp: active_names_def)
  from named_active [OF assms(1) this] obtain c where "named bs n = [c]" by metis
  ultimately show ?thesis by simp
qed

lemma validated_acyclic:
  assumes "validated dn pa bs srcs"
  shows "wf {(d, m). below (active_by_name bs) m d}"
proof -
  let ?act = "active_by_name bs"
  let ?R = "{(d, m). below ?act m d}"
  have "finite (SIGMA m:fst ` set ?act. {d. below ?act m d})"
  proof (rule finite_SigmaI)
    show "finite {d. below ?act m d}" for m by (cases "map_of ?act m") (simp_all add: below_def)
  qed simp
  moreover have "?R \<subseteq> prod.swap ` (SIGMA m:fst ` set ?act. {d. below ?act m d})" using below_active by fastforce
  ultimately have fin: "finite ?R" using finite_surj by blast
  have conv: "(n, n) \<in> ?R\<^sup>+ \<longleftrightarrow> (below ?act)\<^sup>+\<^sup>+ n n" for n
    using trancl_converse [of "{(m, d). below ?act m d}"] by (auto simp: converse_unfold tranclp_unfold)
  have "\<not> (below ?act)\<^sup>+\<^sup>+ m m" for m
  proof
    assume c: "(below ?act)\<^sup>+\<^sup>+ m m"
    then obtain d where "below ?act m d" by (auto dest: tranclpD)
    from validated_below(2) [OF assms this] c show False using checked_path by fastforce
  qed
  then show ?thesis by (intro finite_acyclic_wf [OF fin]) (auto simp: acyclic_def conv)
qed

lemma validated_resolvable:
  assumes v: "validated dn pa bs srcs" and "n \<in> set (active_names bs)"
  shows "resolvable (named bs) n"
proof -
  let ?act = "active_by_name bs"
  have dist: "distinct (active_names bs)" using v by (simp add: validated_def)
  have metric: "map_of ?act m = Some b \<Longrightarrow> resolvable (named bs) m" for m b
  proof (induction m arbitrary: b rule: wf_induct_rule [OF validated_acyclic [OF v]])
    case (1 m)
    have below: "below ?act m d" if "d \<in> set (deps_of b)" for d using that 1(2) by (auto simp: below_def)
    show ?case
      by (rule resolvableI [where look = "named bs" and n = m, OF active_named [OF dist 1(2)]]) (use 1(1) below validated_below(1) [OF v] in blast)
  qed
  obtain b where b: "named bs n = [b]" "map_of ?act (mb_metric b) = Some b" by (rule named_active [OF dist assms(2)])
  have below: "below ?act (mb_metric b) d" if "d \<in> set (deps_of b)" for d using that b(2) by (auto simp: below_def)
  show ?thesis by (rule resolvableI [where look = "named bs" and n = n, OF b(1)]) (use below validated_below(1) [OF v] metric in blast)
qed

lemma checked_contracts:
  assumes "validate_contracts pa pj = Inr ()" and "distinct (active_names (pj_bindings pj))"
    and "\<forall>b\<in>set (pj_bindings pj). valid_binding dn b"
  shows "validated dn pa (pj_bindings pj) (by_source_name (pj_sources pj))"
  using assms by (auto simp: validate_contracts_def validated_def Let_def rbind_unit_iff rfor_ok_iff validate_one_def)

lemma rfold_Inl: "rfold f xs acc = Inl e \<Longrightarrow> \<exists>x\<in>set xs. \<exists>acc'. f x acc' = Inl e"
  by (induction xs arbitrary: acc) (auto simp: rbind_Inl_iff)

lemma offset_axis_found:
  assumes "offset_axis cols b base td srcs s = Inr y"
  obtains a d src cs t where "find_dimension td srcs (Some s) (Some (build_alias_tree s srcs)) = Inr (Some (a, d))"
    "map_of srcs (source_of (build_alias_tree s srcs) a) = Some src" "axis cols d src = Inr (cs, t)" "t \<in> set TIME_TYPES"
proof -
  let ?tree = "build_alias_tree s srcs"
  obtain found where found: "find_dimension td srcs (Some s) (Some ?tree) = Inr found"
    using assms by (auto simp: offset_axis_def Let_def rbind_Inr_iff)
  then obtain a d where ad: "found = Some (a, d)" using assms by (cases found) (auto simp: offset_axis_def Let_def)
  then obtain src where src: "map_of srcs (source_of ?tree a) = Some src"
    using assms found by (cases "map_of srcs (source_of ?tree a)") (auto simp: offset_axis_def Let_def)
  then obtain cs t where "axis cols d src = Inr (cs, t)"
    using assms found ad by (cases "axis cols d src") (auto simp: offset_axis_def Let_def)
  then show ?thesis
    using that [of a d src cs t] assms found ad src by (auto simp: offset_axis_def Let_def split: if_splits)
qed

lemma tenancy_checked:
  assumes "validate_tenancy_policy (Some p) srcs = Inr ()"
  shows "r \<in> set (tp_scoped p) \<Longrightarrow> sc_column r \<in> set (source_columns srcs (sc_source r))"
    and "tp_undeclared p = US_DENY \<Longrightarrow> s \<in> fst ` set srcs \<Longrightarrow> s \<in> set (map sc_source (tp_scoped p) @ tp_shared p)"
proof -
  let ?check = "\<lambda>s. checks [(map_of srcs (sc_source s) = None, ce [sc_source s]),
    (sc_column s \<notin> set (source_columns srcs (sc_source s)), ce [sc_column s, sc_source s])]"
  let ?un = "sorted_set (filter (\<lambda>s. s \<notin> set (map sc_source (tp_scoped p) @ tp_shared p)) (map fst srcs))"
  have ok: "rfor ?check (tp_scoped p) = Inr ()" "?un = [] \<or> tp_undeclared p \<noteq> US_DENY"
    using assms unfolding validate_tenancy_policy_def by (auto simp: rbind_unit_iff Let_def split: if_splits)
  show "sc_column r \<in> set (source_columns srcs (sc_source r))" if "r \<in> set (tp_scoped p)"
    using ok(1) that by (auto simp: rfor_ok_iff checks_ok_iff simp del: checks.simps)
  show "s \<in> set (map sc_source (tp_scoped p) @ tp_shared p)" if "tp_undeclared p = US_DENY" "s \<in> fst ` set srcs"
  proof (rule ccontr)
    assume "s \<notin> set (map sc_source (tp_scoped p) @ tp_shared p)"
    then have "s \<in> set ?un" using that(2) by simp
    moreover have "?un = []" using ok(2) that(1) by blast
    ultimately show False by (metis list.distinct(1) list.set_cases)
  qed
qed

lemma scope_missing_undeclared:
  assumes "scope_alias r tree tenants srcs a acc = Inl (CanonicError TenantScopeMissing args [])"
  shows "\<exists>x. tenancy_for r (source_of tree a) = Undeclared x"
proof (cases "tenancy_for r (source_of tree a)")
  case (ScopeRule s column)
  have "tenant_literals tenants ty place \<noteq> Inl (CanonicError TenantScopeMissing args [])" for ty place
    by (auto simp: tenant_literals_def rbind_Inl_iff match_tenant_def dest!: rmap_Inl split: if_splits tenant_value.splits option.splits)
  then show ?thesis
    using assms ScopeRule by (auto simp: scope_alias_def Let_def rbind_Inl_iff split: if_splits)
qed (use assms in \<open>auto simp: scope_alias_def Let_def\<close>)

section \<open>Theorems\<close>

text \<open>
  C7: in a project that loads and passes validation, every name of an active metric (its own or an
  alias) resolves to a binding, and every leaf of the resolved metric reads a source the project declares.
\<close>

theorem validated_metrics_resolve:
  assumes "load_metric_bindings loaded = Inr (pj_bindings pj)" and "\<forall>b\<in>set (pj_bindings pj). valid_binding dn b"
    and "validate_contracts pa pj = Inr ()" and "n \<in> set (active_names (pj_bindings pj))"
  shows "\<exists>r. resolve_metric (mk_resolver (pj_bindings pj) gs fin asserts ten rol) n = Inr (RBinding r) \<and>
    (\<forall>l\<in>set (leaves r). \<exists>s. rb_source l = Some s \<and> s \<in> ss_name ` set (pj_sources pj))"
proof -
  let ?bs = "pj_bindings pj" and ?srcs = "by_source_name (pj_sources pj)"
  let ?idx = "build_name_index ?bs"
  have "check_loaded loaded [] = Inr ()" "?bs = map snd loaded"
    using assms(1) by (auto simp: load_metric_bindings_def rbind_Inr_iff)
  then have dist: "distinct (active_names ?bs)" by (simp add: check_loaded_ok)
  have v: "validated dn pa ?bs ?srcs" using checked_contracts assms(2,3) dist by blast
  have idx: "valid_index dn ?idx" using assms(2) by (rule valid_index_build)
  have look: "look_in ?idx = named ?bs" by (rule ext) (rule look_in_build)
  have m: "resolve_metric (mk_resolver ?bs gs fin asserts ten rol) n = resolve_component ?idx {} n"
    by (simp add: resolve_metric_component mk_resolver_def)
  have "is_binding (resolve_component ?idx {} n)"
    using validated_resolvable [OF v assms(4)] explained_iff [OF idx] by (simp add: look)
  then obtain r where r: "resolve_component ?idx {} n = Inr (RBinding r)" by (auto simp: is_binding_iff)
  have "\<exists>s. rb_source l = Some s \<and> s \<in> ss_name ` set (pj_sources pj)" if l: "l \<in> set (leaves r)" for l
  proof -
    obtain k where k: "rb_kind l \<in> set SOURCE_BOUND_KINDS" "rb_source l = cr_source (mb_canonical (rb_binding l))"
      "named ?bs k = [rb_binding l]" "rb_kind l = kind_of (rb_binding l)"
      using resolved_leaves [OF idx r l] by (auto simp: leaf_of_def look)
    have b: "rb_binding l \<in> set ?bs" "mb_status (rb_binding l) = ACTIVE" using set_named [of "rb_binding l" ?bs k] k(3) by auto
    have "kind_of (rb_binding l) \<in> set SOURCE_BOUND_KINDS" using k by simp
    then obtain s where "cr_source (mb_canonical (rb_binding l)) = Some s" "map_of ?srcs s \<noteq> None"
      using validated_source v b by (metis validated_def)
    then show ?thesis using k(2) by (auto simp: by_source_name_def map_of_dict_of dest!: map_of_SomeD)
  qed
  then show ?thesis using m r by auto
qed

text \<open>
  C20: the cycle check accepts a metric exactly when no metric in reach of it, itself included, is
  computed from itself, however long the way round.
\<close>

theorem cycle_check_is_exact:
  "check_composite_cycle m act [m] = Inr () \<longleftrightarrow>
     (\<nexists>n. (below act)\<^sup>*\<^sup>* m n \<and> (below act)\<^sup>+\<^sup>+ n n)"
  using checked_acyclic [of m act "[m]"] acyclic_checked [of act m "[m]"] by auto


text \<open>
  C23: a validated offset can be applied to every source its base reads. The compiler's own lookup finds
  the time dimension there, it is backed by one column, and that column is a date or a timestamp.
\<close>

theorem validated_offset_applies:
  assumes "validate_offset_binding cols b act srcs = Inr ()" and "map_of act (mb_metric b) = Some b"
    and "kind_of b = OFFSET" and "cr_base (mb_canonical b) = Some base" and "cr_time_dimension (mb_canonical b) = Some td"
    and "map_of act base = Some c" and "reads act c s"
  shows "\<exists>a d src col ty. find_dimension td srcs (Some s) (Some (build_alias_tree s srcs)) = Inr (Some (a, d)) \<and>
    map_of srcs (source_of (build_alias_tree s srcs) a) = Some src \<and>
    scope_column_type (Some src) col = Some ty \<and> ty \<in> {DATE_T, TIMESTAMP_T} \<and>
    resolve_shifts cols [\<lparr>ts_dimension = td, ts_offset = off, ts_prefilters = ps\<rparr>] s srcs (build_alias_tree s srcs) =
      Inr [((a, col), ([off], ty = DATE_T))]"
proof -
  let ?tree = "build_alias_tree s srcs"
  obtain ss own where ss: "leaf_sources (DEPTH act) act c = Inr ss"
    and own: "rmap (offset_axis cols b base td srcs) (sorted_set ss) = Inr own"
    and cyc: "check_composite_cycle (mb_metric b) act [mb_metric b] = Inr ()"
    using assms(1,4-6) by (auto simp: validate_offset_binding_def rbind_Inr_iff required_active)
  have "below act (mb_metric b) base"
    using assms(2-4) by (auto simp: below_def deps_of_def dependency_names_def)
  then have "check_composite_cycle base act ([mb_metric b] @ [base]) = Inr ()" using cyc check_cycle_ok_iff by blast
  from leaf_sources_spec [OF this assms(6) _ card_active] have "set ss = {s. reads act c s}" using ss by simp
  then have "s \<in> set (sorted_set ss)" using assms(7) by simp
  from rmap_value [OF own this] obtain y where "offset_axis cols b base td srcs s = Inr y" by blast
  then obtain a d src cs t where f: "find_dimension td srcs (Some s) (Some ?tree) = Inr (Some (a, d))"
    "map_of srcs (source_of ?tree a) = Some src" "axis cols d src = Inr (cs, t)" "t \<in> set TIME_TYPES"
    by (rule offset_axis_found)
  then obtain col ty where col: "cs = [col]" "scope_column_type (Some src) col = Some ty" "ty \<in> {DATE_T, TIMESTAMP_T}"
    "backing_columns cols d = Inr [col]"
    by (auto simp: axis_def map_sum_Inr_iff length_Suc_conv split: if_splits)
  have "resolve_shifts cols [\<lparr>ts_dimension = td, ts_offset = off, ts_prefilters = ps\<rparr>] s srcs ?tree =
      Inr [((a, col), ([off], ty = DATE_T))]"
    using f col by (auto simp: resolve_shifts_def resolve_shift_def)
  with f(1,2) col show ?thesis by blast
qed

text \<open>
  C24: a validated tenancy policy scopes by a column its source has, and under \<^verbatim>\<open>undeclared_source: deny\<close> no
  query over the project's sources is refused for want of a scope.
\<close>

theorem validated_tenancy_covers_sources:
  assumes "validate_tenancy_policy (Some p) srcs = Inr ()" and "rs = mk_resolver bs gs fin asserts (Some p) rol"
    and "\<forall>a\<in>set (owner # map je_alias edges). source_of tree a \<in> fst ` set srcs"
  shows "(\<forall>s c. tenancy_for rs s = ScopeRule s c \<longrightarrow> c \<in> set (source_columns srcs s)) \<and>
    (tp_undeclared p = US_DENY \<longrightarrow>
      tenant_conditions rs owner edges tree tenants pol srcs \<noteq> Inl (CanonicError TenantScopeMissing args []))"
proof -
  note scoped = tenancy_checked(1) [OF assms(1)] and covered = tenancy_checked(2) [OF assms(1)]
  have declared: "tenancy_for rs s \<noteq> Undeclared x" if "s \<in> fst ` set srcs" "tp_undeclared p = US_DENY" for s x
    using covered [OF that(2,1)] assms(2)
    by (auto simp: tenancy_for_def mk_resolver_def map_of_dict_of map_of_eq_None_iff image_iff split: option.splits)
  have "tenancy_for rs s = ScopeRule s c \<Longrightarrow> c \<in> set (source_columns srcs s)" for s c
    using scoped assms(2)
    by (auto simp: tenancy_for_def mk_resolver_def map_of_dict_of dest!: map_of_SomeD split: option.splits if_splits)
  moreover have "tenant_conditions rs owner edges tree tenants pol srcs \<noteq> Inl (CanonicError TenantScopeMissing args [])"
    if d: "tp_undeclared p = US_DENY"
  proof
    assume "tenant_conditions rs owner edges tree tenants pol srcs = Inl (CanonicError TenantScopeMissing args [])"
    then have "rfold (scope_alias rs tree tenants srcs) (owner # map je_alias edges) no_scoping =
        Inl (CanonicError TenantScopeMissing args [])"
      unfolding tenant_conditions_def by (metis Inl_Inr_False)
    from rfold_Inl [OF this] obtain a acc where a: "a \<in> set (owner # map je_alias edges)"
      "scope_alias rs tree tenants srcs a acc = Inl (CanonicError TenantScopeMissing args [])" by blast
    then obtain x where "tenancy_for rs (source_of tree a) = Undeclared x" using scope_missing_undeclared by blast
    then show False using declared assms(3) a(1) d by blast
  qed
  ultimately show ?thesis by blast
qed

section \<open>Witnesses\<close>

definition order_source :: semantic_source where
  "order_source = sample_source
     \<lparr>ss_measures := [\<lparr>me_name = ''revenue'', me_expr = ''sum(id)'', me_additivity = ADDITIVE, me_semi_additive_over = []\<rparr>,
        \<lparr>me_name = ''count'', me_expr = ''count(*)'', me_additivity = ADDITIVE, me_semi_additive_over = []\<rparr>]\<rparr>"

definition last_year :: metric_binding where
  "last_year = plain_binding ''aov_last_year'' [] (plain_ref\<lparr>cr_kind := OFFSET, cr_base := Some ''aov'',
     cr_time_dimension := Some ''order_day'', cr_offset := Some (Duration 1 YEAR)\<rparr>)"

definition sample_policy :: tenancy_policy where
  "sample_policy = shop_tenancy\<lparr>tp_scoped := [\<lparr>sc_source = ''orders'', sc_column = ''id''\<rparr>]\<rparr>"

definition sample_project :: project where
  "sample_project = \<lparr>pj_sources = [order_source], pj_tenancy = Some sample_policy, pj_roles = None,
     pj_bindings = sample_bindings @ [last_year], pj_guardrails = [], pj_finality = [], pj_assertions = []\<rparr>"

definition sample_parser :: parser where
  "sample_parser = \<lparr>pa_cols = (\<lambda>_. None), pa_counts = (\<lambda>_. True), pa_find_agg = (\<lambda>_. Some Sum), pa_backend = shop_backend,
     pa_known_zone = (\<lambda>_. True)\<rparr>"

abbreviation sample_active :: active_map where
  "sample_active \<equiv> active_by_name (pj_bindings sample_project)"

abbreviation sample_srcs :: sources where
  "sample_srcs \<equiv> by_source_name (pj_sources sample_project)"

lemma sample_project_valid: "\<forall>b\<in>set (pj_bindings sample_project). valid_binding (\<lambda>_. None) b"
proof -
  have "map (\<lambda>b. validate_shape (\<lambda>_. None) (mb_canonical b)) (pj_bindings sample_project) = [Inr (), Inr (), Inr (), Inr ()]"
    by code_simp
  then show ?thesis by (simp add: sample_project_def sample_bindings_def valid_binding_def)
qed

lemma validated_metrics_resolve_witness:
  "validate_contracts sample_parser sample_project = Inr () \<and>
   (\<exists>r. resolve_metric (mk_resolver (pj_bindings sample_project) [] [] [] None None) ''aov_last_year'' = Inr (RBinding r))"
proof -
  have l: "load_metric_bindings (map (\<lambda>b. (mb_metric b, b)) (pj_bindings sample_project)) = Inr (pj_bindings sample_project)"
    by code_simp
  have v: "validate_contracts sample_parser sample_project = Inr ()" by code_simp
  have n: "''aov_last_year'' \<in> set (active_names (pj_bindings sample_project))" by code_simp
  show ?thesis using validated_metrics_resolve [OF l sample_project_valid v n] v by blast
qed


lemma validated_offset_applies_witness:
  "validate_offset_binding (\<lambda>_. None) last_year sample_active sample_srcs = Inr () \<and>
   (\<exists>sh. resolve_shifts (\<lambda>_. None) [\<lparr>ts_dimension = ''order_day'', ts_offset = Duration 1 YEAR, ts_prefilters = []\<rparr>] ''orders'' sample_srcs
     (build_alias_tree ''orders'' sample_srcs) = Inr sh)"
proof -
  have v: "validate_offset_binding (\<lambda>_. None) last_year sample_active sample_srcs = Inr ()" by code_simp
  have m: "map_of sample_active (mb_metric last_year) = Some last_year" by code_simp
  have c: "map_of sample_active ''aov'' = Some (sample_bindings ! 0)" by code_simp
  have r: "reads sample_active (sample_bindings ! 0) ''orders''"
  proof (rule component [where d = "''revenue''" and c = "sample_bindings ! 1"])
    show "reads sample_active (sample_bindings ! 1) ''orders''" by (rule own_source) code_simp+
  qed code_simp+
  have f: "kind_of last_year = OFFSET" "cr_base (mb_canonical last_year) = Some ''aov''"
    "cr_time_dimension (mb_canonical last_year) = Some ''order_day''"
    by (simp_all add: last_year_def plain_binding_def)
  show ?thesis using validated_offset_applies [OF v m f c r, of "Duration 1 YEAR" "[]"] v by blast
qed

lemma validated_tenancy_covers_sources_witness:
  "validate_tenancy_policy (Some sample_policy) sample_srcs = Inr () \<and>
   tenant_conditions (mk_resolver [] [] [] [] (Some sample_policy) None) ''orders'' [] [] [TInt 1] (open_policy False) sample_srcs
     \<noteq> Inl (CanonicError TenantScopeMissing [''orders''] [])"
proof -
  have v: "validate_tenancy_policy (Some sample_policy) sample_srcs = Inr ()" by code_simp
  have "\<forall>a\<in>set (''orders'' # map je_alias []). source_of [] a \<in> fst ` set sample_srcs" by code_simp
  from validated_tenancy_covers_sources [OF v refl this] v show ?thesis
    by (simp add: sample_policy_def shop_tenancy_def)
qed

end
