(* ===== verification/Statements.thy ===== *)
theory Statements
  imports Scoping
begin

text \<open>
  The SELECT statements a leaf is emitted as: \<^verbatim>\<open>_from_and_joins\<close>, \<^verbatim>\<open>_build_simple\<close>, \<^verbatim>\<open>_build_dedup_inner\<close>,
  \<^verbatim>\<open>_build_deduped\<close> and \<^verbatim>\<open>_build_finality_union\<close> of \<^verbatim>\<open>src/canonic/compiler/_helpers.py\<close>. A statement keeps its
  clauses as lists of expressions; \<open>stmt\<close> is a SELECT, a union a list of them. The planned joins of a leaf are
  LEFT joins of tables; joins of other kinds and of subqueries stand in the FROM clause. The shift context the
  code keeps in a context variable is the argument \<open>sh\<close>. Theorems say which tables a statement reads and
  which expressions stand in it, and two lemmas show where the finality union loses track of a join role.
\<close>

section \<open>Statements\<close>

datatype join_kind = LEFT_JOIN | CROSS_JOIN | INNER_JOIN

datatype stmt = Stmt (projections: "(sql \<times> string) list") (distinct_on: "sql list option") (from_item: from_clause)
    (joined: "(string \<times> string \<times> sql) list") (wheres: "sql list") (grouped: "sql list")
  and from_clause = FromTable string string | FromStmt stmt string | FromJoin join_kind from_clause from_clause "sql option" | NoFrom

fun from_aliases :: "from_clause \<Rightarrow> string list" where
  "from_aliases (FromTable t a) = [a]"
| "from_aliases (FromStmt s a) = [a]"
| "from_aliases (FromJoin k l r on) = from_aliases l @ from_aliases r"
| "from_aliases NoFrom = []"

definition from_alias :: "from_clause \<Rightarrow> string" where
  "from_alias f = (case from_aliases f of [] \<Rightarrow> [] | a # _ \<Rightarrow> a)"

lemma from_alias_simps [simp]: "from_alias (FromTable t a) = a" "from_alias (FromStmt s a) = a"
  by (simp_all add: from_alias_def)

text \<open>The aliases a statement's own clauses may name.\<close>

definition table_aliases :: "stmt \<Rightarrow> string list" where
  "table_aliases s = from_aliases (from_item s) @ map (\<lambda>(t, a, on). a) (joined s)"

definition clause_exprs :: "stmt \<Rightarrow> sql list" where
  "clause_exprs s = map fst (projections s) @ (case distinct_on s of None \<Rightarrow> [] | Some es \<Rightarrow> es) @ wheres s @ grouped s"

section \<open>Emission\<close>

definition join_clause :: "backend \<Rightarrow> sources \<Rightarrow> join_edge \<Rightarrow> (string \<times> string \<times> sql) res" where
  "join_clause bk srcs e =
     (case map_of srcs (jn_to (je_join e)) of
        None \<Rightarrow> Inl KeyError
      | Some target \<Rightarrow> rbind (parse_sql bk (je_on_sql e)) (\<lambda>on. Inr (ss_table target, je_alias e, on)))"

definition from_and_joins :: "backend \<Rightarrow> string \<Rightarrow> join_edge list \<Rightarrow> sources \<Rightarrow>
    (from_clause \<times> (string \<times> string \<times> sql) list) res" where
  "from_and_joins bk owner edges srcs =
     (case map_of srcs owner of
        None \<Rightarrow> Inl KeyError
      | Some src \<Rightarrow> rbind (rmap (join_clause bk srcs) edges) (\<lambda>js. Inr (FromTable (ss_table src) owner, js)))"

definition masked_dimension :: "(string \<Rightarrow> string list option) \<Rightarrow> backend \<Rightarrow> shifts \<Rightarrow> dim_mask \<Rightarrow> string \<times> dimension \<Rightarrow> sql res" where
  "masked_dimension cols bk sh dm ad =
     rbind (dim_mask_strategy cols dm (fst ad) (snd ad)) (\<lambda>s. dimension_expr bk sh (fst ad) (snd ad) s)"

text \<open>\<^verbatim>\<open>measure_aliases or [m.measure.name for m in metrics]\<close>, read by index.\<close>

definition output_name :: "string list \<Rightarrow> nat \<Rightarrow> resolved_metric \<Rightarrow> string res" where
  "output_name as i m =
     (if as = [] then Inr (me_name (rm_measure m)) else if i < length as then Inr (as ! i) else Inl IndexError)"

definition named_measures :: "backend \<Rightarrow> (resolved_metric \<Rightarrow> string) \<Rightarrow> resolved_metric list \<Rightarrow> string list \<Rightarrow> (sql \<times> string) list res" where
  "named_measures bk table metrics as =
     rmap (\<lambda>(i, m). rbind (measure_expr bk (table m) (rm_measure m)) (\<lambda>e. map_sum id (Pair e) (output_name as i m)))
       (enumerate_list metrics)"

definition build_simple :: "(string \<Rightarrow> string list option) \<Rightarrow> backend \<Rightarrow> shifts \<Rightarrow> string \<Rightarrow> resolved_metric list \<Rightarrow>
    (string \<times> dimension) list \<Rightarrow> sql list \<Rightarrow> join_edge list \<Rightarrow> sources \<Rightarrow> string list \<Rightarrow> dim_mask \<Rightarrow> stmt res" where
  "build_simple cols bk sh owner metrics dims conds edges srcs as dm =
     rbind (rmap (masked_dimension cols bk sh dm) dims) (\<lambda>des.
     rbind (named_measures bk rm_source metrics as) (\<lambda>mes.
     rbind (from_and_joins bk owner edges srcs) (\<lambda>(f, js).
       Inr (Stmt (zip des (dimension_output_names dims) @ mes) None f js conds des))))"

definition DEDUP_ALIAS :: string where
  "DEDUP_ALIAS = ''_base''"

text \<open>The raw input columns of the measures, each from the first measure that reads it, in name order.\<close>

definition measure_inputs :: "backend \<Rightarrow> resolved_metric list \<Rightarrow> (string, sql) dict res" where
  "measure_inputs bk metrics =
     rbind (rmap (\<lambda>m. map_sum id (map (\<lambda>c. (c, Col [] (rm_source m) c))) (input_columns bk (rm_measure m))) metrics) (\<lambda>iss.
       Inr (map (\<lambda>c. (c, the (map_of (concat iss) c))) (sorted_set (map fst (concat iss)))))"

definition build_dedup_inner :: "(string \<Rightarrow> string list option) \<Rightarrow> backend \<Rightarrow> shifts \<Rightarrow> string \<Rightarrow> (string \<times> dimension) list \<Rightarrow>
    resolved_metric list \<Rightarrow> sql list \<Rightarrow> join_edge list \<Rightarrow> sources \<Rightarrow> dim_mask \<Rightarrow> stmt res" where
  "build_dedup_inner cols bk sh owner dims metrics conds edges srcs dm =
     (case map_of srcs owner of
        None \<Rightarrow> Inl KeyError
      | Some src \<Rightarrow>
          rbind (rmap (masked_dimension cols bk sh dm) dims) (\<lambda>des.
          rbind (measure_inputs bk metrics) (\<lambda>inputs.
          rbind (from_and_joins bk owner edges srcs) (\<lambda>(f, js).
            Inr (Stmt (zip des (dimension_output_names dims) @ map (\<lambda>(c, e). (e, c)) inputs)
              (Some (map (Col [] owner) (ss_grain src))) f js conds [])))))"

definition build_deduped :: "(string \<Rightarrow> string list option) \<Rightarrow> backend \<Rightarrow> shifts \<Rightarrow> string \<Rightarrow> resolved_metric list \<Rightarrow>
    (string \<times> dimension) list \<Rightarrow> sql list \<Rightarrow> join_edge list \<Rightarrow> sources \<Rightarrow> string list \<Rightarrow> dim_mask \<Rightarrow> stmt res" where
  "build_deduped cols bk sh owner metrics dims conds edges srcs as dm =
     rbind (build_dedup_inner cols bk sh owner dims metrics conds edges srcs dm) (\<lambda>inner.
     rbind (named_measures bk (\<lambda>_. DEDUP_ALIAS) metrics as) (\<lambda>mes.
       (let dcols = map (Col [] DEDUP_ALIAS) (dimension_output_names dims)
        in Inr (Stmt (zip dcols (dimension_output_names dims) @ mes) None (FromStmt inner DEDUP_ALIAS) [] [] dcols))))"

section \<open>The finality union\<close>

definition FANOUT :: "relationship list" where
  "FANOUT = [ONE_TO_MANY, MANY_TO_MANY]"

definition fans_out :: "join_edge list \<Rightarrow> bool" where
  "fans_out edges \<longleftrightarrow> list_ex (\<lambda>e. jn_relationship (je_join e) \<in> set FANOUT) edges"

text \<open>\<^verbatim>\<open>_resolve_shifts\<close> sets the context only when there are shifts.\<close>

definition leaf_shifts :: "(string \<Rightarrow> string list option) \<Rightarrow> time_shift list \<Rightarrow> string \<Rightarrow> sources \<Rightarrow> (string, string) dict \<Rightarrow> shifts res" where
  "leaf_shifts cols tss owner srcs tree = (if tss = [] then Inr [] else resolve_shifts cols tss owner srcs tree)"

definition branch_metric :: "semantic_source \<Rightarrow> string \<Rightarrow> resolved_metric \<Rightarrow> resolved_metric res" where
  "branch_metric src name m =
     (case find_measure src (me_name (rm_measure m)) of
        None \<Rightarrow> Inl (CanonicError Unresolved [name, me_name (rm_measure m), rm_name m] [])
      | Some x \<Rightarrow> Inr \<lparr>rm_name = rm_name m, rm_source = name, rm_measure = x\<rparr>)"

definition branch_dimension :: "sources \<Rightarrow> string \<Rightarrow> (string, string) dict \<Rightarrow> string \<times> dimension \<Rightarrow> (string \<times> dimension) res" where
  "branch_dimension srcs name tree ad =
     rbind (find_dimension (dim_name (snd ad)) srcs (Some name) (Some tree)) (\<lambda>found.
       case found of None \<Rightarrow> Inl (CanonicError Unreachable [name, dim_name (snd ad)] []) | Some x \<Rightarrow> Inr x)"

text \<open>The joins a branch needs: the sources its dimensions and the shared conditions stand on.\<close>

definition needed_targets :: "string \<Rightarrow> (string, string) dict \<Rightarrow> (string \<times> dimension) list \<Rightarrow> sql list \<Rightarrow> string list" where
  "needed_targets name tree dims conds =
     (let from_aliases = (\<lambda>as. concat (map (\<lambda>a. if a = name then [] else opt_list (map_of tree a)) as))
      in from_aliases (map fst dims) @ from_aliases (filter (\<lambda>t. t \<noteq> []) (map fst (concat (map columns conds)))))"

definition gate_column :: "backend \<Rightarrow> string \<Rightarrow> string \<Rightarrow> (string \<times> dimension) list \<Rightarrow> sql res" where
  "gate_column bk name time_dim dims =
     (case find (\<lambda>ad. dim_name (snd ad) = time_dim) dims of
        None \<Rightarrow> Inl (CanonicError Unreachable [time_dim, name] [])
      | Some ad \<Rightarrow> dimension_base_expr bk [] name (snd ad))"

definition watermark_literal :: "string \<Rightarrow> sql" where
  "watermark_literal stamp = Op ''CAST TIMESTAMPTZ'' [Op stamp []]"

definition gate_for :: "realization \<Rightarrow> sql \<Rightarrow> string \<Rightarrow> sql \<times> sql" where
  "gate_for r col stamp =
     (if rz_role r = ''final'' then (Op ''LTE'' [col, watermark_literal stamp], Op ''TRUE'' [])
      else (Op ''GT'' [col, watermark_literal stamp], Op ''FALSE'' []))"

definition check_branch_fanout :: "string \<Rightarrow> join_edge list \<Rightarrow> resolved_metric list \<Rightarrow> unit res" where
  "check_branch_fanout name edges metrics =
     (case filter (\<lambda>m. me_additivity (rm_measure m) \<noteq> ADDITIVE) metrics of
        [] \<Rightarrow> Inr ()
      | bad # _ \<Rightarrow> if fans_out edges then Inl (CanonicError FanoutUnsafe [rm_source bad, me_name (rm_measure bad), name] []) else Inr ())"

definition emit_branch :: "(string \<Rightarrow> string list option) \<Rightarrow> backend \<Rightarrow> shifts \<Rightarrow> string \<Rightarrow> resolved_metric list \<Rightarrow>
    (string \<times> dimension) list \<Rightarrow> string list \<Rightarrow> sql list \<Rightarrow> join_edge list \<Rightarrow> sources \<Rightarrow> string list \<Rightarrow> dim_mask \<Rightarrow> sql \<Rightarrow> stmt res" where
  "emit_branch cols bk sh name metrics dims dim_names conds edges srcs as dm flag =
     (if fans_out edges then
        rbind (build_dedup_inner cols bk sh name dims metrics conds edges srcs dm) (\<lambda>inner.
        rbind (named_measures bk (\<lambda>_. DEDUP_ALIAS) metrics as) (\<lambda>mes.
          (let dcols = map (Col [] DEDUP_ALIAS) dim_names
           in Inr (Stmt (zip dcols dim_names @ mes @ [(flag, ''is_final'')]) None (FromStmt inner DEDUP_ALIAS) [] [] dcols))))
      else
        rbind (rmap (masked_dimension cols bk sh dm) dims) (\<lambda>des.
        rbind (named_measures bk rm_source metrics as) (\<lambda>mes.
        rbind (from_and_joins bk name edges srcs) (\<lambda>(f, js).
          Inr (Stmt (zip des dim_names @ mes @ [(flag, ''is_final'')]) None f js conds des)))))"

record union_args =
  ua_metrics :: "resolved_metric list"
  ua_dimensions :: "(string \<times> dimension) list"
  ua_conditions :: "sql list"
  ua_watermark :: string
  ua_time_dim :: string
  ua_owner :: string
  ua_names :: "string list"
  ua_masking :: "masking_rule list"
  ua_shifts :: "time_shift list"

definition build_branch :: "(string \<Rightarrow> string list option) \<Rightarrow> backend \<Rightarrow> ((string \<Rightarrow> string option) \<Rightarrow> string \<Rightarrow> string) \<Rightarrow> sources \<Rightarrow>
    union_args \<Rightarrow> realization \<Rightarrow> stmt res" where
  "build_branch cols bk mt srcs ua r =
     (let name = rz_source r
      in case map_of srcs name of
           None \<Rightarrow> Inl (CanonicError Unresolved [name] [])
         | Some src \<Rightarrow>
             rbind (rmap (branch_metric src name) (ua_metrics ua)) (\<lambda>metrics.
             let tree = build_alias_tree name srcs; dm = resolve_dim_mask tree (ua_masking ua)
             in rbind (leaf_shifts cols (ua_shifts ua) name srcs tree) (\<lambda>sh.
                rbind (rmap (branch_dimension srcs name tree) (ua_dimensions ua)) (\<lambda>dims.
                let targets = needed_targets name tree dims (ua_conditions ua)
                in rbind (if targets = [] then Inr [] else plan_joins mt name targets srcs None) (\<lambda>edges.
                   rbind (gate_column bk name (ua_time_dim ua) dims) (\<lambda>col.
                   let (gate, flag) = gate_for r col (ua_watermark ua);
                       conds = map (\<lambda>c. requalify_source c (ua_owner ua) name) (ua_conditions ua) @ [gate]
                   in rbind (check_branch_fanout name edges metrics) (\<lambda>_.
                        emit_branch cols bk sh name metrics dims (dimension_output_names (ua_dimensions ua)) conds edges srcs
                          (ua_names ua) dm flag)))))))"

definition build_finality_union :: "(string \<Rightarrow> string list option) \<Rightarrow> backend \<Rightarrow> ((string \<Rightarrow> string option) \<Rightarrow> string \<Rightarrow> string) \<Rightarrow>
    sources \<Rightarrow> finality_rule \<Rightarrow> union_args \<Rightarrow> stmt list res" where
  "build_finality_union cols bk mt srcs rule ua =
     rbind (rmap (build_branch cols bk mt srcs ua) (fr_realizations rule)) (\<lambda>branches.
       if branches = [] then Inl (CanonicError Unreachable [] []) else Inr branches)"

section \<open>What stands in a statement\<close>

text \<open>Two facts about the SQL adapter: date arithmetic and JSON access read no columns but their argument's.\<close>

definition adapter_reads_argument :: "backend \<Rightarrow> bool" where
  "adapter_reads_argument bk \<longleftrightarrow>
     (\<forall>e off is_date. set (columns (bk_date_add bk e off is_date)) \<subseteq> set (columns e)) \<and>
     (\<forall>e path ty. set (columns (bk_json_value bk e path ty)) \<subseteq> set (columns e))"

text \<open>An authored expression that names its columns bare.\<close>

definition bare :: "backend \<Rightarrow> string \<Rightarrow> bool" where
  "bare bk text \<longleftrightarrow> (case bk_parse bk text of None \<Rightarrow> True | Some e \<Rightarrow> fst ` set (columns e) \<subseteq> {[]})"

definition bare_dimension :: "backend \<Rightarrow> dimension \<Rightarrow> bool" where
  "bare_dimension bk d \<longleftrightarrow> (case dim_expr d of None \<Rightarrow> True | Some text \<Rightarrow> bare bk text)"

abbreviation aliases_in :: "sql \<Rightarrow> string set" where
  "aliases_in e \<equiv> fst ` set (columns e)"

lemma qualify_to_columns: "set (columns (qualify_to e a)) \<subseteq> (\<lambda>(t, n). (if t = [] then a else t, n)) ` set (columns e)"
  unfolding qualify_to_def
proof (induction e)
  case (Op f es)
  then show ?case by (simp add: image_UN) blast
qed simp

lemma qualify_to_aliases: "aliases_in (qualify_to e a) \<subseteq> insert a (aliases_in e - {[]})"
  using qualify_to_columns [of e a] by (fastforce split: if_splits)

lemma parse_bare: "parse_sql bk text = Inr e \<Longrightarrow> bare bk text \<Longrightarrow> aliases_in e \<subseteq> {[]}"
  by (auto simp: parse_sql_def bare_def split: option.splits)

lemma measure_expr_aliases:
  "measure_expr bk a me = Inr e \<Longrightarrow> bare bk (me_expr me) \<Longrightarrow> aliases_in e \<subseteq> {a}"
  using qualify_to_aliases parse_bare by (fastforce simp: measure_expr_def rbind_Inr_iff)

lemma shift_aliases: "adapter_reads_argument bk \<Longrightarrow> aliases_in (shift bk sh e) \<subseteq> aliases_in e"
  using shift_sub [of bk sh e] by (auto simp: adapter_reads_argument_def)

lemma base_expr_aliases:
  assumes "dimension_base_expr bk sh a d = Inr e" and "adapter_reads_argument bk" and "bare_dimension bk d"
  shows "aliases_in e \<subseteq> {a}"
proof (cases "dim_expr d")
  case (Some ex)
  then obtain p where p: "parse_sql bk ex = Inr p" "e = shift bk sh (qualify_to p a)"
    using assms(1) by (auto simp: dimension_base_expr_def rbind_Inr_iff)
  have "aliases_in p \<subseteq> {[]}" using parse_bare p(1) assms(3) Some by (auto simp: bare_dimension_def)
  then have "aliases_in (qualify_to p a) \<subseteq> {a}" using qualify_to_aliases [of p a] by blast
  then show ?thesis using shift_aliases [OF assms(2)] p(2) by blast
next
  case None
  then obtain c where c: "dim_column d = Some c" using assms(1) by (auto simp: dimension_base_expr_def split: option.splits)
  show ?thesis
  proof (cases "dim_json_path d")
    case None
    then have "e = shift bk sh (Col [] a c)" using \<open>dim_expr d = None\<close> c assms(1) by (simp add: dimension_base_expr_def)
    then show ?thesis using shift_aliases [OF assms(2), of sh "Col [] a c"] by simp
  next
    case (Some path)
    then obtain ty where "e = bk_json_value bk (Col [] a c) path ty"
      using \<open>dim_expr d = None\<close> c assms(1) by (auto simp: dimension_base_expr_def split: option.splits)
    then have "set (columns e) \<subseteq> set (columns (Col [] a c))" using assms(2) unfolding adapter_reads_argument_def by blast
    then show ?thesis by auto
  qed
qed

lemma apply_mask_columns: "set (columns (apply_mask e s)) \<subseteq> set (columns e)"
  by (cases s) (auto simp: apply_mask_def)

lemma masked_dimension_aliases:
  assumes "masked_dimension cols bk sh dm ad = Inr e" and "adapter_reads_argument bk" and "bare_dimension bk (snd ad)"
  shows "aliases_in e \<subseteq> {fst ad}"
proof -
  obtain st col where col: "dimension_base_expr bk sh (fst ad) (snd ad) = Inr col"
    "e = (let e = (if blank (dim_granularity (snd ad)) then col else Op ''DATE_TRUNC'' [Op (the (dim_granularity (snd ad))) [], col])
       in case st of None \<Rightarrow> e | Some s \<Rightarrow> apply_mask e s)"
    using assms(1) by (auto simp: masked_dimension_def dimension_expr_def rbind_Inr_iff Let_def)
  have "set (columns e) \<subseteq> set (columns col)"
    using col(2) apply_mask_columns by (auto simp: Let_def split: option.splits if_splits) fastforce+
  then show ?thesis using base_expr_aliases [OF col(1) assms(2,3)] by blast
qed

section \<open>The branches of a finality union\<close>

text \<open>The statement that scans the tables: the inner one where rows are deduplicated first.\<close>

definition scan_of :: "stmt \<Rightarrow> stmt" where
  "scan_of s = (case from_item s of FromTable t a \<Rightarrow> s | FromStmt inner a \<Rightarrow> inner | _ \<Rightarrow> s)"

lemma from_and_joins_table: "from_and_joins bk owner edges srcs = Inr (f, js) \<Longrightarrow>
    \<exists>src. map_of srcs owner = Some src \<and> f = FromTable (ss_table src) owner \<and> map (\<lambda>(t, a, on). a) js = map je_alias edges"
proof -
  assume a: "from_and_joins bk owner edges srcs = Inr (f, js)"
  have "rmap (join_clause bk srcs) es = Inr ks \<Longrightarrow> map (\<lambda>(t, a, on). a) ks = map je_alias es" for es ks
    unfolding rmap_ok_iff
    by (induction rule: list_all2_induct) (auto simp: join_clause_def rbind_Inr_iff split: option.splits)
  then show ?thesis using a by (auto simp: from_and_joins_def rbind_Inr_iff split: option.splits)
qed

lemma dedup_inner_scan:
  assumes "build_dedup_inner cols bk sh owner dims metrics conds edges srcs dm = Inr inner"
  shows "wheres inner = conds" "from_alias (from_item inner) = owner" "map (\<lambda>(t, a, on). a) (joined inner) = map je_alias edges"
  using assms
  by (auto simp: build_dedup_inner_def rbind_Inr_iff dest!: from_and_joins_table split: option.splits)

lemma emit_branch_scan:
  assumes "emit_branch cols bk sh name metrics dims dns conds edges srcs as dm flag = Inr s"
  shows "wheres (scan_of s) = conds" "from_alias (from_item (scan_of s)) = name"
    "(flag, ''is_final'') \<in> set (projections s)" "map (\<lambda>(t, a, on). a) (joined (scan_of s)) = map je_alias edges"
  using assms dedup_inner_scan
  by (auto simp: emit_branch_def rbind_Inr_iff Let_def scan_of_def dest!: from_and_joins_table split: if_splits)

lemma build_branch_scan:
  assumes b: "build_branch cols bk mt srcs ua r = Inr s"
  shows "\<exists>col. from_alias (from_item (scan_of s)) = rz_source r \<and>
      wheres (scan_of s) = map (\<lambda>c. requalify_source c (ua_owner ua) (rz_source r)) (ua_conditions ua) @
        [Op (if rz_role r = ''final'' then ''LTE'' else ''GT'') [col, watermark_literal (ua_watermark ua)]] \<and>
      (Op (if rz_role r = ''final'' then ''TRUE'' else ''FALSE'') [], ''is_final'') \<in> set (projections s)"
proof -
  obtain sh metrics dims edges dm col where
    e: "emit_branch cols bk sh (rz_source r) metrics dims (dimension_output_names (ua_dimensions ua))
      (map (\<lambda>c. requalify_source c (ua_owner ua) (rz_source r)) (ua_conditions ua) @ [fst (gate_for r col (ua_watermark ua))])
      edges srcs (ua_names ua) dm (snd (gate_for r col (ua_watermark ua))) = Inr s"
    using b unfolding build_branch_def Let_def
    by (auto simp: rbind_Inr_iff case_prod_beta split: option.splits if_splits)
  show ?thesis
    using emit_branch_scan [OF e] by (auto simp: gate_for_def split: if_splits)
qed

lemma union_branches:
  "build_finality_union cols bk mt srcs rule ua = Inr branches \<Longrightarrow>
   list_all2 (\<lambda>r s. build_branch cols bk mt srcs ua r = Inr s) (fr_realizations rule) branches"
  by (auto simp: build_finality_union_def rbind_Inr_iff rmap_ok_iff split: if_splits)


section \<open>Witnesses\<close>

text \<open>Orders with a final and a provisional realization; the day stands on the order or on a joined calendar.\<close>

definition union_source :: "string \<Rightarrow> dimension list \<Rightarrow> join list \<Rightarrow> string \<times> semantic_source" where
  "union_source n ds js = (n, (bare_source n n)
     \<lparr>ss_columns := [shop_column ''id'' INT_T, shop_column ''day'' DATE_T],
      ss_measures := [\<lparr>me_name = ''revenue'', me_expr = ''sum(id)'', me_additivity = ADDITIVE, me_semi_additive_over = []\<rparr>],
      ss_dimensions := ds, ss_joins := js\<rparr>)"

definition union_metric :: resolved_metric where
  "union_metric = \<lparr>rm_name = ''revenue'', rm_source = ''orders'',
     rm_measure = \<lparr>me_name = ''revenue'', me_expr = ''sum(id)'', me_additivity = ADDITIVE, me_semi_additive_over = []\<rparr>\<rparr>"

definition union_rule :: finality_rule where
  "union_rule = \<lparr>fr_metric = ''revenue'', fr_realizations =
     [\<lparr>rz_source = ''orders'', rz_role = ''final'', rz_watermark = Some ''business_day'', rz_tz = Some ''UTC''\<rparr>,
      \<lparr>rz_source = ''orders_rt'', rz_role = ''provisional'', rz_watermark = None, rz_tz = None\<rparr>],
     fr_coalescing = None, fr_result_flag = None, fr_board_only_final = False\<rparr>"

definition union_backend :: backend where
  "union_backend = shop_backend\<lparr>bk_parse := map_of [(''sum(id)'', Op ''Sum'' [Col [] [] ''id'']), (''k = k'', Op ''EQ'' [])]\<rparr>"

definition union_call :: "string \<Rightarrow> dimension \<Rightarrow> sql list \<Rightarrow> union_args" where
  "union_call a d conds = \<lparr>ua_metrics = [union_metric], ua_dimensions = [(a, d)], ua_conditions = conds, ua_watermark = ''w'',
     ua_time_dim = dim_name d, ua_owner = ''orders'', ua_names = [''revenue''], ua_masking = [], ua_shifts = []\<rparr>"

definition day_dimension :: dimension where
  "day_dimension = column_dimension ''order_day'' ''day''"

definition own_day :: sources where
  "own_day = [union_source ''orders'' [day_dimension] [], union_source ''orders_rt'' [day_dimension] []]"

definition calendar_day :: "string option \<Rightarrow> sources" where
  "calendar_day role = [union_source ''orders'' [] [sample_join ''calendar'' role],
     union_source ''orders_rt'' [] [sample_join ''calendar'' role], union_source ''calendar'' [day_dimension] []]"

abbreviation own_union :: "stmt list res" where
  "own_union \<equiv> build_finality_union (\<lambda>_. None) union_backend (\<lambda>_ s. s) own_day union_rule
     (union_call ''orders'' day_dimension [Op ''EQ'' [Col [] ''orders'' ''merchant'', Op ''number 7'' []]])"


text \<open>
  The gate is built on the branch's own alias even when the time dimension stands on a joined source:
  the condition names a column of \<^verbatim>\<open>orders\<close> where the dimension is one of \<^verbatim>\<open>calendar\<close>.
\<close>

lemma gate_ignores_the_join:
  "map_sum id (map (\<lambda>s. (wheres s, map fst (take 1 (projections s)))))
     (build_finality_union (\<lambda>_. None) union_backend (\<lambda>_ s. s) (calendar_day None) union_rule (union_call ''calendar'' day_dimension [])) =
   Inr [([Op ''LTE'' [Col [] ''orders'' ''day'', watermark_literal ''w'']], [Col [] ''calendar'' ''day'']),
        ([Op ''GT'' [Col [] ''orders_rt'' ''day'', watermark_literal ''w'']], [Col [] ''calendar'' ''day''])]"
  by code_simp

text \<open>
  The joins of a branch are planned to the names of sources where the planner wants aliases: a dimension
  reached through a named join makes the union fail, while the plan of the leaf itself succeeds.
\<close>

lemma union_loses_join_role:
  "build_finality_union (\<lambda>_. None) union_backend (\<lambda>_ s. s) (calendar_day (Some ''placed'')) union_rule (union_call ''placed'' day_dimension []) =
     Inl (CanonicError Unreachable [''calendar'', ''orders''] []) \<and>
   is_ok (plan_joins (\<lambda>_ s. s) ''orders'' [''placed''] (calendar_day (Some ''placed'')) None)"
  by code_simp

end
