(* ===== verification/Leaf.thy ===== *)
theory Leaf
  imports Statements Contract_Validation
begin

text \<open>
  \<^verbatim>\<open>src/canonic/compiler/leaf.py\<close>: stages 2 to 6 for one source aggregated to the requested dimensions, and the
  key that identifies the planned leaf. What the code reads from its context variables (the offsets and
  the enclosing populations the metric is planned under) are arguments. A builder other than the additive
  one is an argument too. The engine collects what is not in this repository: the SQL parser and renderer,
  the aggregate of a measure, the time zone database and the clock.
\<close>

record engine =
  en_cols :: "string \<Rightarrow> string list option"
  en_backend :: backend
  en_map_tables :: "(string \<Rightarrow> string option) \<Rightarrow> string \<Rightarrow> string"
  en_render :: "sql \<Rightarrow> string"
  en_find_agg :: "string \<Rightarrow> agg option"
  en_to_zone :: "string \<Rightarrow> datetime \<Rightarrow> datetime option"
  en_instant :: "(datetime \<times> int option) option \<Rightarrow> datetime"
  en_isoformat :: "string \<Rightarrow> datetime \<Rightarrow> string"

section \<open>Inputs\<close>

record leaf_context =
  lc_query :: semantic_query
  lc_resolver :: resolver
  lc_sources :: sources
  lc_principal :: principal
  lc_policy :: effective_policy

record leaf_metric =
  lm_resolved :: resolved_metric
  lm_population :: "string option"
  lm_alias :: "string option"

definition output_alias :: "leaf_metric \<Rightarrow> string" where
  "output_alias lm = (if empty_opt (lm_alias lm) then me_name (rm_measure (lm_resolved lm)) else the (lm_alias lm))"

record aux_cte =
  ax_name :: string
  ax_body :: "stmt list"

record leaf_inputs =
  li_ctx :: leaf_context
  li_owner :: string
  li_dimensions :: "(string \<times> dimension) list"
  li_where :: "sql list"
  li_edges :: "join_edge list"
  li_fanout :: bool
  li_tree :: "(string, string) dict"
  li_prefix :: string
  li_mask :: dim_mask

definition dim_names :: "leaf_inputs \<Rightarrow> string list" where
  "dim_names li = dimension_output_names (li_dimensions li)"

type_synonym built = "stmt list \<times> aux_cte list"

text \<open>A builder runs inside the leaf's shift context.\<close>

type_synonym leaf_builder = "shifts \<Rightarrow> leaf_inputs \<Rightarrow> leaf_metric list \<Rightarrow> built res"

section \<open>The identity of a leaf\<close>

definition is_op :: "string \<Rightarrow> sql \<Rightarrow> bool" where
  "is_op f e = (case e of Op g es \<Rightarrow> g = f | _ \<Rightarrow> False)"

fun strip_parens :: "sql \<Rightarrow> sql" where
  "strip_parens (Col db t n) = Col db t n"
| "strip_parens (Op f [x]) = (if f = ''Paren'' \<and> \<not> is_op ''Or'' x then strip_parens x else Op f [x])"
| "strip_parens (Op f es) = Op f es"

lemma strip_parens_size: "size (strip_parens e) \<le> size e"
  by (induction e rule: strip_parens.induct) auto

function conjuncts :: "sql \<Rightarrow> sql list" where
  "conjuncts e =
     (case strip_parens e of
        Op f es \<Rightarrow>
          (if f = ''And'' \<and> length es = 2 then conjuncts (es ! 0) @ conjuncts (es ! 1)
           else if f = ''Or'' then [Op ''Paren'' [Op f es]]
           else [Op f es])
      | node \<Rightarrow> [node])"
  by pat_completeness auto

termination
proof (relation "measure size", goal_cases)
  case (2 e f es)
  then have "size (Op f es) \<le> size e" "es ! 0 \<in> set es" using strip_parens_size [of e] by auto
  then show ?case using size_list_estimation' [of "es ! 0" es _ size] by fastforce
next
  case (3 e f es)
  then have "size (Op f es) \<le> size e" "es ! 1 \<in> set es" using strip_parens_size [of e] by auto
  then show ?case using size_list_estimation' [of "es ! 1" es _ size] by fastforce
qed simp

declare conjuncts.simps [simp del]

definition filter_key :: "(sql \<Rightarrow> string) \<Rightarrow> sql list \<Rightarrow> string list" where
  "filter_key render conds = dedup (map render (concat (map conjuncts conds)))"

record leaf_key =
  lk_source :: string
  lk_strategy :: string
  lk_dimensions :: "string list"
  lk_dimension_exprs :: "string list"
  lk_filters :: "string list"
  lk_join_path :: "(string \<times> string \<times> string) list"
  lk_finality :: "string list"
  lk_params :: "(string \<times> string) list"
  lk_measures :: "(string \<times> string \<times> string) list"

definition fusion_key :: "leaf_key \<Rightarrow> string \<times> string \<times> string list \<times> string list \<times> string list \<times>
    (string \<times> string \<times> string) list \<times> string list \<times> (string \<times> string) list" where
  "fusion_key k = (lk_source k, lk_strategy k, lk_dimensions k, lk_dimension_exprs k, lk_filters k, lk_join_path k,
     lk_finality k, lk_params k)"

definition leaf_sort_key :: "leaf_key \<Rightarrow> (string \<times> string \<times> string list \<times> string list \<times> string list \<times>
    (string \<times> string \<times> string) list \<times> string list \<times> (string \<times> string) list) \<times> (string \<times> string \<times> string) list" where
  "leaf_sort_key k = (fusion_key k, lk_measures k)"

section \<open>Scoping\<close>

fun value_literal :: "tenant_value \<Rightarrow> sql" where
  "value_literal (TInt n) = Op (''number '' @ show_int n) []"
| "value_literal (TStr s) = Op (''string '' @ s) []"

fun tenant_sql :: "tenant_predicate \<Rightarrow> sql" where
  "tenant_sql (TenantEq a c v) = Op ''EQ'' [Col [] a c, value_literal v]"
| "tenant_sql (TenantIn a c vs) = Op ''In'' (Col [] a c # map value_literal vs)"

record metric_scoping =
  ms_where :: "sql list"
  ms_fired :: "fired_guardrail list"
  ms_warnings :: "string list"

definition add_guard :: "bool \<Rightarrow> guardrail_enforcement \<Rightarrow> metric_scoping \<Rightarrow> metric_scoping" where
  "add_guard is_first g sc =
     \<lparr>ms_where = ms_where sc @ (if is_first then ge_conditions g else []),
      ms_fired = fold (\<lambda>f fs. if fg_id f \<in> set (map fg_id fs) then fs else fs @ [f]) (ge_fired g) (ms_fired sc),
      ms_warnings = fold (\<lambda>w ws. if w \<in> set ws then ws else ws @ [w]) (ge_warnings g) (ms_warnings sc)\<rparr>"

definition guard_step :: "engine \<Rightarrow> leaf_context \<Rightarrow> nat \<times> leaf_metric \<Rightarrow> metric_scoping \<Rightarrow> metric_scoping res" where
  "guard_step en ctx im sc =
     map_sum id (\<lambda>g. add_guard (fst im = 0) g sc)
       (enforce_guardrails (en_backend en) [] [lm_resolved (snd im)] (lc_resolver ctx) (lc_sources ctx))"

definition apply_metric_scoping :: "engine \<Rightarrow> string list \<Rightarrow> leaf_context \<Rightarrow> string \<Rightarrow> leaf_metric list \<Rightarrow> sql list \<Rightarrow>
    (string, string) dict \<Rightarrow> metric_scoping res" where
  "apply_metric_scoping en enclosing ctx owner metrics conds tree =
     (case metrics of
        [] \<Rightarrow> Inl IndexError
      | m # _ \<Rightarrow>
          (let own = lm_population m;
               population = (if enclosing = [] then own else combine_population_filters (map Some enclosing @ [own]))
           in rbind (population_filter_conditions (en_backend en) [] population (lc_sources ctx) owner (Some tree)) (\<lambda>pop.
              rfold (guard_step en ctx) (enumerate_list metrics) \<lparr>ms_where = conds @ pop, ms_fired = [], ms_warnings = []\<rparr>)))"

definition naming_the_leaf :: "leaf_metric list \<Rightarrow> string \<Rightarrow> 'a res \<Rightarrow> 'a res" where
  "naming_the_leaf metrics owner r =
     (case r of
        Inl (CanonicError c args cands) \<Rightarrow>
          if c \<in> {AmbiguousJoinPath, Unreachable, Ambiguous}
          then Inl (CanonicError c (map (rm_name \<circ> lm_resolved) metrics @ owner # args) cands)
          else r
      | _ \<Rightarrow> r)"

section \<open>The safety floor\<close>

definition floor_measure :: "(string \<Rightarrow> agg option) \<Rightarrow> bool \<Rightarrow> string list \<Rightarrow> resolved_metric \<Rightarrow> unit res" where
  "floor_measure find_agg fanout groups m =
     (let me = rm_measure m; unsafe = filter (\<lambda>d. d \<notin> set groups) (me_semi_additive_over me)
      in if me_additivity me = ADDITIVE
         then checks [(\<not> is_p0_compilable find_agg me, CanonicError UnsupportedMeasure [rm_source m, me_name me] [])]
         else checks
           [(fanout, CanonicError FanoutUnsafe [rm_source m, me_name me] []),
            (me_additivity me = SEMI_ADDITIVE \<and> unsafe \<noteq> [], CanonicError UnsupportedMeasure (rm_source m # me_name me # unsafe) [])])"

definition enforce_safety_floor :: "(string \<Rightarrow> agg option) \<Rightarrow> resolved_metric list \<Rightarrow> bool \<Rightarrow> string list \<Rightarrow> unit res" where
  "enforce_safety_floor find_agg metrics fanout groups = rfor (floor_measure find_agg fanout groups) metrics"

definition build_additive :: "engine \<Rightarrow> leaf_builder" where
  "build_additive en sh li metrics =
     (let resolved = map lm_resolved metrics
      in rbind (enforce_safety_floor (en_find_agg en) resolved (li_fanout li) (map (dim_name \<circ> snd) (li_dimensions li))) (\<lambda>_.
           map_sum id (\<lambda>s. ([s], []))
             ((if li_fanout li then build_deduped else build_simple) (en_cols en) (en_backend en) sh (li_owner li) resolved
               (li_dimensions li) (li_where li) (li_edges li) (lc_sources (li_ctx li)) (map output_alias metrics) (li_mask li))))"

section \<open>Planning\<close>

record finality_metadata =
  fm_watermark :: string
  fm_sources :: "string list"
  fm_flag :: string

record time_dimension_info =
  td_column :: string
  td_grain :: string
  td_format :: "time_format option"

record leaf_plan =
  lp_key :: leaf_key
  lp_select :: "stmt list"
  lp_aux :: "aux_cte list"
  lp_metrics :: "leaf_metric list"
  lp_dim_names :: "string list"
  lp_aliases :: "string list"
  lp_used_sources :: "string list"
  lp_rebuild :: "leaf_metric list \<Rightarrow> string \<Rightarrow> built res"
  lp_fired :: "fired_guardrail list"
  lp_warnings :: "string list"
  lp_finality :: "finality_metadata option"
  lp_scoped :: "string list"
  lp_shared :: "string list"
  lp_fusable :: bool
  lp_time_dimensions :: "time_dimension_info list"
  lp_fanout :: bool

text \<open>Stages 2, 2b, 3 and 6: what a leaf reads.\<close>

record leaf_scope =
  lo_dimensions :: "(string \<times> dimension) list"
  lo_where :: "sql list"
  lo_edges :: "join_edge list"
  lo_tenant :: tenant_scoping
  lo_scoping :: metric_scoping

definition scope_leaf :: "engine \<Rightarrow> time_shift list \<Rightarrow> string list \<Rightarrow> leaf_context \<Rightarrow> string \<Rightarrow> leaf_metric list \<Rightarrow> leaf_scope res" where
  "scope_leaf en tss enclosing ctx owner metrics =
     (let q = lc_query ctx; srcs = lc_sources ctx; bk = en_backend en; tree = build_alias_tree owner srcs
      in rbind (naming_the_leaf metrics owner
           (rbind (leaf_shifts (en_cols en) tss owner srcs tree) (\<lambda>sh.
            rbind (resolve_dimensions bk q srcs owner tree) (\<lambda>dims.
            rbind (bind_filters (en_cols en) bk sh (sq_filters q) srcs owner (Some tree) (Some (lc_policy ctx))) (\<lambda>(conds, used).
            rbind (bind_filters (en_cols en) bk [] (concat (map ts_prefilters tss)) srcs owner (Some tree) (Some (lc_policy ctx)))
              (\<lambda>(pre, pre_used). Inr (dims, conds @ pre, used @ pre_used))))))) (\<lambda>(dims, conds, used).
         rbind (guardrail_join_sources bk [] (map (\<lambda>lm. (rm_source (lm_resolved lm), me_name (rm_measure (lm_resolved lm)))) metrics)
           (lc_resolver ctx) srcs tree) (\<lambda>guard_used.
         rbind (naming_the_leaf metrics owner
           (plan_joins (en_map_tables en) owner (filter (\<lambda>a. a \<noteq> owner) (map fst dims @ used @ guard_used)) srcs
             (if sq_via q = [] then None else Some (sq_via q)))) (\<lambda>edges.
         rbind (tenant_conditions (lc_resolver ctx) owner edges tree (pr_tenants (lc_principal ctx)) (lc_policy ctx) srcs) (\<lambda>tenant.
         rbind (apply_metric_scoping en enclosing ctx owner metrics (map tenant_sql (tn_conditions tenant) @ conds) tree) (\<lambda>sc.
           Inr \<lparr>lo_dimensions = dims, lo_where = conds, lo_edges = edges, lo_tenant = tenant,
                lo_scoping = sc\<lparr>ms_warnings := tn_warnings tenant @ ms_warnings sc\<rparr>\<rparr>))))))"

text \<open>Stage 5: the rule that governs the leaf, when its query groups by a time dimension.\<close>

definition leaf_finality :: "engine \<Rightarrow> leaf_context \<Rightarrow> string option \<Rightarrow> (string \<times> dimension) list \<Rightarrow> (string, string) dict \<Rightarrow>
    (finality_rule \<times> string) option" where
  "leaf_finality en ctx finality_metric dims tree =
     (case finality_metric of
        None \<Rightarrow> None
      | Some n \<Rightarrow>
          (if n = [] then None
           else (case (finality_for (lc_resolver ctx) n, find_time_dim_name dims (lc_sources ctx) tree) of
               (Some rule, Some td) \<Rightarrow> Some (rule, td) | _ \<Rightarrow> None)))"

definition rule_watermark :: "engine \<Rightarrow> leaf_context \<Rightarrow> finality_rule \<Rightarrow> string res" where
  "rule_watermark en ctx rule =
     (case find (\<lambda>r. rz_role r = ''final'') (fr_realizations rule) of
        None \<Rightarrow> Inl StopIteration
      | Some r \<Rightarrow>
          (case (rz_watermark r, rz_tz r) of
             (Some w, Some tz) \<Rightarrow>
               map_sum id (en_isoformat en tz) (evaluate_watermark (en_to_zone en) w tz (en_instant en (sq_as_of (lc_query ctx))))
           | _ \<Rightarrow> Inl TypeError))"

text \<open>\<^verbatim>\<open>rule.result_flag or "per_row"\<close>\<close>

definition result_flag_of :: "finality_rule \<Rightarrow> string" where
  "result_flag_of rule = (if empty_opt (fr_result_flag rule) then ''per_row'' else the (fr_result_flag rule))"

definition union_for :: "engine \<Rightarrow> time_shift list \<Rightarrow> leaf_context \<Rightarrow> string \<Rightarrow> leaf_scope \<Rightarrow> finality_rule \<Rightarrow> string \<Rightarrow> string \<Rightarrow>
    leaf_metric list \<Rightarrow> built res" where
  "union_for en tss ctx owner lo rule td watermark metrics =
     map_sum id (\<lambda>ss. (ss, []))
       (build_finality_union (en_cols en) (en_backend en) (en_map_tables en) (lc_sources ctx) rule
         \<lparr>ua_metrics = map lm_resolved metrics, ua_dimensions = lo_dimensions lo, ua_conditions = ms_where (lo_scoping lo),
          ua_watermark = watermark, ua_time_dim = td, ua_owner = owner, ua_names = map output_alias metrics,
          ua_masking = ep_masking (lc_policy ctx), ua_shifts = tss\<rparr>)"

definition emit_for :: "engine \<Rightarrow> time_shift list \<Rightarrow> leaf_context \<Rightarrow> string \<Rightarrow> leaf_scope \<Rightarrow> leaf_builder option \<Rightarrow>
    leaf_metric list \<Rightarrow> string \<Rightarrow> built res" where
  "emit_for en tss ctx owner lo builder metrics prefix =
     (let tree = build_alias_tree owner (lc_sources ctx)
      in rbind (leaf_shifts (en_cols en) tss owner (lc_sources ctx) tree) (\<lambda>sh.
           (case builder of None \<Rightarrow> build_additive en | Some f \<Rightarrow> f) sh
             \<lparr>li_ctx = ctx, li_owner = owner, li_dimensions = lo_dimensions lo, li_where = ms_where (lo_scoping lo),
              li_edges = lo_edges lo, li_fanout = fans_out (lo_edges lo), li_tree = tree, li_prefix = prefix,
              li_mask = resolve_dim_mask tree (ep_masking (lc_policy ctx))\<rparr> metrics))"

definition shift_params :: "time_shift list \<Rightarrow> (string \<times> string) list" where
  "shift_params tss =
     (if tss = [] then []
      else [(''time_shift'', join_with [CHR 0x00] (map (\<lambda>s. ts_dimension s @ ''+'' @ str_duration (ts_offset s)) tss))])"

definition leaf_key_for :: "engine \<Rightarrow> time_shift list \<Rightarrow> leaf_context \<Rightarrow> string \<Rightarrow> leaf_scope \<Rightarrow> leaf_metric list \<Rightarrow> string list \<Rightarrow>
    string \<Rightarrow> (string \<times> string) list \<Rightarrow> leaf_key res" where
  "leaf_key_for en tss ctx owner lo metrics finality strategy params =
     (let tree = build_alias_tree owner (lc_sources ctx); dm = resolve_dim_mask tree (ep_masking (lc_policy ctx))
      in rbind (leaf_shifts (en_cols en) tss owner (lc_sources ctx) tree) (\<lambda>sh.
         rbind (rmap (masked_dimension (en_cols en) (en_backend en) sh dm) (lo_dimensions lo)) (\<lambda>des.
         rbind (rmap (\<lambda>lm. map_sum id (\<lambda>e. (me_name (rm_measure (lm_resolved lm)), en_render en e, output_alias lm))
             (measure_expr (en_backend en) (rm_source (lm_resolved lm)) (rm_measure (lm_resolved lm)))) metrics) (\<lambda>ms.
           Inr \<lparr>lk_source = owner, lk_strategy = strategy, lk_dimensions = dimension_output_names (lo_dimensions lo),
                lk_dimension_exprs = map (en_render en) des, lk_filters = filter_key (en_render en) (ms_where (lo_scoping lo)),
                lk_join_path = map (\<lambda>e. (je_from_alias e, je_alias e, je_on_sql e)) (lo_edges lo),
                lk_finality = finality, lk_params = params @ shift_params tss, lk_measures = ms\<rparr>))))"

definition period_columns :: "(string \<times> dimension) list \<Rightarrow> time_dimension_info list res" where
  "period_columns dims =
     map_sum id concat (rmap (\<lambda>(name, (a, d)).
       case period_grain d of
         None \<Rightarrow> Inr []
       | Some g \<Rightarrow> map_sum id (\<lambda>f. [\<lparr>td_column = name, td_grain = g, td_format = f\<rparr>]) (period_format d))
       (zip (dimension_output_names dims) dims))"

record leaf_options =
  lt_finality_metric :: "string option"
  lt_strategy :: string
  lt_params :: "(string \<times> string) list"
  lt_builder :: "leaf_builder option"
  lt_fusable :: bool

definition plan_leaf :: "engine \<Rightarrow> time_shift list \<Rightarrow> string list \<Rightarrow> leaf_context \<Rightarrow> string \<Rightarrow> leaf_metric list \<Rightarrow> leaf_options \<Rightarrow>
    leaf_plan res" where
  "plan_leaf en tss enclosing ctx owner metrics lt =
     rbind (scope_leaf en tss enclosing ctx owner metrics) (\<lambda>lo.
     let tree = build_alias_tree owner (lc_sources ctx);
         rule = (if lt_builder lt = None then leaf_finality en ctx (lt_finality_metric lt) (lo_dimensions lo) tree else None)
     in rbind (case rule of
            None \<Rightarrow> Inr (None, emit_for en tss ctx owner lo (lt_builder lt), owner # map (jn_to \<circ> je_join) (lo_edges lo))
          | Some (r, td) \<Rightarrow>
              map_sum id (\<lambda>w. (Some \<lparr>fm_watermark = w, fm_sources = map rz_source (fr_realizations r), fm_flag = result_flag_of r\<rparr>,
                 (\<lambda>ms prefix. union_for en tss ctx owner lo r td w ms), map rz_source (fr_realizations r)))
                (rule_watermark en ctx r)) (\<lambda>(fin, build, used).
        rbind (build metrics []) (\<lambda>(select, aux).
        rbind (leaf_key_for en tss ctx owner lo metrics
            (case fin of None \<Rightarrow> [] | Some f \<Rightarrow> fm_watermark f # sort (fm_sources f) @ [fm_flag f])
            (lt_strategy lt) (lt_params lt)) (\<lambda>key.
        rbind (period_columns (lo_dimensions lo)) (\<lambda>tds.
          Inr \<lparr>lp_key = key, lp_select = select, lp_aux = aux, lp_metrics = metrics,
               lp_dim_names = dimension_output_names (lo_dimensions lo), lp_aliases = map output_alias metrics,
               lp_used_sources = dedup used, lp_rebuild = build, lp_fired = ms_fired (lo_scoping lo),
               lp_warnings = ms_warnings (lo_scoping lo), lp_finality = fin, lp_scoped = tn_scoped (lo_tenant lo),
               lp_shared = tn_shared (lo_tenant lo), lp_fusable = lt_fusable lt, lp_time_dimensions = tds,
               lp_fanout = fans_out (lo_edges lo)\<rparr>)))))"

section \<open>The key decides the rows\<close>

text \<open>
  Whether a condition holds of a row. SQL keeps a row when the condition is true, and a conjunction is
  true exactly when both sides are, also where a side is unknown; \<open>v\<close> decides every other expression.
\<close>

function holds :: "(sql \<Rightarrow> bool) \<Rightarrow> sql \<Rightarrow> bool" where
  "holds v (Col db t n) = v (Col db t n)"
| "holds v (Op f es) =
     (if f = ''Paren'' \<and> length es = 1 then holds v (es ! 0)
      else if f = ''And'' \<and> length es = 2 then holds v (es ! 0) \<and> holds v (es ! 1)
      else v (Op f es))"
  by pat_completeness auto

termination
proof (relation "measure (size \<circ> snd)", goal_cases)
  case (2 v f es)
  then have "es ! 0 \<in> set es" by auto
  then show ?case using size_list_estimation' [of "es ! 0" es _ size] by fastforce
next
  case (3 v f es)
  then have "es ! 0 \<in> set es" by auto
  then show ?case using size_list_estimation' [of "es ! 0" es _ size] by fastforce
next
  case (4 v f es)
  then have "es ! 1 \<in> set es" by auto
  then show ?case using size_list_estimation' [of "es ! 1" es _ size] by fastforce
qed simp

lemma holds_strip [simp]: "holds v (strip_parens e) = holds v e"
  by (induction e rule: strip_parens.induct) auto

lemma holds_conjuncts: "(\<forall>c\<in>set (conjuncts e). holds v c) \<longleftrightarrow> holds v e"
proof (induction e rule: conjuncts.induct)
  case (1 e)
  have e: "holds v e = holds v (strip_parens e)" by simp
  show ?case
  proof (cases "strip_parens e")
    case (Op f es)
    show ?thesis
    proof (cases "f = ''And'' \<and> length es = 2")
      case True
      then have "conjuncts e = conjuncts (es ! 0) @ conjuncts (es ! 1)" using Op by (simp add: conjuncts.simps [of e])
      then show ?thesis using "1.IH" [OF Op True] e Op True by (simp del: holds_strip) blast
    next
      case False
      then have "conjuncts e = (if f = ''Or'' then [Op ''Paren'' [Op f es]] else [Op f es])"
        using Op by (auto simp: conjuncts.simps [of e])
      then show ?thesis using e Op by (simp del: holds_strip split: if_splits)
    qed
  qed (use e in \<open>simp add: conjuncts.simps [of e] del: holds_strip\<close>)
qed

lemma conjunct_rows: "(\<forall>c\<in>set conds. holds v c) \<longleftrightarrow> (\<forall>c\<in>set (concat (map conjuncts conds)). holds v c)"
  by (induction conds) (simp_all add: ball_Un holds_conjuncts)


section \<open>Which tables a leaf reads\<close>

lemma find_mem: "find P xs = Some x \<Longrightarrow> x \<in> set xs"
  by (auto simp: find_Some_iff)

lemma joined_candidates_mem: "(a, d) \<in> set (joined_candidates srcs ow aliases name) \<Longrightarrow> \<exists>s. d \<in> set (dims_in srcs s)"
  by (auto simp: joined_candidates_def)

lemma find_qualified_mem: "find_qualified srcs aliases role dn = Some (a, d) \<Longrightarrow> a = role \<and> (\<exists>s. d \<in> set (dims_in srcs s))"
  by (auto simp: find_qualified_def split: option.splits dest!: find_mem)

lemma find_dimension_declared:
  assumes "find_dimension name srcs (Some ow) aliases = Inr (Some (a, d))"
  shows "\<exists>s. d \<in> set (dims_in srcs s)"
proof (cases "CHR ''.'' \<in> set name")
  case True
  then show ?thesis using assms find_qualified_mem by (auto simp: find_dimension_def split: prod.splits)
next
  case False
  show ?thesis
  proof (cases "find (\<lambda>d. dim_matches d name) (dims_in srcs ow)")
    case None
    then have "joined_candidates srcs ow aliases name = [(a, d)]"
      using assms False by (auto simp: find_dimension_def split: list.splits)
    then show ?thesis using joined_candidates_mem [of a d srcs ow aliases name] by simp
  next
    case (Some x)
    then show ?thesis using assms False find_mem [OF Some] by (auto simp: find_dimension_def)
  qed
qed

lemma find_dimension_role:
  assumes "find_dimension (role @ ''.'' @ name) srcs ow aliases = Inr (Some (a, d))" and "CHR ''.'' \<notin> set role"
  shows "a = role"
proof -
  have "partition_on CHR ''.'' (role @ CHR ''.'' # name) = (role, True, name)" using assms(2) by (simp add: partition_on_iff)
  then show ?thesis using assms(1) find_qualified_mem by (auto simp: find_dimension_def)
qed

text \<open>The semantic model as the loader accepts it for this purpose: expressions name their columns bare.\<close>

definition bare_model :: "backend \<Rightarrow> sources \<Rightarrow> bool" where
  "bare_model bk srcs \<longleftrightarrow> (\<forall>s. \<forall>d\<in>set (dims_in srcs s). bare_dimension bk d)"

definition undotted :: "backend \<Rightarrow> bool" where
  "undotted bk \<longleftrightarrow> (\<forall>text e. bk_parse bk text = Some e \<longrightarrow> (\<forall>t\<in>aliases_in e. CHR ''.'' \<notin> set t))"

lemma derived_expr_aliases:
  assumes "derived_expr bk sh a d = Inr (e, used)" and "adapter_reads_argument bk" and "bare_dimension bk d"
  shows "aliases_in e \<subseteq> {a} \<and> used = [a]"
  using assms base_expr_aliases [of bk sh a d] by (fastforce simp: derived_expr_def rbind_Inr_iff)

lemma bind_column_aliases:
  assumes "bind_column bk sh srcs (Some ow) (Some tree) db t n = Inr (e, used)"
    and "adapter_reads_argument bk" and "bare_model bk srcs" and "CHR ''.'' \<notin> set t"
  shows "aliases_in e \<subseteq> set used"
proof -
  have bare: "bare_dimension bk d" if "find_dimension nm srcs (Some ow) (Some tree) = Inr (Some (a, d))" for nm a d
    using find_dimension_declared [OF that] assms(3) by (auto simp: bare_model_def)
  show ?thesis
  proof (cases "t = []")
    case True
    then show ?thesis
      using assms(1) bare derived_expr_aliases [OF _ assms(2)]
      by (fastforce simp: bind_column_def rbind_Inr_iff split: option.splits prod.splits if_splits)
  next
    case False
    then show ?thesis
      using assms(1,4) bare derived_expr_aliases [OF _ assms(2)] find_dimension_role
      by (fastforce simp: bind_column_def qualified_column_def rbind_Inr_iff map_sum_Inr_iff Let_def
          split: option.splits prod.splits if_splits)
  qed
qed

lemma bind_columns_aliases:
  assumes "bind_columns g e = Inr (bound, used)"
    and "\<And>db t n x us. (t, n) \<in> set (columns e) \<Longrightarrow> g db t n = Inr (x, us) \<Longrightarrow> aliases_in x \<subseteq> set us"
  shows "aliases_in bound \<subseteq> set used"
  using assms
proof (induction e arbitrary: bound used)
  case (Op f es)
  then obtain rs where rs: "rmap (bind_columns g) es = Inr rs" "bound = Op f (map fst rs)" "used = concat (map snd rs)"
    by (auto simp: rbind_Inr_iff)
  have "aliases_in (fst r) \<subseteq> set (snd r)" if r: "r \<in> set rs" for r
  proof -
    obtain x where x: "x \<in> set es" "bind_columns g x = Inr r" using rmap_origin [OF rs(1) r] by blast
    then have sub: "set (columns x) \<subseteq> set (columns (Op f es))" by auto
    show ?thesis
    proof (rule Op.IH [OF x(1)])
      show "bind_columns g x = Inr (fst r, snd r)" using x(2) by simp
      show "aliases_in y \<subseteq> set us" if "(t, n) \<in> set (columns x)" "g db t n = Inr (y, us)" for db t n y us
        by (rule Op.prems(2) [OF _ that(2)]) (use sub that(1) in blast)
    qed
  qed
  then have "\<forall>r\<in>set rs. aliases_in (fst r) \<subseteq> set (snd r)" by blast
  then show ?case unfolding rs(2,3) by (auto simp: image_UN)
qed simp

lemma bind_filters_aliases:
  assumes "bind_filters cols bk sh filters srcs ow (Some tree) pol = Inr (conds, used)" and "cond \<in> set conds"
    and "adapter_reads_argument bk" and "bare_model bk srcs" and "undotted bk"
  shows "aliases_in cond \<subseteq> set used"
proof -
  obtain denied bs where bs: "rmap (bind_filter bk sh srcs ow (Some tree) denied) filters = Inr bs"
    "conds = map fst bs" "used = concat (map snd bs)"
    using assms(1) by (auto simp: bind_filters_def rbind_Inr_iff)
  obtain raw us where raw: "bind_filter bk sh srcs ow (Some tree) denied raw = Inr (cond, us)" "set us \<subseteq> set used"
    using rmap_origin [OF bs(1)] assms(2) bs(2,3) by fastforce
  then obtain p bound where p: "bk_parse bk raw = Some p" "cond = shift bk sh bound"
    "bind_columns (bind_column bk sh srcs (Some ow) (Some tree)) p = Inr (bound, us)"
    by (auto simp: bind_filter_def rbind_Inr_iff parse_sql_def qualify_columns_def split: option.splits)
  have "aliases_in bound \<subseteq> set us"
    by (rule bind_columns_aliases [OF p(3)], rule bind_column_aliases [OF _ assms(3,4)])
      (use p(1) assms(5) in \<open>force simp: undotted_def\<close>)+
  then show ?thesis using shift_aliases [OF assms(3), of sh bound] p(2) raw(2) by blast
qed

lemma naming_Inr [simp]: "naming_the_leaf metrics owner r = Inr x \<longleftrightarrow> r = Inr x"
  by (auto simp: naming_the_leaf_def split: sum.splits exn.splits)

fun predicate_alias :: "tenant_predicate \<Rightarrow> string" where
  "predicate_alias (TenantEq a c v) = a"
| "predicate_alias (TenantIn a c vs) = a"

lemma value_literal_columns [simp]: "columns (value_literal v) = []"
  by (cases v) simp_all

lemma tenant_sql_aliases: "aliases_in (tenant_sql p) = {predicate_alias p}"
  by (cases p) auto

lemma predicate_alias_mk [simp]: "predicate_alias (mk_tenant_predicate a c vs) = a"
  by (auto simp: mk_tenant_predicate_def split: list.splits)

lemma scope_alias_predicates:
  assumes "scope_alias r tree tenants srcs a acc = Inr out" and "p \<in> set (tn_conditions out)"
  shows "p \<in> set (tn_conditions acc) \<or> predicate_alias p = a"
  using assms
  by (auto simp: scope_alias_def Let_def rbind_Inr_iff split: scope_resolution.splits if_splits option.splits)

lemma tenant_predicate_aliases:
  assumes "tenant_conditions r owner edges tree tenants pol srcs = Inr out" and "p \<in> set (tn_conditions out)"
  shows "predicate_alias p \<in> set (owner # map je_alias edges)"
proof -
  have "rfold (scope_alias r tree tenants srcs) as acc = Inr out \<Longrightarrow>
      p \<in> set (tn_conditions acc) \<or> predicate_alias p \<in> set as" for as acc
    using assms(2)
  proof (induction as arbitrary: acc)
    case (Cons a as)
    then obtain mid where "scope_alias r tree tenants srcs a acc = Inr mid" "rfold (scope_alias r tree tenants srcs) as mid = Inr out"
      by (auto simp: rbind_Inr_iff)
    then show ?case using Cons.IH Cons.prems(2) scope_alias_predicates by fastforce
  qed simp
  from this [of "owner # map je_alias edges" no_scoping] show ?thesis
    using assms by (auto simp: tenant_conditions_def no_scoping_def split: if_splits)
qed

lemma rfold_extends:
  assumes "\<And>x acc out. f x acc = Inr out \<Longrightarrow> \<exists>rest. g out = g acc @ rest"
  shows "rfold f xs acc = Inr out \<Longrightarrow> \<exists>rest. g out = g acc @ rest"
proof (induction xs arbitrary: acc)
  case (Cons x xs)
  then obtain mid where "f x acc = Inr mid" "rfold f xs mid = Inr out" by (auto simp: rbind_Inr_iff)
  then show ?case using Cons.IH assms by fastforce
qed simp

lemma metric_scoping_where:
  assumes "apply_metric_scoping en enc ctx owner metrics conds tree = Inr sc"
  shows "\<exists>rest. ms_where sc = conds @ rest"
proof -
  obtain ms pop where r: "rfold (guard_step en ctx) ms \<lparr>ms_where = conds @ pop, ms_fired = [], ms_warnings = []\<rparr> = Inr sc"
    using assms by (auto simp: apply_metric_scoping_def Let_def rbind_Inr_iff split: list.splits)
  have "\<exists>rest. ms_where sc = ms_where \<lparr>ms_where = conds @ pop, ms_fired = [], ms_warnings = []\<rparr> @ rest"
    by (rule rfold_extends [OF _ r]) (auto simp: guard_step_def add_guard_def map_sum_Inr_iff)
  then show ?thesis by auto
qed

text \<open>What planning has decided once it succeeds.\<close>

lemma scope_leaf_parts:
  assumes "scope_leaf en tss enc ctx owner metrics = Inr lo"
  obtains sh conds used pre pre_used guard_used sc where
    "resolve_dimensions (en_backend en) (lc_query ctx) (lc_sources ctx) owner (build_alias_tree owner (lc_sources ctx)) = Inr (lo_dimensions lo)"
    "bind_filters (en_cols en) (en_backend en) sh (sq_filters (lc_query ctx)) (lc_sources ctx) owner
      (Some (build_alias_tree owner (lc_sources ctx))) (Some (lc_policy ctx)) = Inr (conds, used)"
    "bind_filters (en_cols en) (en_backend en) [] (concat (map ts_prefilters tss)) (lc_sources ctx) owner
      (Some (build_alias_tree owner (lc_sources ctx))) (Some (lc_policy ctx)) = Inr (pre, pre_used)"
    "lo_where lo = conds @ pre"
    "plan_joins (en_map_tables en) owner (filter (\<lambda>a. a \<noteq> owner) (map fst (lo_dimensions lo) @ (used @ pre_used) @ guard_used))
      (lc_sources ctx) (if sq_via (lc_query ctx) = [] then None else Some (sq_via (lc_query ctx))) = Inr (lo_edges lo)"
    "tenant_conditions (lc_resolver ctx) owner (lo_edges lo) (build_alias_tree owner (lc_sources ctx)) (pr_tenants (lc_principal ctx))
      (lc_policy ctx) (lc_sources ctx) = Inr (lo_tenant lo)"
    "\<exists>rest. ms_where (lo_scoping lo) = map tenant_sql (tn_conditions (lo_tenant lo)) @ lo_where lo @ rest"
  using assms unfolding scope_leaf_def Let_def
  by (auto simp: rbind_Inr_iff case_prod_beta dest!: metric_scoping_where)

text \<open>What the additive builder emits: the scan, its WHERE, and the tables its other clauses read.\<close>

definition reads_only :: "string set \<Rightarrow> sql \<Rightarrow> bool" where
  "reads_only T e \<longleftrightarrow> aliases_in e \<subseteq> T"

lemma reads_only_mono: "reads_only T e \<Longrightarrow> T \<subseteq> U \<Longrightarrow> reads_only U e"
  unfolding reads_only_def by (rule subset_trans)

lemma reads_only_Col [simp]: "reads_only T (Col db t n) \<longleftrightarrow> t \<in> T"
  by (simp add: reads_only_def)

definition reads_tables :: "stmt \<Rightarrow> bool" where
  "reads_tables s \<longleftrightarrow>
     (\<forall>en\<in>set (projections s). reads_only (set (table_aliases s)) (fst en)) \<and>
     (\<forall>es. distinct_on s = Some es \<longrightarrow> (\<forall>e\<in>set es. reads_only (set (table_aliases s)) e)) \<and>
     (\<forall>e\<in>set (grouped s). reads_only (set (table_aliases s)) e)"

lemma zip_reads_only: "(\<forall>e\<in>set es. reads_only T e) \<Longrightarrow> en \<in> set (zip es ns) \<Longrightarrow> reads_only T (fst en)"
  by (cases en) (auto dest: set_zip_leftD)

lemma masked_dimensions_aliases:
  assumes "rmap (masked_dimension cols bk sh dm) dims = Inr des" and "e \<in> set des" and "adapter_reads_argument bk"
    and "\<forall>ad\<in>set dims. bare_dimension bk (snd ad) \<and> fst ad \<in> T"
  shows "reads_only T e"
proof -
  obtain ad where "ad \<in> set dims" "masked_dimension cols bk sh dm ad = Inr e" using rmap_origin [OF assms(1,2)] by blast
  then show ?thesis using masked_dimension_aliases [OF _ assms(3), of cols sh dm ad e] assms(4) by (auto simp: reads_only_def)
qed

lemma named_measures_aliases:
  assumes "named_measures bk table metrics as = Inr mes" and "(e, n) \<in> set mes"
    and "\<forall>m\<in>set metrics. bare bk (me_expr (rm_measure m)) \<and> table m = a"
  shows "reads_only {a} e"
proof -
  obtain im where im: "im \<in> set (enumerate_list metrics)" "measure_expr bk (table (snd im)) (rm_measure (snd im)) = Inr e"
    using rmap_origin [of _ "enumerate_list metrics" mes "(e, n)"] assms(1,2)
    by (fastforce simp: named_measures_def case_prod_beta rbind_Inr_iff map_sum_Inr_iff)
  then have "snd im \<in> set metrics" by (metis image_eqI list.set_map map_snd_enumerate)
  then show ?thesis using measure_expr_aliases [OF im(2)] assms(3) by (simp add: reads_only_def)
qed

lemma simple_reads_tables:
  assumes "build_simple cols bk sh owner metrics dims conds edges srcs as dm = Inr s" and "adapter_reads_argument bk"
    and "\<forall>ad\<in>set dims. bare_dimension bk (snd ad) \<and> fst ad \<in> set (owner # map je_alias edges)"
    and "\<forall>m\<in>set metrics. bare bk (me_expr (rm_measure m)) \<and> rm_source m = owner"
  shows "table_aliases s = owner # map je_alias edges \<and> wheres s = conds \<and> reads_tables s \<and> scan_of s = s"
proof -
  obtain des mes f js where p: "rmap (masked_dimension cols bk sh dm) dims = Inr des"
    "named_measures bk rm_source metrics as = Inr mes" "from_and_joins bk owner edges srcs = Inr (f, js)"
    "s = Stmt (zip des (dimension_output_names dims) @ mes) None f js conds des"
    using assms(1) by (auto simp: build_simple_def rbind_Inr_iff)
  have t: "table_aliases s = owner # map je_alias edges" "scan_of s = s"
    using from_and_joins_table [OF p(3)] p(4) by (auto simp: table_aliases_def scan_of_def)
  have d: "\<forall>e\<in>set des. reads_only (set (table_aliases s)) e"
    unfolding t(1) using masked_dimensions_aliases [OF p(1) _ assms(2,3)] by blast
  have m: "reads_only (set (table_aliases s)) (fst en)" if "en \<in> set mes" for en
    using named_measures_aliases [OF p(2), of "fst en" "snd en" owner] that assms(4) t(1) by (auto intro: reads_only_mono)
  have "reads_tables s" unfolding reads_tables_def using d m zip_reads_only [OF d] p(4) by auto
  then show ?thesis using t p(4) by simp
qed

lemma deduped_reads_tables:
  assumes "build_deduped cols bk sh owner metrics dims conds edges srcs as dm = Inr s" and "adapter_reads_argument bk"
    and "\<forall>ad\<in>set dims. bare_dimension bk (snd ad) \<and> fst ad \<in> set (owner # map je_alias edges)"
    and "\<forall>m\<in>set metrics. bare bk (me_expr (rm_measure m)) \<and> rm_source m = owner"
  shows "table_aliases (scan_of s) = owner # map je_alias edges \<and> wheres (scan_of s) = conds \<and> reads_tables (scan_of s) \<and>
    reads_tables s"
proof -
  obtain inner mes where p: "build_dedup_inner cols bk sh owner dims metrics conds edges srcs dm = Inr inner"
    "named_measures bk (\<lambda>_. DEDUP_ALIAS) metrics as = Inr mes"
    "s = Stmt (zip (map (Col [] DEDUP_ALIAS) (dimension_output_names dims)) (dimension_output_names dims) @ mes) None
      (FromStmt inner DEDUP_ALIAS) [] [] (map (Col [] DEDUP_ALIAS) (dimension_output_names dims))"
    using assms(1) by (auto simp: build_deduped_def rbind_Inr_iff Let_def)
  have scan: "scan_of s = inner" using p(3) by (simp add: scan_of_def)
  obtain src des inputs f js where q: "rmap (masked_dimension cols bk sh dm) dims = Inr des" "measure_inputs bk metrics = Inr inputs"
    "from_and_joins bk owner edges srcs = Inr (f, js)" "map_of srcs owner = Some src"
    "inner = Stmt (zip des (dimension_output_names dims) @ map (\<lambda>(c, e). (e, c)) inputs)
      (Some (map (Col [] owner) (ss_grain src))) f js conds []"
    using p(1) by (auto simp: build_dedup_inner_def rbind_Inr_iff split: option.splits)
  have t: "table_aliases inner = owner # map je_alias edges"
    using from_and_joins_table [OF q(3)] q(5) by (auto simp: table_aliases_def)
  have d: "\<forall>e\<in>set des. reads_only (set (table_aliases inner)) e"
    unfolding t using masked_dimensions_aliases [OF q(1) _ assms(2,3)] by blast
  have i: "reads_only (set (table_aliases inner)) e" if "(c, e) \<in> set inputs" for c e
  proof -
    obtain iss where iss: "rmap (\<lambda>m. map_sum id (map (\<lambda>c. (c, Col [] (rm_source m) c))) (input_columns bk (rm_measure m))) metrics = Inr iss"
      "inputs = map (\<lambda>c. (c, the (map_of (concat iss) c))) (sorted_set (map fst (concat iss)))"
      using q(2) by (auto simp: measure_inputs_def rbind_Inr_iff)
    then have c: "c \<in> fst ` set (concat iss)" "e = the (map_of (concat iss) c)" using that by auto
    then obtain k where "map_of (concat iss) c = Some k" by (metis map_of_eq_None_iff not_None_eq)
    then have "(c, e) \<in> set (concat iss)" using c(2) map_of_SomeD [of "concat iss" c k] by simp
    then obtain ys where ys: "ys \<in> set iss" "(c, e) \<in> set ys" by auto
    from rmap_origin [OF iss(1) ys(1)] obtain m where "m \<in> set metrics" "e = Col [] (rm_source m) c"
      using ys(2) by (auto simp: map_sum_Inr_iff)
    then show ?thesis using assms(4) t by simp
  qed
  have "reads_tables inner" unfolding reads_tables_def using zip_reads_only [OF d] i t q(5) by auto
  moreover have m: "reads_only {DEDUP_ALIAS} (fst en)" if "en \<in> set mes" for en
    using named_measures_aliases [OF p(2), of "fst en" "snd en" DEDUP_ALIAS] that assms(4) by simp
  have z: "reads_only {DEDUP_ALIAS} (fst en)" if "en \<in> set (zip (map (Col [] DEDUP_ALIAS) ns) ns)" for en ns
    by (rule zip_reads_only [OF _ that]) simp
  have "reads_tables s" unfolding reads_tables_def using m z p(3) by (auto simp: table_aliases_def)
  ultimately show ?thesis using scan t q(5) by simp
qed

lemma emitted_additive:
  assumes "emit_for en tss ctx owner lo None metrics prefix = Inr (ss, aux)"
  obtains sh s where "ss = [s]" "aux = []"
    "enforce_safety_floor (en_find_agg en) (map lm_resolved metrics) (fans_out (lo_edges lo)) (map (dim_name \<circ> snd) (lo_dimensions lo)) = Inr ()"
    "(if fans_out (lo_edges lo) then build_deduped else build_simple) (en_cols en) (en_backend en) sh owner (map lm_resolved metrics)
      (lo_dimensions lo) (ms_where (lo_scoping lo)) (lo_edges lo) (lc_sources ctx) (map output_alias metrics)
      (resolve_dim_mask (build_alias_tree owner (lc_sources ctx)) (ep_masking (lc_policy ctx))) = Inr s"
  using assms by (auto simp: emit_for_def Let_def build_additive_def rbind_Inr_iff map_sum_Inr_iff)



section \<open>Witnesses\<close>

definition leaf_backend :: backend where
  "leaf_backend = shop_backend\<lparr>bk_parse := map_of
     [(''id = 1'', comparison ''id''), (''customer_no = 1'', comparison ''customer_no''),
      (''buyer.id = 1'', Op ''EQ'' [Col [] ''buyer'' ''id'', Op ''?'' []]), (''sum(id)'', Op ''Sum'' [Col [] [] ''id'']),
      (''k = k'', Op ''EQ'' [])]\<rparr>"

definition leaf_engine :: engine where
  "leaf_engine = \<lparr>en_cols = (\<lambda>_. None), en_backend = leaf_backend, en_map_tables = (\<lambda>_ s. s), en_render = (\<lambda>_. ''e''),
     en_find_agg = (\<lambda>_. Some Sum), en_to_zone = (\<lambda>_ d. Some d), en_instant = (\<lambda>_. Datetime (Date 2026 1 1) 0),
     en_isoformat = (\<lambda>_ _. ''w'')\<rparr>"

definition mandatory :: "string \<Rightarrow> guardrail" where
  "mandatory f = \<lparr>gr_id = ''g'', gr_applies_to = \<lparr>at_source = Some ''orders'', at_measure = None, at_metric = None\<rparr>,
     gr_kind = MANDATORY_FILTER, gr_filter = Some f, gr_restrict_to = None, gr_level = None, gr_dimension = None,
     gr_context = None, gr_severity = ERROR_SEV, gr_rationale = ''why'', gr_knowledge_refs = [], gr_provenance = INFERRED\<rparr>"

definition leaf_query :: "string list \<Rightarrow> string list \<Rightarrow> semantic_query" where
  "leaf_query ds fs = \<lparr>sq_metrics = [''revenue''], sq_dimensions = ds, sq_filters = fs, sq_via = [], sq_context = None,
     sq_limit = None, sq_as_of = None, sq_time_range = None\<rparr>"

definition leaf_ctx :: "guardrail list \<Rightarrow> string list \<Rightarrow> leaf_context" where
  "leaf_ctx gs ds = \<lparr>lc_query = leaf_query ds [''id = 1''], lc_resolver = mk_resolver [] gs [] [] (Some shop_tenancy) None,
     lc_sources = shop_sources, lc_principal = \<lparr>pr_tenants = [TInt 7], pr_roles = [], pr_source = [], pr_system_exempt = False\<rparr>,
     lc_policy = open_policy False\<rparr>"

definition revenue_metric :: "string option \<Rightarrow> leaf_metric" where
  "revenue_metric pop = \<lparr>lm_resolved = union_metric, lm_population = pop, lm_alias = Some ''revenue''\<rparr>"

definition shop_leaf :: leaf_scope where
  "shop_leaf = projr (scope_leaf leaf_engine [] [] (leaf_ctx [] [''customer_no'']) ''orders'' [revenue_metric None])"



definition fan_ctx :: leaf_context where
  "fan_ctx = (leaf_ctx [] [''customer_no''])\<lparr>lc_sources :=
     map (\<lambda>(n, s). (n, s\<lparr>ss_joins := map (\<lambda>j. j\<lparr>jn_relationship := ONE_TO_MANY\<rparr>) (ss_joins s), ss_grain := [''id'']\<rparr>)) shop_sources\<rparr>"

definition fan_leaf :: leaf_scope where
  "fan_leaf = projr (scope_leaf leaf_engine [] [] fan_ctx ''orders'' [revenue_metric None])"


text \<open>
  A guardrail is joined by the alias its filter reaches but bound to the name of the source behind the
  alias: on a named join the WHERE of the leaf names a table that is not joined.
\<close>

lemma guardrail_condition_names_unjoined_table:
  "map_sum id (\<lambda>lo. (map je_alias (lo_edges lo), map fst (columns (List.last (ms_where (lo_scoping lo))))))
     (scope_leaf leaf_engine [] [] (leaf_ctx [mandatory ''customer_no = 1''] []) ''orders'' [revenue_metric None]) =
   Inr ([''buyer''], [''customers''])"
  by code_simp

text \<open>
  A population filter passes validation when the bare names in it are columns of the source, but is bound
  by its role: the joins of the leaf do not take it into account, and the WHERE names a table that is not joined.
\<close>

lemma population_filter_names_unjoined_table:
  "validate_population_filter leaf_backend (plain_binding ''revenue'' []
      ((single_ref ''orders'' ''revenue'')\<lparr>cr_population_filter := Some ''buyer.id = 1''\<rparr>)) [] shop_sources = Inr () \<and>
   map_sum id (\<lambda>lo. (map je_alias (lo_edges lo), map fst (columns (List.last (ms_where (lo_scoping lo))))))
     (scope_leaf leaf_engine [] [] (leaf_ctx [] []) ''orders'' [revenue_metric (Some ''buyer.id = 1'')]) =
   Inr ([], [''buyer''])"
  by code_simp

end
