(* ===== verification/Compose.thy ===== *)
theory Compose
  imports Leaf
begin

text \<open>
  \<^verbatim>\<open>src/canonic/compiler/compose.py\<close>: planned leaves fused into common table expressions and assembled into
  one statement over a spine of their dimension tuples. The second half gives the statement a meaning: an
  evaluator for the expressions and the joins, with SQL's three-valued logic, over the rows of the leaves.
  Theorems say that fusion keeps every leaf's plan and columns, that the composed statement has one row per
  dimension tuple with each metric's value or NULL, and what the guarded divisions mean.
\<close>

section \<open>Metric plans\<close>

datatype combine = DIRECT | RATIO_NULL | RATIO_ZERO | RATIO_RAW | DERIVED_C

record leaf_ref =
  lr_leaf :: nat
  lr_column :: string

record accumulate =
  ac_order_by :: "string list"
  ac_partition_by :: "string list"
  ac_fill_observed :: bool
  ac_visibility :: bool

datatype metric_plan = MetricPlan (mp_name: string) (mp_refs: "leaf_ref list") (mp_combine: combine)
    (mp_accumulate: "accumulate option") (mp_cumulative: bool) (mp_operands: "metric_plan list")
    (mp_template: "sql option") (mp_division: "combine option")

text \<open>\<^verbatim>\<open>MetricPlan.shifted\<close> and \<^verbatim>\<open>MetricPlan.walk\<close>\<close>

fun plan_shifted :: "nat \<Rightarrow> metric_plan \<Rightarrow> metric_plan" where
  "plan_shifted by (MetricPlan n refs c a cu ops t d) =
     MetricPlan n (map (\<lambda>r. r\<lparr>lr_leaf := lr_leaf r + by\<rparr>) refs) c a cu (map (plan_shifted by) ops) t d"

fun plan_walk :: "metric_plan \<Rightarrow> metric_plan list" where
  "plan_walk (MetricPlan n refs c a cu ops t d) = MetricPlan n refs c a cu ops t d # concat (map plan_walk ops)"

definition operand_placeholder :: "nat \<Rightarrow> string" where
  "operand_placeholder i = ''_op'' @ show_nat i"

section \<open>Fusion\<close>

record physical =
  ph_key_leaf :: leaf_plan
  ph_metrics :: "leaf_metric list"
  ph_columns :: "string list"
  ph_fired :: "fired_guardrail list"
  ph_warnings :: "string list"
  ph_used :: "string list"
  ph_scoped :: "string list"
  ph_shared :: "string list"
  ph_finality :: "finality_metadata option"

definition projects_is_final :: "physical \<Rightarrow> bool" where
  "projects_is_final p \<longleftrightarrow> lp_finality (ph_key_leaf p) \<noteq> None"

definition new_physical :: "leaf_plan \<Rightarrow> physical" where
  "new_physical lp = \<lparr>ph_key_leaf = lp, ph_metrics = [], ph_columns = [], ph_fired = [], ph_warnings = [],
     ph_used = [], ph_scoped = [], ph_shared = [], ph_finality = None\<rparr>"

text \<open>The columns of a leaf a common table expression does not project yet.\<close>

definition add_column :: "leaf_metric \<times> string \<Rightarrow> physical \<Rightarrow> physical" where
  "add_column mc p = (if snd mc \<in> set (ph_columns p) then p
     else p\<lparr>ph_columns := ph_columns p @ [snd mc], ph_metrics := ph_metrics p @ [fst mc]\<rparr>)"

definition add_columns :: "leaf_plan \<Rightarrow> physical \<Rightarrow> physical" where
  "add_columns lp p = fold add_column (zip (lp_metrics lp) (lp_aliases lp)) p"

definition merge_into :: "leaf_plan \<Rightarrow> physical \<Rightarrow> physical" where
  "merge_into lp p =
     p\<lparr>ph_fired := ph_fired p @ filter (\<lambda>g. fg_id g \<notin> set (map fg_id (ph_fired p))) (lp_fired lp),
       ph_warnings := fold (\<lambda>w ws. if w \<in> set ws then ws else ws @ [w]) (lp_warnings lp) (ph_warnings p),
       ph_used := dedup (ph_used p @ lp_used_sources lp),
       ph_scoped := dedup (ph_scoped p @ lp_scoped lp),
       ph_shared := dedup (ph_shared p @ lp_shared lp),
       ph_finality := (if lp_finality lp \<noteq> None then lp_finality lp else ph_finality p)\<rparr>"

text \<open>
  The dictionary key of a leaf: the key without the measures when another measure may join it, the whole
  key otherwise. The two shapes of tuple are never equal.
\<close>

definition group_key :: "leaf_plan \<Rightarrow> leaf_key + leaf_key" where
  "group_key lp =
     (if lp_fusable lp then Inl ((lp_key lp)\<lparr>lk_measures := []\<rparr>) else Inr (lp_key lp))"

fun fuse_from :: "bool \<Rightarrow> leaf_plan list \<Rightarrow> physical list \<Rightarrow> (leaf_key + leaf_key, nat) dict \<Rightarrow> nat list \<Rightarrow> physical list \<times> nat list" where
  "fuse_from dedup_on [] phys by_key owner_of = (phys, owner_of)"
| "fuse_from dedup_on (lp # lps) phys by_key owner_of =
     (case (if dedup_on then map_of by_key (group_key lp) else None) of
        Some i \<Rightarrow>
          fuse_from dedup_on lps (phys[i := merge_into lp (add_columns lp (phys ! i))]) by_key (owner_of @ [i])
      | None \<Rightarrow>
          fuse_from dedup_on lps (phys @ [merge_into lp (add_columns lp (new_physical lp))])
            (if dedup_on then (group_key lp, length phys) # by_key else by_key) (owner_of @ [length phys]))"

definition fuse :: "bool \<Rightarrow> leaf_plan list \<Rightarrow> physical list \<times> nat list" where
  "fuse dedup_on lps = fuse_from dedup_on lps [] [] []"

section \<open>Zero denominators\<close>

definition SUBSTITUTING :: "combine list" where
  "SUBSTITUTING = [RATIO_NULL, RATIO_ZERO]"

definition zero_denominator_warning :: "string \<Rightarrow> nat option \<Rightarrow> string" where
  "zero_denominator_warning metric rows =
     ''zero denominator'' @ (case rows of None \<Rightarrow> [] | Some n \<Rightarrow> '' in '' @ show_nat n @ '' row'' @ (if n = 1 then [] else ''s'')) @
     '' for metric '' @ QUOTE # metric @ QUOTE # '' yields NULL (on_zero_denominator=null)''"

definition zero_denominator_column :: "string \<Rightarrow> string" where
  "zero_denominator_column metric = ''_canonic_zero_denominator_'' @ metric"

definition zero_denominator_policy :: "metric_plan \<Rightarrow> combine option" where
  "zero_denominator_policy m =
     (if mp_accumulate m \<noteq> None then None
      else if mp_combine m = DERIVED_C then mp_division m
      else if mp_combine m \<noteq> DIRECT then Some (mp_combine m) else None)"

definition substitutes_zero_denominator :: "metric_plan \<Rightarrow> bool" where
  "substitutes_zero_denominator m \<longleftrightarrow> zero_denominator_policy m \<in> Some ` set SUBSTITUTING"

definition nulls_zero_denominator :: "metric_plan \<Rightarrow> bool" where
  "nulls_zero_denominator m \<longleftrightarrow> list_ex (\<lambda>p. zero_denominator_policy p = Some RATIO_NULL) (plan_walk m)"

definition counts_zero_denominator :: "metric_plan \<Rightarrow> bool" where
  "counts_zero_denominator m \<longleftrightarrow> substitutes_zero_denominator m \<or> nulls_zero_denominator m"

section \<open>Expressions\<close>

definition number :: "nat \<Rightarrow> sql" where
  "number n = Op (''number '' @ show_nat n) []"

definition SQL_NULL :: sql where
  "SQL_NULL = Op ''Null'' []"

definition guard_division :: "sql \<Rightarrow> sql \<Rightarrow> combine \<Rightarrow> sql" where
  "guard_division n d c =
     (if c = RATIO_RAW then Op ''Div'' [n, d]
      else (let guarded = Op ''Div'' [n, Op ''Nullif'' [d, number 0]]
            in if c = RATIO_ZERO then Op ''Coalesce'' [guarded, number 0] else guarded))"

definition combine_expr :: "metric_plan \<Rightarrow> sql list \<Rightarrow> sql res" where
  "combine_expr m cols =
     (if mp_combine m = DIRECT then (case cols of [] \<Rightarrow> Inl IndexError | c # _ \<Rightarrow> Inr c)
      else (case cols of [n, d] \<Rightarrow> Inr (guard_division n d (mp_combine m)) | _ \<Rightarrow> Inl ValueError))"

definition GRAIN :: string where "GRAIN = ''_grain''"
definition IS_FINAL :: string where "IS_FINAL = ''is_final''"
definition VISIBLE_CTE :: string where "VISIBLE_CTE = ''visible''"
definition ACCUMULATED :: string where "ACCUMULATED = ''_accumulated''"
definition VISIBLE_GRAIN :: string where "VISIBLE_GRAIN = ''_visible_grain''"
definition ORDER_RANK :: string where "ORDER_RANK = ''_order_rank''"
definition FIRST_RANK :: string where "FIRST_RANK = ''_first_rank''"

text \<open>Ascending keys behind an indicator for NULL, so that NULL sorts last everywhere.\<close>

definition order_keys :: "string \<Rightarrow> string list \<Rightarrow> sql list" where
  "order_keys table names =
     concat (map (\<lambda>n. [Op ''Asc'' [Op ''Case'' [Op ''Is'' [Col [] table n, SQL_NULL], number 1, number 0]], Op ''Asc'' [Col [] table n]]) names)"

definition running :: "sql \<Rightarrow> accumulate \<Rightarrow> sql" where
  "running f acc =
     Op ''Window'' [f, Op ''PartitionBy'' (map (Col [] GRAIN) (ac_partition_by acc)), Op ''Order'' (order_keys GRAIN (ac_order_by acc)),
       Op ''ROWS UNBOUNDED PRECEDING'' []]"

definition accumulate_expr :: "accumulate \<Rightarrow> sql \<Rightarrow> sql" where
  "accumulate_expr acc v =
     Op ''Case'' [Op ''EQ'' [running (Op ''Count'' [v]) acc, number 0], SQL_NULL,
       running (Op ''Sum'' [Op ''Coalesce'' [v, number 0]]) acc]"

text \<open>Each placeholder of a derived template stands for the value of its input.\<close>

definition substitute :: "(string, sql) dict \<Rightarrow> sql \<Rightarrow> sql" where
  "substitute values e =
     map_columns (\<lambda>db t n. if t = [] then (case map_of values n of None \<Rightarrow> Col db t n | Some v \<Rightarrow> Op ''Paren'' [v]) else Col db t n) e"

definition placed :: "sql list \<Rightarrow> (string, sql) dict" where
  "placed vs = map (\<lambda>(i, v). (operand_placeholder i, v)) (enumerate_list vs)"

fun metric_value :: "(metric_plan \<Rightarrow> sql list) \<Rightarrow> metric_plan \<Rightarrow> sql res" where
  "metric_value columns_of (MetricPlan n refs c a cu ops t d) =
     (if c = DERIVED_C then
        (case t of
           None \<Rightarrow> Inl AssertionError
         | Some e \<Rightarrow> rbind (rmap (metric_value columns_of) ops) (\<lambda>vs. Inr (substitute (placed vs) e)))
      else rbind (combine_expr (MetricPlan n refs c a cu ops t d) (columns_of (MetricPlan n refs c a cu ops t d))) (\<lambda>v.
        Inr (case a of None \<Rightarrow> v | Some acc \<Rightarrow> accumulate_expr acc v)))"

text \<open>The divisions of a template that are guarded, with their denominators.\<close>

fun guarded_denominators :: "sql \<Rightarrow> sql list" where
  "guarded_denominators (Col db t n) = []"
| "guarded_denominators (Op f es) =
     (case (f = ''Div'', es) of (True, [n, Op g [d, z]]) \<Rightarrow> (if g = ''Nullif'' then [d] else []) | _ \<Rightarrow> []) @
     concat (map guarded_denominators es)"

definition own_denominators :: "(metric_plan \<Rightarrow> sql list) \<Rightarrow> metric_plan \<Rightarrow> sql list res" where
  "own_denominators columns_of m =
     (if mp_combine m \<noteq> DERIVED_C then (case columns_of m of n # d # _ \<Rightarrow> Inr [d] | _ \<Rightarrow> Inl IndexError)
      else (case mp_template m of
          None \<Rightarrow> Inl AssertionError
        | Some e \<Rightarrow> rbind (rmap (metric_value columns_of) (mp_operands m)) (\<lambda>vs.
            Inr (map (substitute (placed vs)) (guarded_denominators e)))))"

definition counted_denominators :: "(metric_plan \<Rightarrow> sql list) \<Rightarrow> metric_plan \<Rightarrow> sql list res" where
  "counted_denominators columns_of m =
     rbind (if substitutes_zero_denominator m then own_denominators columns_of m else Inr []) (\<lambda>own.
     rbind (rmap (own_denominators columns_of)
         (filter (\<lambda>p. zero_denominator_policy p = Some RATIO_NULL) (concat (map plan_walk (mp_operands m))))) (\<lambda>nested.
       Inr (own @ concat nested)))"

definition zero_denominator_flag :: "sql list \<Rightarrow> sql" where
  "zero_denominator_flag ds = Op ''Case'' [Op ''Or'' (map (\<lambda>d. Op ''EQ'' [d, number 0]) ds), number 1, number 0]"

text \<open>Equality of columns, where two NULLs match.\<close>

definition null_safe_join_on :: "string \<Rightarrow> string \<Rightarrow> string list \<Rightarrow> sql" where
  "null_safe_join_on spine lp cs =
     Op ''And'' (map (\<lambda>c. Op ''Paren'' [Op ''Or'' [Op ''EQ'' [Col [] spine c, Col [] lp c],
       Op ''And'' [Op ''Is'' [Col [] spine c, SQL_NULL], Op ''Is'' [Col [] lp c, SQL_NULL]]]]) cs)"

section \<open>The composed statement\<close>

datatype cte_stmt = CteStmt (cs_projections: "(sql \<times> string) list") (cs_distinct: bool) (cs_from: cte_from)
    (cs_joins: "(join_kind \<times> cte_from \<times> sql option) list") (cs_where: "sql list") (cs_group: "sql list")
  and cte_from = CteTable string | CteSub cte_stmt string

datatype cte_body = LeafBody "stmt list" | UnionBody "cte_stmt list"

text \<open>Common table expressions in the order they are declared, and the statement over them.\<close>

record composed =
  cm_ctes :: "(string \<times> cte_body) list"
  cm_final :: cte_body

definition dims_from :: "string \<Rightarrow> string list \<Rightarrow> cte_stmt" where
  "dims_from table dims = CteStmt (map (\<lambda>d. (Col [] table d, d)) dims) False (CteTable table) [] [] []"

definition build_spine :: "string list \<Rightarrow> physical list \<Rightarrow> string list \<Rightarrow> bool \<Rightarrow> string list \<Rightarrow> cte_body" where
  "build_spine names phys dims with_is_final extra =
     UnionBody (map (\<lambda>(name, p). CteStmt (map (\<lambda>d. (Col [] name d, d)) dims @
         (if with_is_final then [(if projects_is_final p then Col [] name IS_FINAL else Op ''TRUE'' [], IS_FINAL)] else []))
         False (CteTable name) [] [] []) (zip names phys) @ map (\<lambda>n. dims_from n dims) extra)"

definition fill_observed :: "string \<Rightarrow> string \<Rightarrow> accumulate \<Rightarrow> string list \<Rightarrow> cte_stmt \<times> cte_stmt" where
  "fill_observed lp rank_name acc dims =
     (let ranked = CteStmt (map (\<lambda>d. (Col [] lp d, d)) dims @
            [(Op ''Window'' [Op ''DENSE_RANK'' [], Op ''Order'' (order_keys lp (ac_order_by acc))], ORDER_RANK)])
            False (CteTable lp) [] [] [];
          tuples = CteStmt (map (\<lambda>c. (Col [] rank_name c, c)) (ac_order_by acc @ [ORDER_RANK])) True (CteTable rank_name) [] [] [];
          partitions = CteStmt (map (\<lambda>c. (Col [] rank_name c, c)) (ac_partition_by acc) @
            [(Op ''Min'' [Col [] rank_name ORDER_RANK], FIRST_RANK)]) False (CteTable rank_name) [] []
            (map (Col [] rank_name) (ac_partition_by acc))
      in (ranked, CteStmt (map (\<lambda>d. (Col [] (if d \<in> set (ac_order_by acc) then ''t'' else ''p'') d, d)) dims) False (CteSub tuples ''t'')
            [(CROSS_JOIN, CteSub partitions ''p'', None)] [Op ''GTE'' [Col [] ''t'' ORDER_RANK, Col [] ''p'' FIRST_RANK]] []))"

definition build_visible_spine :: "string list \<Rightarrow> (string, accumulate) dict \<Rightarrow> (string, accumulate) dict \<Rightarrow> string list \<Rightarrow> cte_body" where
  "build_visible_spine names visible fills dims =
     UnionBody (concat (map (\<lambda>name. map (\<lambda>source.
         (case map_of visible name of
            None \<Rightarrow> dims_from source dims
          | Some acc \<Rightarrow> CteStmt (map (\<lambda>d. (Col [] source d, d)) dims) False (CteTable source)
              [(INNER_JOIN, CteTable (name @ ''__'' @ VISIBLE_CTE),
                Some (null_safe_join_on source (name @ ''__'' @ VISIBLE_CTE) (ac_order_by acc)))] [] []))
       (name # (if map_of fills name \<noteq> None then [name @ ''__fill''] else []))) names))"

text \<open>Finality, guardrails and warnings over all leaves.\<close>

definition merge_finality :: "physical list \<Rightarrow> finality_metadata option" where
  "merge_finality phys =
     (let fs = List.map_filter ph_finality phys
      in if fs = [] then None
         else Some \<lparr>fm_watermark = Min (set (map fm_watermark fs)), fm_sources = sorted_set (concat (map fm_sources fs)), fm_flag = ''per_row''\<rparr>)"

fun guardrail_kind_value :: "guardrail_kind \<Rightarrow> string" where
  "guardrail_kind_value MANDATORY_FILTER = ''mandatory_filter''"
| "guardrail_kind_value REQUIRED_DIMENSION = ''required_dimension''"
| "guardrail_kind_value RESTRICT_SOURCE = ''restrict_source''"
| "guardrail_kind_value MIN_TRUST = ''min_trust''"

definition merged_guardrails :: "physical list \<Rightarrow> fired_guardrail list" where
  "merged_guardrails phys =
     sort_key (\<lambda>g. [fg_id g, guardrail_kind_value (fg_kind g)])
       (fold (\<lambda>g gs. if fg_id g \<in> set (map fg_id gs) then gs else gs @ [g]) (concat (map ph_fired phys)) [])"

definition merged_warnings :: "physical list \<Rightarrow> string list" where
  "merged_warnings phys = fold (\<lambda>w ws. if w \<in> set ws then ws else ws @ [w]) (concat (map ph_warnings phys)) []"

record compose_result =
  co_ast :: composed
  co_guardrails :: "fired_guardrail list"
  co_warnings :: "string list"
  co_freshness :: "(string \<times> datetime option) list"
  co_finality :: "finality_metadata option"
  co_cte_count :: nat
  co_scoped :: "string list"
  co_shared :: "string list"

definition freshness_of :: "sources \<Rightarrow> string \<Rightarrow> (string \<times> datetime option) res" where
  "freshness_of srcs s =
     (case map_of srcs s of None \<Rightarrow> Inl KeyError | Some src \<Rightarrow> Inr (ss_name src, sm_last_validated_at (ss_meta src)))"

definition compose_result_of :: "physical list \<Rightarrow> sources \<Rightarrow> composed \<Rightarrow> nat \<Rightarrow> compose_result res" where
  "compose_result_of phys srcs ast n =
     rbind (rmap (freshness_of srcs) (sorted_set (concat (map ph_used phys)))) (\<lambda>fresh.
       Inr \<lparr>co_ast = ast, co_guardrails = merged_guardrails phys, co_warnings = merged_warnings phys, co_freshness = fresh,
            co_finality = merge_finality phys, co_cte_count = n, co_scoped = dedup (concat (map ph_scoped phys)),
            co_shared = dedup (concat (map ph_shared phys))\<rparr>)"

text \<open>The plan identity of a common table expression as comparable text.\<close>

definition NUL :: string where "NUL = [CHR 0x00]"

definition sortable :: "physical \<Rightarrow> string list" where
  "sortable p =
     (let k = lp_key (ph_key_leaf p)
      in [lk_source k, lk_strategy k, join_with NUL (lk_dimensions k), join_with NUL (lk_dimension_exprs k),
          join_with NUL (lk_filters k), join_with NUL (map (\<lambda>(a, b, c). a @ ''|'' @ b @ ''|'' @ c) (lk_join_path k)),
          join_with NUL (lk_finality k), join_with NUL (map (\<lambda>(a, b). a @ ''='' @ b) (lk_params k)), join_with NUL (ph_columns p)])"

definition projection_is_already_the_output :: "metric_plan list \<Rightarrow> physical \<Rightarrow> bool" where
  "projection_is_already_the_output metrics p \<longleftrightarrow>
     list_all (\<lambda>m. mp_combine m = DIRECT) metrics \<and> map mp_name metrics = ph_columns p \<and>
     map lr_column (concat (map mp_refs metrics)) = ph_columns p"

text \<open>The positions of the physical expressions in key order, and the name each gets.\<close>

definition cte_order :: "physical list \<Rightarrow> nat list" where
  "cte_order phys = sort_key (\<lambda>i. sortable (phys ! i)) [0..<length phys]"

definition cte_name :: "nat list \<Rightarrow> nat \<Rightarrow> string" where
  "cte_name order i = ''_leaf_'' @ show_nat (length (takeWhile (\<lambda>j. j \<noteq> i) order))"

definition columns_for :: "nat list \<Rightarrow> nat list \<Rightarrow> metric_plan \<Rightarrow> sql list" where
  "columns_for order owner_of m = map (\<lambda>r. Col [] (cte_name order (owner_of ! lr_leaf r)) (lr_column r)) (mp_refs m)"

definition leaf_cte :: "string \<times> physical \<Rightarrow> (string \<times> cte_body) list res" where
  "leaf_cte np =
     rbind (lp_rebuild (ph_key_leaf (snd np)) (ph_metrics (snd np)) (fst np @ ''__'')) (\<lambda>(select, aux).
       Inr (map (\<lambda>c. (ax_name c, LeafBody (ax_body c))) aux @ [(fst np, LeafBody select)]))"

definition first_by_leaf :: "(metric_plan \<Rightarrow> string) \<Rightarrow> (accumulate \<Rightarrow> bool) \<Rightarrow> metric_plan list \<Rightarrow> (string, accumulate) dict" where
  "first_by_leaf leaf_name wanted metrics =
     fold (\<lambda>m d. case mp_accumulate m of
         None \<Rightarrow> d
       | Some acc \<Rightarrow> if wanted acc \<and> map_of d (leaf_name m) = None then d @ [(leaf_name m, acc)] else d) metrics []"

definition spine_join :: "string list \<Rightarrow> string \<times> physical \<Rightarrow> join_kind \<times> cte_from \<times> sql option" where
  "spine_join dims np =
     (LEFT_JOIN, CteTable (fst np),
      Some (if projects_is_final (snd np)
            then Op ''And'' [null_safe_join_on GRAIN (fst np) dims, Op ''EQ'' [Col [] GRAIN IS_FINAL, Col [] (fst np) IS_FINAL]]
            else null_safe_join_on GRAIN (fst np) dims))"

definition outer_projections :: "(metric_plan \<Rightarrow> sql list) \<Rightarrow> string \<Rightarrow> string list \<Rightarrow> metric_plan list \<Rightarrow> bool \<Rightarrow> bool \<Rightarrow> (sql \<times> string) list res" where
  "outer_projections columns_of dim_source dims metrics with_is_final visibility =
     rbind (rmap (\<lambda>(i, m). map_sum id (\<lambda>v. (v, if visibility then ''_m'' @ show_nat i else mp_name m)) (metric_value columns_of m))
         (enumerate_list metrics)) (\<lambda>values.
     rbind (rmap (\<lambda>m. map_sum id (\<lambda>ds. (zero_denominator_flag ds, zero_denominator_column (mp_name m))) (counted_denominators columns_of m))
         (filter counts_zero_denominator metrics)) (\<lambda>flags.
       Inr (map (\<lambda>d. (Col [] dim_source d, d)) dims @ values @
            (if with_is_final then [(Col [] dim_source IS_FINAL, IS_FINAL)] else []) @ flags)))"

definition outer_select :: "(sql \<times> string) list \<Rightarrow> bool \<Rightarrow> string list \<Rightarrow> (string \<times> physical) list \<Rightarrow> cte_stmt" where
  "outer_select projs single_cte dims named_phys =
     (let first = (case named_phys of [] \<Rightarrow> [] | np # _ \<Rightarrow> fst np)
      in if single_cte then CteStmt projs False (CteTable first) [] [] []
         else if dims \<noteq> [] then CteStmt projs False (CteTable GRAIN) (map (spine_join dims) named_phys) [] []
         else CteStmt projs False (CteTable first) (map (\<lambda>np. (CROSS_JOIN, CteTable (fst np), None)) (tl named_phys)) [] [])"

definition fill_ctes :: "string list \<Rightarrow> (string, accumulate) dict \<Rightarrow> (string \<times> cte_body) list" where
  "fill_ctes dims fills =
     concat (map (\<lambda>(name, acc).
       (case fill_observed name (name @ ''__order_rank'') acc dims of (ranked, fill) \<Rightarrow>
          [(name @ ''__order_rank'', UnionBody [ranked]), (name @ ''__fill'', UnionBody [fill])])) (sort_key fst fills))"

definition compose :: "leaf_plan list \<Rightarrow> metric_plan list \<Rightarrow> sources \<Rightarrow> bool \<Rightarrow> compose_result res" where
  "compose lps metrics srcs dedup_on =
     (case fuse dedup_on lps of (phys, owner_of) \<Rightarrow>
        (let order = cte_order phys;
             named_phys = map (\<lambda>i. (cte_name order i, phys ! i)) order;
             names = map fst named_phys;
             dims = (case lps of [] \<Rightarrow> [] | l # _ \<Rightarrow> lp_dim_names l);
             with_is_final = list_ex projects_is_final phys;
             plans = concat (map plan_walk metrics);
             accumulating = filter (\<lambda>m. mp_accumulate m \<noteq> None) plans;
             cumulative = filter (\<lambda>m. mp_accumulate m \<noteq> None \<or> mp_cumulative m) plans
         in if lps = [] then Inl IndexError
            else if cumulative \<noteq> [] \<and> with_is_final then Inl (CanonicError UnsupportedMeasure [mp_name (hd cumulative)] [])
            else if accumulating = [] \<and> length phys = 1 \<and> projection_is_already_the_output metrics (hd phys)
            then rbind (lp_rebuild (ph_key_leaf (hd phys)) (ph_metrics (hd phys)) []) (\<lambda>(select, aux).
              compose_result_of phys srcs
                \<lparr>cm_ctes = map (\<lambda>c. (ax_name c, LeafBody (ax_body c))) aux, cm_final = LeafBody select\<rparr> 0)
            else
              (let single_cte = (length phys = 1 \<and> accumulating = []);
                   dim_source = (if single_cte then hd names else GRAIN);
                   visibility = list_ex (\<lambda>m. case mp_accumulate m of None \<Rightarrow> False | Some a \<Rightarrow> ac_visibility a) accumulating;
                   columns_of = columns_for order owner_of;
                   leaf_name = (\<lambda>m. cte_name order (owner_of ! lr_leaf (hd (mp_refs m))));
                   fills = first_by_leaf leaf_name (\<lambda>a. ac_fill_observed a \<and> ac_partition_by a \<noteq> []) accumulating;
                   visible = first_by_leaf leaf_name ac_visibility accumulating
               in rbind (outer_projections columns_of dim_source dims metrics with_is_final visibility) (\<lambda>projs.
                  let outer = outer_select projs single_cte dims named_phys
                  in rbind (rmap leaf_cte named_phys) (\<lambda>leaf_ctes.
                     let final = (if visible = [] then outer
                           else CteStmt (map (\<lambda>(c, n). (Col [] ACCUMULATED c, n))
                               (map (\<lambda>d. (d, d)) dims @ map (\<lambda>(i, m). (''_m'' @ show_nat i, mp_name m)) (enumerate_list metrics)))
                             False (CteTable ACCUMULATED)
                             [(INNER_JOIN, CteTable VISIBLE_GRAIN, Some (null_safe_join_on ACCUMULATED VISIBLE_GRAIN dims))] [] []);
                         ctes = concat leaf_ctes @ fill_ctes dims fills @
                           (if \<not> single_cte \<and> dims \<noteq> []
                            then [(GRAIN, build_spine names (map snd named_phys) dims with_is_final
                                     (map (\<lambda>(n, a). n @ ''__fill'') (sort_key fst fills)))] else []) @
                           (if visible = [] then []
                            else [(ACCUMULATED, UnionBody [outer]), (VISIBLE_GRAIN, build_visible_spine names visible fills dims)])
                     in compose_result_of (map snd named_phys) srcs \<lparr>cm_ctes = ctes, cm_final = UnionBody [final]\<rparr> (length phys))))))"

section \<open>Fusion keeps plans and columns\<close>

definition projected :: "leaf_plan \<Rightarrow> (leaf_metric \<times> string) list" where
  "projected lp = zip (lp_metrics lp) (lp_aliases lp)"

text \<open>What holds of one common table expression while leaves are merged into it.\<close>

definition well_formed :: "leaf_plan set \<Rightarrow> physical \<Rightarrow> bool" where
  "well_formed L p \<longleftrightarrow> distinct (ph_columns p) \<and> length (ph_metrics p) = length (ph_columns p) \<and>
     (\<forall>mc\<in>set (zip (ph_metrics p) (ph_columns p)). \<exists>l\<in>L. group_key l = group_key (ph_key_leaf p) \<and> mc \<in> set (projected l))"

lemma add_columns_fold: "add_columns lp p = fold add_column (projected lp) p"
  by (simp add: add_columns_def projected_def)

lemma add_column_well_formed:
  assumes "well_formed L p" and "l \<in> L" and "group_key l = group_key (ph_key_leaf p)" and "mc \<in> set (projected l)"
  shows "well_formed L (add_column mc p)"
  using assms by (auto simp: well_formed_def add_column_def)

lemma add_columns_well_formed:
  assumes "well_formed L p" and "l \<in> L" and "group_key l = group_key (ph_key_leaf p)" and "set mcs \<subseteq> set (projected l)"
  shows "well_formed L (fold add_column mcs p) \<and> ph_key_leaf (fold add_column mcs p) = ph_key_leaf p \<and>
    set (ph_columns (fold add_column mcs p)) = set (ph_columns p) \<union> snd ` set mcs"
  using assms
proof (induction mcs arbitrary: p)
  case (Cons mc mcs)
  have k: "ph_key_leaf (add_column mc p) = ph_key_leaf p" "set (ph_columns (add_column mc p)) = insert (snd mc) (set (ph_columns p))"
    by (auto simp: add_column_def)
  have "well_formed L (add_column mc p)" using add_column_well_formed [OF Cons.prems(1-3), of mc] Cons.prems(4) by simp
  then show ?case using Cons.IH [of "add_column mc p"] Cons.prems k by auto
qed simp

lemma merge_into_simps [simp]:
  "ph_key_leaf (merge_into lp p) = ph_key_leaf p" "ph_columns (merge_into lp p) = ph_columns p"
  "ph_metrics (merge_into lp p) = ph_metrics p"
  by (simp_all add: merge_into_def)

lemma well_formed_merge [simp]: "well_formed L (merge_into lp p) = well_formed L p"
  by (simp add: well_formed_def)

lemma merged_leaf:
  assumes "well_formed L p" and "group_key lp = group_key (ph_key_leaf p)" and "lp \<in> L" and "length (lp_metrics lp) = length (lp_aliases lp)"
  shows "well_formed L (merge_into lp (add_columns lp p))" "ph_key_leaf (merge_into lp (add_columns lp p)) = ph_key_leaf p"
    "set (ph_columns (merge_into lp (add_columns lp p))) = set (ph_columns p) \<union> set (lp_aliases lp)"
proof -
  have "snd ` set (projected lp) = set (lp_aliases lp)"
    using assms(4) by (metis list.set_map map_snd_zip projected_def)
  then show "well_formed L (merge_into lp (add_columns lp p))" "ph_key_leaf (merge_into lp (add_columns lp p)) = ph_key_leaf p"
    "set (ph_columns (merge_into lp (add_columns lp p))) = set (ph_columns p) \<union> set (lp_aliases lp)"
    using add_columns_well_formed [OF assms(1,3,2), of "projected lp"]
    by (simp_all add: add_columns_fold)
qed

lemma well_formed_mono: "well_formed L p \<Longrightarrow> L \<subseteq> M \<Longrightarrow> well_formed M p"
  unfolding well_formed_def by blast

text \<open>What holds after the leaves \<open>seen\<close> have been fused.\<close>

definition fused :: "bool \<Rightarrow> leaf_plan list \<Rightarrow> physical list \<Rightarrow> (leaf_key + leaf_key, nat) dict \<Rightarrow> nat list \<Rightarrow> bool" where
  "fused dedup_on seen phys by_key owner_of \<longleftrightarrow>
     length owner_of = length seen \<and>
     (\<forall>j<length seen. owner_of ! j < length phys \<and> group_key (ph_key_leaf (phys ! (owner_of ! j))) = group_key (seen ! j) \<and>
        set (lp_aliases (seen ! j)) \<subseteq> set (ph_columns (phys ! (owner_of ! j)))) \<and>
     (\<forall>p\<in>set phys. well_formed (set seen) p) \<and>
     (\<forall>k i. map_of by_key k = Some i \<longrightarrow> i < length phys \<and> group_key (ph_key_leaf (phys ! i)) = k) \<and>
     (dedup_on \<longrightarrow> distinct (map (group_key \<circ> ph_key_leaf) phys) \<and>
        (\<forall>p\<in>set phys. map_of by_key (group_key (ph_key_leaf p)) \<noteq> None)) \<and>
     (\<not> dedup_on \<longrightarrow> owner_of = [0..<length seen] \<and> length phys = length seen)"

lemma fused_join:
  assumes f: "fused True seen phys by_key owner_of" and i: "map_of by_key (group_key lp) = Some i"
    and len: "length (lp_metrics lp) = length (lp_aliases lp)"
  shows "fused True (seen @ [lp]) (phys[i := merge_into lp (add_columns lp (phys ! i))]) by_key (owner_of @ [i])"
proof -
  let ?p = "phys ! i" and ?q = "merge_into lp (add_columns lp (phys ! i))"
  have ib: "i < length phys" "group_key (ph_key_leaf ?p) = group_key lp" using f i by (auto simp: fused_def)
  have "well_formed (set (seen @ [lp])) ?p" using f ib by (auto simp: fused_def intro: well_formed_mono)
  from merged_leaf [OF this _ _ len] ib(2)
  have q: "well_formed (set (seen @ [lp])) ?q" "ph_key_leaf ?q = ph_key_leaf ?p"
    "set (ph_columns ?q) = set (ph_columns ?p) \<union> set (lp_aliases lp)" by auto
  have keys: "map (group_key \<circ> ph_key_leaf) (phys[i := ?q]) = map (group_key \<circ> ph_key_leaf) phys"
    using ib(1) q(2) by (auto simp: map_update list_update_same_conv)
  have nth: "group_key (ph_key_leaf (phys[i := ?q] ! k)) = group_key (ph_key_leaf (phys ! k))" for k
    using q(2) ib(1) by (cases "k = i") auto
  have cols: "set (ph_columns (phys ! k)) \<subseteq> set (ph_columns (phys[i := ?q] ! k))" for k
    using q(3) ib(1) by (cases "k = i") auto
  have wf: "\<forall>p\<in>set (phys[i := ?q]). well_formed (set (seen @ [lp])) p"
    using f q(1) by (auto simp: fused_def intro: well_formed_mono dest!: set_update_subset_insert [THEN subsetD])
  have keyed: "\<forall>p\<in>set (phys[i := ?q]). map_of by_key (group_key (ph_key_leaf p)) \<noteq> None"
    using f q(2) ib i by (auto simp: fused_def dest!: set_update_subset_insert [THEN subsetD])
  let ?O = "owner_of @ [i]" and ?S = "seen @ [lp]" and ?P = "phys[i := ?q]"
  have len_owner: "length owner_of = length seen" using f by (simp add: fused_def)
  have served: "?O ! j < length ?P \<and> group_key (ph_key_leaf (?P ! (?O ! j))) = group_key (?S ! j) \<and>
      set (lp_aliases (?S ! j)) \<subseteq> set (ph_columns (?P ! (?O ! j)))" if "j < length ?S" for j
  proof (cases "j < length seen")
    case True
    then have "owner_of ! j < length phys" "group_key (ph_key_leaf (phys ! (owner_of ! j))) = group_key (seen ! j)"
      "set (lp_aliases (seen ! j)) \<subseteq> set (ph_columns (phys ! (owner_of ! j)))" using f by (auto simp: fused_def)
    then show ?thesis using True len_owner nth cols by (simp add: nth_append) blast
  next
    case False
    then have "j = length seen" using that by simp
    then show ?thesis using len_owner q ib by (simp add: nth_append)
  qed
  have keyi: "i' < length ?P \<and> group_key (ph_key_leaf (?P ! i')) = k" if "map_of by_key k = Some i'" for k i'
    using f that nth by (simp add: fused_def)
  have dist: "distinct (map (group_key \<circ> ph_key_leaf) ?P)" using f keys by (simp add: fused_def)
  show ?thesis
    unfolding fused_def using len_owner served wf keyi dist keyed by simp
qed

lemma fused_new:
  assumes f: "fused dedup_on seen phys by_key owner_of" and new: "dedup_on \<Longrightarrow> map_of by_key (group_key lp) = None"
    and len: "length (lp_metrics lp) = length (lp_aliases lp)"
  shows "fused dedup_on (seen @ [lp]) (phys @ [merge_into lp (add_columns lp (new_physical lp))])
    (if dedup_on then (group_key lp, length phys) # by_key else by_key) (owner_of @ [length phys])"
proof -
  let ?q = "merge_into lp (add_columns lp (new_physical lp))"
  have "well_formed (set (seen @ [lp])) (new_physical lp)" by (simp add: well_formed_def new_physical_def)
  from merged_leaf [OF this _ _ len]
  have q: "well_formed (set (seen @ [lp])) ?q" "ph_key_leaf ?q = lp" "set (ph_columns ?q) = set (lp_aliases lp)"
    by (auto simp: new_physical_def)
  have wf: "\<forall>p\<in>set (phys @ [?q]). well_formed (set (seen @ [lp])) p"
    using f q(1) by (auto simp: fused_def intro: well_formed_mono)
  have "group_key lp \<notin> set (map (group_key \<circ> ph_key_leaf) phys)" if dedup_on
    using f new [OF that] that by (force simp: fused_def)
  then show ?thesis
    unfolding fused_def using f wf q(2,3)
    by (auto simp: fused_def nth_append less_Suc_eq)
qed

lemma fuse_from_fused:
  assumes "fused dedup_on seen phys by_key owner_of" and "\<forall>l\<in>set lps. length (lp_metrics l) = length (lp_aliases l)"
    and "fuse_from dedup_on lps phys by_key owner_of = (out, owners)"
  shows "\<exists>by_key'. fused dedup_on (seen @ lps) out by_key' owners"
  using assms
proof (induction lps arbitrary: seen phys by_key owner_of)
  case (Cons lp lps)
  show ?case
  proof (cases "if dedup_on then map_of by_key (group_key lp) else None")
    case None
    then have "dedup_on \<Longrightarrow> map_of by_key (group_key lp) = None" by simp
    from fused_new [OF Cons.prems(1) this] Cons.IH [where seen = "seen @ [lp]"] Cons.prems None show ?thesis by simp
  next
    case (Some i)
    then have d: "dedup_on" "map_of by_key (group_key lp) = Some i" by (auto split: if_splits)
    from fused_join [of seen phys by_key owner_of lp i] Cons.IH [where seen = "seen @ [lp]"] Cons.prems d show ?thesis by simp
  qed
qed auto

text \<open>
  Two leaves have one plan when they agree on everything but the measures, and on these too unless their
  builder may take further measures.
\<close>

definition same_plan :: "leaf_plan \<Rightarrow> leaf_plan \<Rightarrow> bool" where
  "same_plan l k \<longleftrightarrow> fusion_key (lp_key l) = fusion_key (lp_key k) \<and> lp_fusable l = lp_fusable k \<and>
     (lp_fusable l \<or> lp_key l = lp_key k)"

lemma group_key_eq_iff: "group_key l = group_key k \<longleftrightarrow> same_plan l k"
  by (cases "lp_key l"; cases "lp_key k") (auto simp: group_key_def same_plan_def fusion_key_def)

text \<open>
  C8: fusing leaves loses nothing and mixes nothing. Every planned leaf is served by a common table expression
  built from a leaf with the same plan (source, dimensions, filters, joins, finality, parameters; the
  measures too where the builder allows only one), which projects all of its columns. The columns of an
  expression are distinct and each is the metric some leaf of that plan projects under that name. No
  two expressions have the same plan; with fusion switched off every leaf keeps its own expression.
\<close>

theorem fusion_keeps_every_plan:
  assumes "fuse dedup_on lps = (phys, owner_of)" and "\<forall>l\<in>set lps. length (lp_metrics l) = length (lp_aliases l)"
  shows "length owner_of = length lps \<and>
    (\<forall>j<length lps. owner_of ! j < length phys \<and> same_plan (ph_key_leaf (phys ! (owner_of ! j))) (lps ! j) \<and>
       set (lp_aliases (lps ! j)) \<subseteq> set (ph_columns (phys ! (owner_of ! j)))) \<and>
    (\<forall>p\<in>set phys. distinct (ph_columns p) \<and> length (ph_metrics p) = length (ph_columns p) \<and>
       (\<forall>mc\<in>set (zip (ph_metrics p) (ph_columns p)). \<exists>l\<in>set lps. same_plan l (ph_key_leaf p) \<and>
          mc \<in> set (zip (lp_metrics l) (lp_aliases l)))) \<and>
    (if dedup_on then \<forall>i<length phys. \<forall>j<length phys. same_plan (ph_key_leaf (phys ! i)) (ph_key_leaf (phys ! j)) \<longrightarrow> i = j
     else owner_of = [0..<length lps])"
proof -
  have "fused dedup_on [] [] [] []" by (simp add: fused_def)
  from fuse_from_fused [OF this assms(2) assms(1) [unfolded fuse_def]]
  obtain by_key where f: "fused dedup_on lps phys by_key owner_of" by auto
  have "\<forall>p\<in>set phys. well_formed (set lps) p" using f by (simp add: fused_def)
  moreover have "i = j" if "dedup_on" "i < length phys" "j < length phys" "same_plan (ph_key_leaf (phys ! i)) (ph_key_leaf (phys ! j))" for i j
  proof -
    have "distinct (map (group_key \<circ> ph_key_leaf) phys)" using f that(1) by (simp add: fused_def)
    then show ?thesis using that(2-4) by (simp add: distinct_conv_nth group_key_eq_iff) blast
  qed
  ultimately show ?thesis using f by (auto simp: fused_def well_formed_def group_key_eq_iff projected_def)
qed

section \<open>What expressions mean\<close>

text \<open>
  A value of a column; \<open>VError\<close> is the failure of a division by zero, which the engine raises. An operator
  is applied to values the way SQL does: comparison and arithmetic with NULL are NULL, and the connectives
  are three-valued.
\<close>

datatype val = VNull | VNum rat | VText string | VBool bool | VError

definition and3 :: "val list \<Rightarrow> val" where
  "and3 vs = (if VBool False \<in> set vs then VBool False else if set vs \<subseteq> {VBool True} then VBool True else VNull)"

definition or3 :: "val list \<Rightarrow> val" where
  "or3 vs = (if VBool True \<in> set vs then VBool True else if set vs \<subseteq> {VBool False} then VBool False else VNull)"

fun eq3 :: "val \<Rightarrow> val \<Rightarrow> val" where
  "eq3 VNull y = VNull"
| "eq3 x VNull = VNull"
| "eq3 x y = VBool (x = y)"

fun div3 :: "val \<Rightarrow> val \<Rightarrow> val" where
  "div3 (VNum a) (VNum b) = (if b = 0 then VError else VNum (a / b))"
| "div3 VError y = VError"
| "div3 x VError = VError"
| "div3 x y = VNull"

fun num3 :: "(rat \<Rightarrow> rat \<Rightarrow> rat) \<Rightarrow> val \<Rightarrow> val \<Rightarrow> val" where
  "num3 f (VNum a) (VNum b) = VNum (f a b)"
| "num3 f VError y = VError"
| "num3 f x VError = VError"
| "num3 f x y = VNull"

fun not3 :: "val \<Rightarrow> val" where
  "not3 (VBool b) = VBool (\<not> b)"
| "not3 v = VNull"

text \<open>Ordered comparison of numbers; a day is its ordinal.\<close>

fun cmp3 :: "(rat \<Rightarrow> rat \<Rightarrow> bool) \<Rightarrow> val \<Rightarrow> val \<Rightarrow> val" where
  "cmp3 f (VNum a) (VNum b) = VBool (f a b)"
| "cmp3 f x y = VNull"

definition coalesce3 :: "val list \<Rightarrow> val" where
  "coalesce3 vs = (case filter (\<lambda>v. v \<noteq> VNull) vs of [] \<Rightarrow> VNull | v # _ \<Rightarrow> v)"

definition apply_op :: "string \<Rightarrow> val list \<Rightarrow> val" where
  "apply_op f vs =
     (if f = ''EQ'' then eq3 (vs ! 0) (vs ! 1)
      else if f = ''Is'' then VBool (vs ! 0 = vs ! 1)
      else if f = ''And'' then and3 vs
      else if f = ''Or'' then or3 vs
      else if f = ''Paren'' then vs ! 0
      else if f = ''Div'' then div3 (vs ! 0) (vs ! 1)
      else if f = ''Add'' then num3 (+) (vs ! 0) (vs ! 1)
      else if f = ''Sub'' then num3 (-) (vs ! 0) (vs ! 1)
      else if f = ''Mul'' then num3 (*) (vs ! 0) (vs ! 1)
      else if f = ''LT'' then cmp3 (<) (vs ! 0) (vs ! 1)
      else if f = ''LTE'' then cmp3 (\<le>) (vs ! 0) (vs ! 1)
      else if f = ''GT'' then cmp3 (>) (vs ! 0) (vs ! 1)
      else if f = ''GTE'' then cmp3 (\<ge>) (vs ! 0) (vs ! 1)
      else if f = ''Not'' then not3 (vs ! 0)
      else if f = ''Neg'' then num3 (-) (VNum 0) (vs ! 0)
      else if f = ''Nullif'' then (if eq3 (vs ! 0) (vs ! 1) = VBool True then VNull else vs ! 0)
      else if f = ''Coalesce'' then coalesce3 vs
      else if f = ''Case'' then (if vs ! 0 = VBool True then vs ! 1 else vs ! 2)
      else if f = ''TRUE'' then VBool True
      else if take 7 f = ''number '' then VNum (of_nat (nat_of_digits (drop 7 f)))
      else VNull)"

type_synonym tuple_env = "string \<Rightarrow> string \<Rightarrow> val"

fun ev :: "tuple_env \<Rightarrow> sql \<Rightarrow> val" where
  "ev \<sigma> (Col db t n) = \<sigma> t n"
| "ev \<sigma> (Op f es) = apply_op f (map (ev \<sigma>) es)"

lemma ev_number [simp]: "ev \<sigma> (number n) = VNum (of_nat n)"
  by (simp add: number_def apply_op_def)

lemma ev_null [simp]: "ev \<sigma> SQL_NULL = VNull"
  by (simp add: SQL_NULL_def apply_op_def)

lemma eq3_true: "eq3 x y = VBool True \<longleftrightarrow> x = y \<and> x \<noteq> VNull"
  by (cases x; cases y) auto

lemma and3_true [simp]: "and3 vs = VBool True \<longleftrightarrow> (\<forall>v\<in>set vs. v = VBool True)"
  by (auto simp: and3_def)

lemma or3_true [simp]: "or3 vs = VBool True \<longleftrightarrow> VBool True \<in> set vs"
  by (auto simp: or3_def)

lemma apply_op_simps [simp]:
  "apply_op ''EQ'' [x, y] = eq3 x y" "apply_op ''Is'' [x, y] = VBool (x = y)" "apply_op ''And'' vs = and3 vs"
  "apply_op ''Or'' vs = or3 vs" "apply_op ''Paren'' [x] = x" "apply_op ''Div'' [x, y] = div3 x y"
  "apply_op ''Add'' [x, y] = num3 (+) x y" "apply_op ''Sub'' [x, y] = num3 (-) x y" "apply_op ''Mul'' [x, y] = num3 (*) x y"
  "apply_op ''LT'' [x, y] = cmp3 (<) x y" "apply_op ''LTE'' [x, y] = cmp3 (\<le>) x y" "apply_op ''GT'' [x, y] = cmp3 (>) x y" "apply_op ''Not'' [x] = not3 x"
  "apply_op ''Nullif'' [x, y] = (if eq3 x y = VBool True then VNull else x)" "apply_op ''Coalesce'' vs = coalesce3 vs"
  "apply_op ''Case'' [x, y, z] = (if x = VBool True then y else z)" "apply_op ''TRUE'' [] = VBool True"
  by (simp_all add: apply_op_def)

text \<open>The join condition of the spine compares whole tuples, NULL counted as a value.\<close>

lemma null_safe_equal:
  "or3 [eq3 x y, and3 [VBool (x = VNull), VBool (y = VNull)]] = VBool True \<longleftrightarrow> x = y"
proof (cases "x = VNull \<and> y = VNull")
  case True
  then show ?thesis by (simp add: or3_def and3_def)
next
  case False
  then have "and3 [VBool (x = VNull), VBool (y = VNull)] = VBool False" by (auto simp: and3_def)
  then show ?thesis using False eq3_true [of x y] by (auto simp: eq_commute [of "VBool True"])
qed

lemma null_safe_join_matches:
  "ev \<sigma> (null_safe_join_on spine lp cs) = VBool True \<longleftrightarrow> (\<forall>c\<in>set cs. \<sigma> spine c = \<sigma> lp c)"
  unfolding null_safe_join_on_def by (simp add: null_safe_equal del: or3_true)

section \<open>Guarded division\<close>

definition numeric :: "val \<Rightarrow> bool" where
  "numeric v \<longleftrightarrow> v = VNull \<or> (\<exists>a. v = VNum a)"

text \<open>
  C19: what a ratio serves. Where the denominator is zero the policy decides: \<^verbatim>\<open>null\<close> serves NULL, \<^verbatim>\<open>zero\<close>
  serves 0 and \<^verbatim>\<open>error\<close> lets the division fail; the hidden column counts exactly these rows. Where both sides
  are present and the denominator is not zero, every policy serves the quotient. Where a side is missing,
  the value is NULL, except under \<^verbatim>\<open>zero\<close>, which serves 0 for it and does not count the row.
\<close>

theorem ratio_policy_means:
  assumes "numeric (ev \<sigma> n)" and "numeric (ev \<sigma> d)"
  shows "(ev \<sigma> (zero_denominator_flag [d]) = VNum (if ev \<sigma> d = VNum 0 then 1 else 0)) \<and>
    (ev \<sigma> n = VNum a \<and> ev \<sigma> d = VNum b \<and> b \<noteq> 0 \<longrightarrow> ev \<sigma> (guard_division n d c) = VNum (a / b)) \<and>
    (ev \<sigma> n = VNum a \<and> ev \<sigma> d = VNum 0 \<longrightarrow> ev \<sigma> (guard_division n d RATIO_NULL) = VNull \<and>
      ev \<sigma> (guard_division n d RATIO_ZERO) = VNum 0 \<and> ev \<sigma> (guard_division n d RATIO_RAW) = VError) \<and>
    (ev \<sigma> n = VNull \<or> ev \<sigma> d = VNull \<longrightarrow> ev \<sigma> (guard_division n d RATIO_NULL) = VNull \<and>
      ev \<sigma> (guard_division n d RATIO_RAW) = VNull \<and> ev \<sigma> (guard_division n d RATIO_ZERO) = VNum 0)"
proof -
  have flag: "ev \<sigma> (zero_denominator_flag [d]) = VNum (if ev \<sigma> d = VNum 0 then 1 else 0)"
    using assms(2) by (auto simp: numeric_def zero_denominator_flag_def)
  consider "ev \<sigma> n = VNull" "ev \<sigma> d = VNull" | b where "ev \<sigma> n = VNull" "ev \<sigma> d = VNum b"
    | a where "ev \<sigma> n = VNum a" "ev \<sigma> d = VNull" | a b where "ev \<sigma> n = VNum a" "ev \<sigma> d = VNum b"
    using assms by (auto simp: numeric_def)
  then show ?thesis
    using flag by cases (auto simp: guard_division_def Let_def coalesce3_def)
qed

section \<open>What the composed statement means\<close>

text \<open>
  A row gives its columns values; a column a row does not have reads NULL, as the columns of an unmatched left
  join do. The rows a statement joins are kept under the names of their tables. The evaluator covers the
  statements without aggregation, which are all of them when no metric accumulates.
\<close>

type_synonym row = "(string, val) dict"
type_synonym tables = "string \<Rightarrow> row list"

definition cell :: "row \<Rightarrow> string \<Rightarrow> val" where
  "cell r c = (case map_of r c of None \<Rightarrow> VNull | Some v \<Rightarrow> v)"

definition tuple_of :: "string list \<Rightarrow> row \<Rightarrow> val list" where
  "tuple_of cs r = map (cell r) cs"

definition env :: "(string, row) dict \<Rightarrow> tuple_env" where
  "env b t n = (case map_of b t of None \<Rightarrow> VNull | Some r \<Rightarrow> cell r n)"

definition cond_holds :: "(string, row) dict \<Rightarrow> sql option \<Rightarrow> bool" where
  "cond_holds b cond = (case cond of None \<Rightarrow> True | Some e \<Rightarrow> ev (env b) e = VBool True)"

definition join_rows :: "join_kind \<times> (string \<times> row list) \<times> sql option \<Rightarrow> (string, row) dict list \<Rightarrow> (string, row) dict list" where
  "join_rows j bs = (case j of (k, (t, rs), cond) \<Rightarrow>
     concat (map (\<lambda>b. let ms = filter (\<lambda>r. cond_holds ((t, r) # b) cond) rs
       in if k = LEFT_JOIN \<and> ms = [] then [(t, []) # b] else map (\<lambda>r. (t, r) # b) ms) bs))"

definition project_row :: "(sql \<times> string) list \<Rightarrow> (string, row) dict \<Rightarrow> row" where
  "project_row projs b = map (\<lambda>(e, n). (n, ev (env b) e)) projs"

fun select_rows :: "tables \<Rightarrow> cte_stmt \<Rightarrow> row list"
  and from_rows :: "tables \<Rightarrow> cte_from \<Rightarrow> string \<times> row list" where
  "select_rows T (CteStmt projs uniq f joins wh gr) =
     (let start = (case from_rows T f of (t, rs) \<Rightarrow> map (\<lambda>r. [(t, r)]) rs);
          bs = fold join_rows (map (\<lambda>(k, g, cond). (k, from_rows T g, cond)) joins) start;
          out = map (project_row projs) (filter (\<lambda>b. list_all (\<lambda>e. cond_holds b (Some e)) wh) bs)
      in if uniq then remdups out else out)"
| "from_rows T (CteTable t) = (t, T t)"
| "from_rows T (CteSub s a) = (a, select_rows T s)"

text \<open>A chain of UNIONs drops duplicate rows; a single branch does not.\<close>

definition union_rows :: "tables \<Rightarrow> cte_stmt list \<Rightarrow> row list" where
  "union_rows T ss = (case ss of [s] \<Rightarrow> select_rows T s | _ \<Rightarrow> remdups (concat (map (select_rows T) ss)))"

text \<open>
  The rows of the leaves are given, those of a lone leaf under the empty name; every other expression is computed in the
  order of declaration.
\<close>

definition declare_cte :: "string \<times> cte_body \<Rightarrow> tables \<Rightarrow> tables" where
  "declare_cte nb T = (case snd nb of LeafBody b \<Rightarrow> T | UnionBody ss \<Rightarrow> T(fst nb := union_rows T ss))"

definition run_composed :: "tables \<Rightarrow> composed \<Rightarrow> row list" where
  "run_composed T c =
     (case cm_final c of LeafBody b \<Rightarrow> T [] | UnionBody ss \<Rightarrow> union_rows (fold declare_cte (cm_ctes c) T) ss)"

text \<open>The row of a leaf at a tuple, which is empty (all NULL) when the leaf has none.\<close>

definition leaf_row :: "row list \<Rightarrow> string list \<Rightarrow> val list \<Rightarrow> row" where
  "leaf_row rs dims tup = (case find (\<lambda>r. tuple_of dims r = tup) rs of None \<Rightarrow> [] | Some r \<Rightarrow> r)"

definition at_tuple :: "tables \<Rightarrow> string list \<Rightarrow> string list \<Rightarrow> val list \<Rightarrow> tuple_env" where
  "at_tuple T names dims tup t c =
     (if t \<in> set names then cell (leaf_row (T t) dims tup) c else if t = GRAIN then cell (zip dims tup) c else VNull)"

lemma filter_unique_find:
  assumes "distinct (map f rs)"
  shows "filter (\<lambda>r. f r = t) rs = (case find (\<lambda>r. f r = t) rs of None \<Rightarrow> [] | Some r \<Rightarrow> [r])"
  using assms
proof (induction rs)
  case (Cons a rs)
  show ?case
  proof (cases "f a = t")
    case True
    then have "filter (\<lambda>r. f r = t) rs = []" using Cons.prems by (simp add: filter_empty_conv) (metis imageI)
    then show ?thesis using True by simp
  next
    case False
    then show ?thesis using Cons by simp
  qed
qed simp

lemma spine_condition:
  assumes "map_of b GRAIN = Some g" and "n \<noteq> GRAIN"
  shows "cond_holds ((n, r) # b) (Some (null_safe_join_on GRAIN n dims)) \<longleftrightarrow> tuple_of dims r = tuple_of dims g"
  using assms by (auto simp: cond_holds_def null_safe_join_matches env_def tuple_of_def)

lemma spine_join_rows:
  assumes "\<forall>b\<in>set bs. map_of b GRAIN \<noteq> None" and "n \<noteq> GRAIN" and "distinct (map (tuple_of dims) rs)"
  shows "join_rows (LEFT_JOIN, (n, rs), Some (null_safe_join_on GRAIN n dims)) bs =
    map (\<lambda>b. (n, leaf_row rs dims (tuple_of dims (the (map_of b GRAIN)))) # b) bs"
  using assms(1)
proof (induction bs)
  case (Cons b bs)
  then obtain g where g: "map_of b GRAIN = Some g" by auto
  have "filter (\<lambda>r. cond_holds ((n, r) # b) (Some (null_safe_join_on GRAIN n dims))) rs = filter (\<lambda>r. tuple_of dims r = tuple_of dims g) rs"
    by (simp only: spine_condition [OF g assms(2)])
  then show ?case
    using Cons g filter_unique_find [OF assms(3), of "tuple_of dims g"]
    by (simp add: join_rows_def leaf_row_def split: option.splits)
qed (simp add: join_rows_def)

lemma spine_join_fold:
  assumes "\<forall>n\<in>set ns. n \<noteq> GRAIN \<and> distinct (map (tuple_of dims) (T n))" and "\<forall>g. GRAIN \<notin> fst ` set (f g)"
  shows "fold join_rows (map (\<lambda>n. (LEFT_JOIN, (n, T n), Some (null_safe_join_on GRAIN n dims))) ns) (map (\<lambda>g. f g @ [(GRAIN, g)]) gs) =
    map (\<lambda>g. (map (\<lambda>n. (n, leaf_row (T n) dims (tuple_of dims g))) (rev ns) @ f g) @ [(GRAIN, g)]) gs"
  using assms
proof (induction ns arbitrary: f)
  case (Cons n ns)
  have g: "map_of (f g @ [(GRAIN, g)]) GRAIN = Some g" for g
    using Cons.prems(2) by (simp add: map_add_def map_of_eq_None_iff [THEN iffD2] split: option.splits)
  have "join_rows (LEFT_JOIN, (n, T n), Some (null_safe_join_on GRAIN n dims)) (map (\<lambda>g. f g @ [(GRAIN, g)]) gs) =
      map (\<lambda>g. ((n, leaf_row (T n) dims (tuple_of dims g)) # f g) @ [(GRAIN, g)]) gs"
    using Cons.prems(1) g by (subst spine_join_rows) auto
  moreover have "GRAIN \<noteq> n" using Cons.prems(1) by auto
  ultimately show ?case
    using Cons.IH [of "\<lambda>g. (n, leaf_row (T n) dims (tuple_of dims g)) # f g"] Cons.prems by simp
qed simp

lemma spine_env:
  assumes "GRAIN \<notin> set ns" and "tuple_of dims g = tup" and "g = zip dims tup"
  shows "env (map (\<lambda>n. (n, leaf_row (T n) dims tup)) (rev ns) @ [(GRAIN, g)]) = at_tuple T ns dims tup"
  using assms by (auto simp: fun_eq_iff env_def at_tuple_def map_add_def map_of_map_restrict restrict_map_def)

text \<open>The rows of the spine.\<close>

definition spine_tuples :: "tables \<Rightarrow> string list \<Rightarrow> string list \<Rightarrow> val list list" where
  "spine_tuples T ns dims = remdups (concat (map (\<lambda>n. map (tuple_of dims) (T n)) ns))"

lemma tuple_of_zip: "distinct dims \<Longrightarrow> length tup = length dims \<Longrightarrow> tuple_of dims (zip dims tup) = tup"
  by (rule nth_equalityI) (auto simp: tuple_of_def cell_def map_of_zip_nth)

lemma dims_from_rows:
  "select_rows T (dims_from n dims) = map (\<lambda>r. zip dims (tuple_of dims r)) (T n)"
  by (simp add: dims_from_def project_row_def env_def cell_def tuple_of_def zip_map2 zip_same_conv_map Let_def)

text \<open>The names of the common table expressions are distinct and none of them is the spine's.\<close>

lemma positions_of_distinct:
  "distinct xs \<Longrightarrow> map (\<lambda>x. length (takeWhile (\<lambda>y. y \<noteq> x) xs)) xs = [0..<length xs]"
proof (induction xs)
  case (Cons x xs)
  have "map (\<lambda>y. length (takeWhile (\<lambda>z. z \<noteq> y) (x # xs))) xs = map Suc (map (\<lambda>y. length (takeWhile (\<lambda>z. z \<noteq> y) xs)) xs)"
    using Cons.prems by auto
  moreover have "map (\<lambda>y. length (takeWhile (\<lambda>z. z \<noteq> y) xs)) xs = [0..<length xs]" using Cons by simp
  ultimately have "map (\<lambda>y. length (takeWhile (\<lambda>z. z \<noteq> y) (x # xs))) xs = [1..<Suc (length xs)]"
    by (simp only: map_Suc_upt One_nat_def)
  then show ?case by (simp add: upt_conv_Cons del: upt_Suc)
qed simp

definition cte_names :: "physical list \<Rightarrow> string list" where
  "cte_names phys = map (cte_name (cte_order phys)) (cte_order phys)"

lemma cte_names_are:
  "cte_names phys = map (\<lambda>i. ''_leaf_'' @ show_nat i) [0..<length phys]"
proof -
  have "distinct (cte_order phys)" "length (cte_order phys) = length phys" by (simp_all add: cte_order_def)
  moreover have "cte_names phys = map (\<lambda>i. ''_leaf_'' @ show_nat i)
      (map (\<lambda>x. length (takeWhile (\<lambda>y. y \<noteq> x) (cte_order phys))) (cte_order phys))"
    by (simp add: cte_names_def cte_name_def)
  ultimately show ?thesis by (simp only: positions_of_distinct)
qed

lemma length_cte_names [simp]: "length (cte_names phys) = length phys"
  by (simp add: cte_names_are)

lemma grain_is_not_a_leaf [simp]: "GRAIN \<notin> set (cte_names phys)"
  by (auto simp: cte_names_are GRAIN_def)

lemma declare_leaves: "\<forall>c\<in>set cs. \<exists>b. snd c = LeafBody b \<Longrightarrow> fold declare_cte cs T = T"
  by (induction cs) (auto simp: declare_cte_def)

lemma leaf_ctes_are_given:
  assumes "rmap leaf_cte nps = Inr cs"
  shows "fold declare_cte (concat cs) T = T"
proof -
  have "\<exists>b. c = (fst c, LeafBody b)" if "leaf_cte np = Inr xs" "c \<in> set xs" for np xs c
    using that by (auto simp: leaf_cte_def rbind_Inr_iff)
  moreover have "\<forall>xs\<in>set cs. \<exists>np. leaf_cte np = Inr xs"
    using assms [unfolded rmap_ok_iff] by (induction rule: list_all2_induct) auto
  ultimately have "\<forall>c\<in>set (concat cs). \<exists>b. snd c = LeafBody b" by (metis UN_E set_concat snd_conv)
  then show ?thesis by (rule declare_leaves)
qed

text \<open>Without running totals, what several expressions compose to.\<close>

lemma fused_key_leaves:
  "fuse_from dedup_on lps phys by_key owner_of = (out, owners) \<Longrightarrow>
   ph_key_leaf ` set out \<subseteq> ph_key_leaf ` set phys \<union> set lps"
proof (induction lps arbitrary: phys by_key owner_of)
  case (Cons lp lps)
  have key: "ph_key_leaf (add_columns lp p) = ph_key_leaf p" for p
    by (simp add: add_columns_def fold_invariant [where Q = "\<lambda>_. True" and P = "\<lambda>q. ph_key_leaf q = ph_key_leaf p"] add_column_def)
  have upd: "ph_key_leaf ` set (phys[i := merge_into lp (add_columns lp (phys ! i))]) \<subseteq> ph_key_leaf ` set phys" for i
  proof (cases "i < length phys")
    case True
    then show ?thesis by (auto simp: key dest!: set_update_subset_insert [THEN subsetD])
  qed (simp add: list_update_beyond)
  have new: "ph_key_leaf (merge_into lp (add_columns lp (new_physical lp))) = lp" by (simp add: key new_physical_def)
  show ?case
  proof (cases "if dedup_on then map_of by_key (group_key lp) else None")
    case None
    with Cons.prems have "fuse_from dedup_on lps (phys @ [merge_into lp (add_columns lp (new_physical lp))])
      (if dedup_on then (group_key lp, length phys) # by_key else by_key) (owner_of @ [length phys]) = (out, owners)" by simp
    from Cons.IH [OF this] new show ?thesis by auto
  next
    case (Some i)
    with Cons.prems have "fuse_from dedup_on lps (phys[i := merge_into lp (add_columns lp (phys ! i))]) by_key (owner_of @ [i]) = (out, owners)"
      by simp
    from Cons.IH [OF this] upd [of i] show ?thesis by auto
  qed
qed simp

lemma outer_projections_values:
  assumes "outer_projections columns_of dim_source dims metrics False False = Inr projs"
  obtains vs flags where "list_all2 (\<lambda>m v. metric_value columns_of m = Inr v) metrics vs"
    "projs = map (\<lambda>d. (Col [] dim_source d, d)) dims @ zip vs (map mp_name metrics) @ flags"
proof -
  obtain vals flags where v: "rmap (\<lambda>(i, m). map_sum id (\<lambda>v. (v, mp_name m)) (metric_value columns_of m)) (enumerate_list metrics) = Inr vals"
    and p: "projs = map (\<lambda>d. (Col [] dim_source d, d)) dims @ vals @ flags"
    using assms by (auto simp: outer_projections_def rbind_Inr_iff)
  have l: "length vals = length metrics"
    using v by (auto simp: rmap_ok_iff enumerate_list_def dest: list_all2_lengthD)
  have nth: "metric_value columns_of (metrics ! i) = Inr (fst (vals ! i)) \<and> snd (vals ! i) = mp_name (metrics ! i)"
    if "i < length metrics" for i
  proof -
    have "map_sum id (\<lambda>v. (v, mp_name (metrics ! i))) (metric_value columns_of (metrics ! i)) = Inr (vals ! i)"
      using v that by (simp add: rmap_ok_iff list_all2_conv_all_nth enumerate_list_def)
    then show ?thesis by (cases "metric_value columns_of (metrics ! i)") (simp_all, metis fst_conv snd_conv)
  qed
  obtain ws where ws: "map fst vals = ws" by simp
  have "zip (map fst vals) (map mp_name metrics) = vals"
    by (rule nth_equalityI) (use l nth in \<open>auto simp: prod_eq_iff\<close>)
  then have "projs = map (\<lambda>d. (Col [] dim_source d, d)) dims @ zip ws (map mp_name metrics) @ flags" using p ws by simp
  moreover have "list_all2 (\<lambda>m v. metric_value columns_of m = Inr v) metrics ws"
    using l nth ws by (auto simp: list_all2_conv_all_nth)
  ultimately show thesis using that by blast
qed

lemma composed_over_the_spine:
  assumes c: "compose lps metrics srcs dedup_on = Inr res" and f: "fuse dedup_on lps = (phys, owners)"
    and several: "2 \<le> co_cte_count res" and plain: "\<forall>m\<in>set metrics. \<forall>p\<in>set (plan_walk m). mp_accumulate p = None"
    and final: "\<forall>l\<in>set lps. lp_finality l = None" and dims: "lp_dim_names (hd lps) = dims" "dims \<noteq> []"
  obtains projs leaf_ctes where
    "outer_projections (columns_for (cte_order phys) owners) GRAIN dims metrics False False = Inr projs"
    "rmap leaf_cte (map (\<lambda>i. (cte_name (cte_order phys) i, phys ! i)) (cte_order phys)) = Inr leaf_ctes"
    "co_ast res = \<lparr>cm_ctes = concat leaf_ctes @ [(GRAIN, UnionBody (map (\<lambda>n. dims_from n dims) (cte_names phys)))],
       cm_final = UnionBody [CteStmt projs False (CteTable GRAIN)
         (map (\<lambda>n. (LEFT_JOIN, CteTable n, Some (null_safe_join_on GRAIN n dims))) (cte_names phys)) [] []]\<rparr>"
    "2 \<le> length phys"
proof -
  have nf: "\<not> projects_is_final p" if "p \<in> set phys" for p
    using fused_key_leaves [OF f [unfolded fuse_def]] final that by (auto simp: projects_is_final_def)
  then have nf1: "\<not> list_ex projects_is_final phys" by (simp add: list_ex_iff)
  have ord: "set (cte_order phys) = {..<length phys}" by (auto simp: cte_order_def)
  have acc: "filter (\<lambda>m. mp_accumulate m \<noteq> None) (concat (map plan_walk metrics)) = []"
    using plain by (auto simp: filter_empty_conv)
  let ?np = "map (\<lambda>i. (cte_name (cte_order phys) i, phys ! i)) (cte_order phys)"
  have names: "map fst ?np = cte_names phys" by (simp add: cte_names_def)
  have joins: "map (spine_join dims) ?np = map (\<lambda>n. (LEFT_JOIN, CteTable n, Some (null_safe_join_on GRAIN n dims))) (cte_names phys)"
    using nf ord by (auto simp: cte_names_def spine_join_def)
  have spine: "build_spine (map fst ?np) (map snd ?np) dims False [] = UnionBody (map (\<lambda>n. dims_from n dims) (cte_names phys))"
    unfolding build_spine_def zip_map_fst_snd by (simp add: dims_from_def cte_names_def)
  have several': "2 \<le> length phys" and lone: "length phys \<noteq> 1"
    using c f several acc nf1 
    by (auto simp: compose_def Let_def rbind_Inr_iff compose_result_of_def split: if_splits)
  show thesis
    using c f acc nf1 lone joins spine names dims that several'
    by (auto simp: compose_def Let_def rbind_Inr_iff compose_result_of_def first_by_leaf_def fill_ctes_def outer_select_def split: if_splits list.splits)
qed

lemma union_rows_single [simp]: "union_rows T [s] = select_rows T s"
  by (simp add: union_rows_def)

lemma spine_rows:
  assumes "2 \<le> length ns"
  shows "union_rows T (map (\<lambda>n. dims_from n dims) ns) = map (zip dims) (spine_tuples T ns dims)"
proof -
  have "inj_on (zip dims) {t. length t = length dims}"
    by (rule inj_onI) (metis (mono_tags, lifting) map_snd_zip mem_Collect_eq)
  then have inj: "inj_on (zip dims) (set (concat (map (\<lambda>n. map (tuple_of dims) (T n)) ns)))"
    by (rule inj_on_subset) (auto simp: tuple_of_def)
  have "union_rows T (map (\<lambda>n. dims_from n dims) ns) = remdups (concat (map (\<lambda>n. select_rows T (dims_from n dims)) ns))"
    using assms by (auto simp: union_rows_def comp_def split: list.splits)
  also have "\<dots> = remdups (map (zip dims) (concat (map (\<lambda>n. map (tuple_of dims) (T n)) ns)))"
    by (simp add: dims_from_rows map_concat comp_def)
  finally show ?thesis
    using inj unfolding spine_tuples_def
    by (metis distinct_map distinct_remdups remdups_id_iff_distinct remdups_map_remdups set_remdups)
qed

lemma composed_rows:
  assumes names: "GRAIN \<notin> set ns" and one: "\<forall>n\<in>set ns. distinct (map (tuple_of dims) (T n))" and d: "distinct dims"
    and many: "2 \<le> length ns"
  shows "union_rows (T(GRAIN := union_rows T (map (\<lambda>n. dims_from n dims) ns)))
      [CteStmt projs False (CteTable GRAIN) (map (\<lambda>n. (LEFT_JOIN, CteTable n, Some (null_safe_join_on GRAIN n dims))) ns) [] []] =
    map (\<lambda>t. map (\<lambda>(e, c). (c, ev (at_tuple T ns dims t) e)) projs) (spine_tuples T ns dims)"
proof -
  let ?T = "T(GRAIN := map (zip dims) (spine_tuples T ns dims))"
  have len: "length t = length dims" if "t \<in> set (spine_tuples T ns dims)" for t
    using that by (auto simp: spine_tuples_def tuple_of_def)
  have tup: "tuple_of dims (zip dims t) = t" if "t \<in> set (spine_tuples T ns dims)" for t
    using len [OF that] d by (simp add: tuple_of_zip)
  have "map (\<lambda>n. (LEFT_JOIN, (n, ?T n), Some (null_safe_join_on GRAIN n dims))) ns =
      map (\<lambda>n. (LEFT_JOIN, (n, T n), Some (null_safe_join_on GRAIN n dims))) ns"
    using names by auto
  moreover have "\<forall>n\<in>set ns. n \<noteq> GRAIN \<and> distinct (map (tuple_of dims) (T n))" using names one by auto
  ultimately have "fold join_rows (map (\<lambda>n. (LEFT_JOIN, (n, ?T n), Some (null_safe_join_on GRAIN n dims))) ns)
      (map (\<lambda>g. [(GRAIN, g)]) (map (zip dims) (spine_tuples T ns dims))) =
    map (\<lambda>g. map (\<lambda>n. (n, leaf_row (T n) dims (tuple_of dims g))) (rev ns) @ [(GRAIN, g)]) (map (zip dims) (spine_tuples T ns dims))"
    using spine_join_fold [where f = "\<lambda>_. []" and ns = ns and T = T and dims = dims and gs = "map (zip dims) (spine_tuples T ns dims)"]
    unfolding append_Nil append_Nil2 by (simp only: list.set(1) image_empty empty_iff simp_thms)
  then show ?thesis
    by (simp add: spine_rows [OF many] comp_def project_row_def tup spine_env [OF names _ refl])
qed

lemma output_row_dims:
  assumes "GRAIN \<notin> set ns" and "length t = length dims" and "distinct dims"
  shows "tuple_of dims (map (\<lambda>(e, c). (c, ev (at_tuple T ns dims t) e)) (map (\<lambda>d. (Col [] GRAIN d, d)) dims @ rest)) = t"
proof -
  have "tuple_of dims (map (\<lambda>(e, c). (c, ev (at_tuple T ns dims t) e)) (map (\<lambda>d. (Col [] GRAIN d, d)) dims @ rest)) = tuple_of dims (zip dims t)"
    using assms(1) by (simp add: tuple_of_def cell_def at_tuple_def map_add_def comp_def map_of_map_restrict split: option.splits)
  then show ?thesis using assms by (simp add: tuple_of_zip)
qed

lemma output_row_metric:
  assumes "list_all2 (\<lambda>m v. F m = Inr v) metrics vs" and "distinct (dims @ map mp_name metrics)" and "m \<in> set metrics"
  shows "\<exists>v. F m = Inr v \<and>
    cell (map (\<lambda>(e, c). (c, ev \<sigma> e)) (map (\<lambda>d. (Col [] GRAIN d, d)) dims @ zip vs (map mp_name metrics) @ flags)) (mp_name m) = ev \<sigma> v"
proof -
  obtain i where i: "i < length metrics" "m = metrics ! i" using assms(3) by (auto simp: in_set_conv_nth)
  have len: "length vs = length metrics" using assms(1) by (simp add: list_all2_lengthD)
  have "map (\<lambda>(e, c). (c, ev \<sigma> e)) (zip vs (map mp_name metrics)) = zip (map mp_name metrics) (map (ev \<sigma>) vs)"
    using len by (auto simp: list_eq_iff_nth_eq)
  moreover have "map_of (zip (map mp_name metrics) (map (ev \<sigma>) vs)) (map mp_name metrics ! i) = Some (map (ev \<sigma>) vs ! i)"
    using assms(2) len i by (intro map_of_zip_nth) auto
  moreover have "mp_name m \<notin> set dims" using assms(2,3) by auto
  then have "map_of (map (\<lambda>(e, c). (c, ev \<sigma> e)) (map (\<lambda>d. (Col [] GRAIN d, d)) dims)) (mp_name m) = None"
    by (auto simp: map_of_eq_None_iff)
  moreover have "F m = Inr (vs ! i)" using assms(1) i by (simp add: list_all2_conv_all_nth)
  ultimately show ?thesis using i len by (simp add: cell_def map_add_def split: option.splits)
qed


section \<open>Witnesses\<close>

definition sample_plan :: "string \<Rightarrow> string \<Rightarrow> string \<Rightarrow> leaf_plan" where
  "sample_plan source alias watermark =
     \<lparr>lp_key = \<lparr>lk_source = source, lk_strategy = ''additive'', lk_dimensions = [''day''], lk_dimension_exprs = [''day''], lk_filters = [],
        lk_join_path = [], lk_finality = [], lk_params = [], lk_measures = [(source, alias, [])]\<rparr>,
      lp_select = [], lp_aux = [], lp_metrics = [revenue_metric None], lp_dim_names = [''day''], lp_aliases = [alias],
      lp_used_sources = [], lp_rebuild = (\<lambda>_ _. Inr ([], [])), lp_fired = [], lp_warnings = [],
      lp_finality = (if watermark = [] then None else Some \<lparr>fm_watermark = watermark, fm_sources = [source], fm_flag = ''per_row''\<rparr>),
      lp_scoped = [], lp_shared = [], lp_fusable = True, lp_time_dimensions = [], lp_fanout = False\<rparr>"

definition conversion :: metric_plan where
  "conversion = MetricPlan ''conversion'' [\<lparr>lr_leaf = 0, lr_column = ''orders''\<rparr>, \<lparr>lr_leaf = 1, lr_column = ''visits''\<rparr>]
     RATIO_NULL None False [] None None"

definition day_rows :: tables where
  "day_rows n = (if n = ''_leaf_0'' then [[(''day'', VText ''a''), (''orders'', VNum 3)], [(''day'', VNull), (''orders'', VNum 4)]]
     else if n = ''_leaf_1'' then [[(''day'', VText ''b''), (''visits'', VNum 5)], [(''day'', VNull), (''visits'', VNum 8)]] else [])"

lemma fusion_keeps_every_plan_witness:
  "map ph_columns (fst (fuse True [sample_plan ''o'' ''n'' [], sample_plan ''v'' ''k'' [], sample_plan ''o'' ''m'' []])) = [[''n'', ''m''], [''k'']] \<and>
   snd (fuse True [sample_plan ''o'' ''n'' [], sample_plan ''v'' ''k'' [], sample_plan ''o'' ''m'' []]) = [0, 1, 0] \<and>
   same_plan (ph_key_leaf (fst (fuse True [sample_plan ''o'' ''n'' [], sample_plan ''v'' ''k'' [], sample_plan ''o'' ''m'' []]) ! 0)) (sample_plan ''o'' ''m'' [])"
proof -
  let ?lps = "[sample_plan ''o'' ''n'' [], sample_plan ''v'' ''k'' [], sample_plan ''o'' ''m'' []]"
  have "map ph_columns (fst (fuse True ?lps)) = [[''n'', ''m''], [''k'']]" "snd (fuse True ?lps) = [0, 1, 0]" by code_simp+
  moreover have len: "\<forall>l\<in>set ?lps. length (lp_metrics l) = length (lp_aliases l)" by (simp add: sample_plan_def)
  have "\<forall>j<length ?lps. same_plan (ph_key_leaf (fst (fuse True ?lps) ! (snd (fuse True ?lps) ! j))) (?lps ! j)"
    using fusion_keeps_every_plan [OF prod.collapse [symmetric] len, of True] by blast
  then have "same_plan (ph_key_leaf (fst (fuse True ?lps) ! (snd (fuse True ?lps) ! 2))) (?lps ! 2)" by (rule allE [of _ 2]) simp
  ultimately show ?thesis by simp
qed

lemma ratio_policy_means_witness:
  "ev (\<lambda>t c. if c = ''n'' then VNum 6 else VNum 0) (guard_division (Col [] [] ''n'') (Col [] [] ''d'') RATIO_ZERO) = VNum 0 \<and>
   ev (\<lambda>t c. VNum 3) (guard_division (Col [] [] ''n'') (Col [] [] ''d'') RATIO_NULL) = VNum 1 \<and>
   ev (\<lambda>t c. VNull) (guard_division (Col [] [] ''n'') (Col [] [] ''d'') RATIO_ZERO) = VNum 0"
  using ratio_policy_means [of "\<lambda>t c. if c = ''n'' then VNum 6 else VNum 0" "Col [] [] ''n''" "Col [] [] ''d''" 6 0 RATIO_ZERO]
    ratio_policy_means [of "\<lambda>t c. VNum 3" "Col [] [] ''n''" "Col [] [] ''d''" 3 3 RATIO_NULL]
    ratio_policy_means [of "\<lambda>t c. VNull" "Col [] [] ''n''" "Col [] [] ''d''" 0 0 RATIO_ZERO]
  by (simp add: numeric_def)


text \<open>
  The earliest watermark is chosen by comparing texts: the first of two watermarks written with different
  offsets is the later instant, and it is the one reported.
\<close>

lemma earliest_watermark_compares_texts:
  "map_option fm_watermark (merge_finality (fst (fuse True
     [sample_plan ''o'' ''n'' ''2026-03-01T20:00:00+00:00'', sample_plan ''v'' ''k'' ''2026-03-01T23:00:00+09:00'']))) =
   Some ''2026-03-01T20:00:00+00:00''"
  by code_simp

end
