(* ===== verification/Strategies.thy ===== *)
theory Strategies
  imports Compose Offsets
begin

text \<open>
  \<^verbatim>\<open>src/canonic/compiler/strategies\<close>: how a metric of each kind becomes leaves and an expression over their
  columns, and the dispatch of \<^verbatim>\<open>compiler/pipeline.py\<close>. The planner of a kind differs from another's in the
  SELECT its leaf builds; scoping, joins and tenancy are those of \<open>Leaf\<close>. Theorems say that every SELECT of every
  kind filters the rows it scans by the tenant predicates of its leaf, and that the value of a derived metric
  is its expression over the values of its inputs.
\<close>

section \<open>What a planner returns\<close>

record composition_component =
  cc_metric :: string
  cc_resolved :: "string option"
  cc_population :: "string option"

record composition_metadata =
  cn_kind :: binding_kind
  cn_numerator :: string
  cn_denominator :: string
  cn_on_zero :: on_zero_denominator
  cn_components :: "composition_component list"
  cn_parts :: "string list"

record partial_metadata =
  pa_dimension :: string
  pa_agg :: collapse_agg
  pa_collapsed :: bool

record recompute_metadata =
  rc_kind :: binding_kind
  rc_distinct_on :: "string option"
  rc_column :: "string option"
  rc_quantile :: "rat option"

record opaque_metadata =
  om_source :: string
  om_measure :: string
  om_native_grain :: "string list"

record cumulative_metadata =
  cu_metric :: string
  cu_order_by :: "string list"
  cu_partition_by :: "string list"
  cu_on_gap :: on_gap
  cu_history :: history
  cu_visibility :: "string list"
  cu_window :: "string option"
  cu_grain_to_date :: "string option"
  cu_period_agg :: string
  cu_lookback :: "string option"

record offset_metadata =
  of_metric :: string
  of_base :: string
  of_time_dimension :: string
  of_offset :: string
  of_shifted_filters :: "string list"

record derived_metadata =
  dm_metric :: string
  dm_expr :: string
  dm_inputs :: "(string \<times> string \<times> string option) list"
  dm_on_zero :: on_zero_denominator

record conversion_metadata =
  cv_metric :: string
  cv_base :: string
  cv_conversion :: string
  cv_entity :: "string \<times> string"
  cv_base_time :: string
  cv_conversion_time :: string
  cv_window :: "string option"
  cv_calculation :: string
  cv_properties :: "(string \<times> string) list"
  cv_attribution :: string

record metric_leaves =
  ml_leaves :: "leaf_plan list"
  ml_metric :: metric_plan
  ml_resolved :: string
  ml_composition :: "composition_metadata option"
  ml_partial :: "partial_metadata option"
  ml_recompute :: "recompute_metadata option"
  ml_opaque :: "opaque_metadata option"
  ml_cumulative :: "cumulative_metadata option"
  ml_offsets :: "offset_metadata list"
  ml_derived :: "derived_metadata list"
  ml_conversions :: "conversion_metadata list"
  ml_warnings :: "string list"

definition plain_leaves :: "leaf_plan list \<Rightarrow> metric_plan \<Rightarrow> string \<Rightarrow> metric_leaves" where
  "plain_leaves lps mp r = \<lparr>ml_leaves = lps, ml_metric = mp, ml_resolved = r, ml_composition = None, ml_partial = None,
     ml_recompute = None, ml_opaque = None, ml_cumulative = None, ml_offsets = [], ml_derived = [], ml_conversions = [], ml_warnings = []\<rparr>"

definition direct_plan :: "string \<Rightarrow> metric_plan" where
  "direct_plan name = MetricPlan name [\<lparr>lr_leaf = 0, lr_column = name\<rparr>] DIRECT None False [] None None"

text \<open>
  What a planner reads besides the binding: the offsets and populations it is planned under, and the
  context. The adapter of the dialect decides about percentiles, prints a quantile, adds to a date a number of
  units or an expression for it, names its timestamp type and prints a statement. The dash in a warning is written in ASCII.
\<close>

record planning =
  pl_engine :: engine
  pl_shifts :: "time_shift list"
  pl_enclosing :: "string list"
  pl_ctx :: leaf_context
  pl_dialect :: string
  pl_percentile_cont :: bool
  pl_quantile_text :: "rat \<Rightarrow> string"
  pl_parse_postgres :: "string \<Rightarrow> sql option"
  pl_date_add :: "sql \<Rightarrow> int + sql \<Rightarrow> duration_unit \<Rightarrow> bool \<Rightarrow> sql"
  pl_timestamp_type :: string
  pl_render :: "stmt list \<Rightarrow> string"

definition population :: "resolved \<Rightarrow> string option" where
  "population b = cr_population_filter (mb_canonical (rb_binding b))"

definition plan_one :: "planning \<Rightarrow> string \<Rightarrow> resolved_metric \<Rightarrow> string option \<Rightarrow> string \<Rightarrow> leaf_options \<Rightarrow> semantic_query \<Rightarrow> leaf_plan res" where
  "plan_one pl owner rm pop alias lt q =
     plan_leaf (pl_engine pl) (pl_shifts pl) (pl_enclosing pl) ((pl_ctx pl)\<lparr>lc_query := q\<rparr>) owner
       [\<lparr>lm_resolved = rm, lm_population = pop, lm_alias = Some alias\<rparr>] lt"

section \<open>Single metrics\<close>

definition bind_metric :: "string \<Rightarrow> resolved \<Rightarrow> sources \<Rightarrow> resolved_metric res" where
  "bind_metric name b srcs =
     (case (rb_source b, rb_measure b) of
        (Some s, Some me) \<Rightarrow>
          (case map_of srcs s of
             None \<Rightarrow> Inl (CanonicError Unresolved [name, s] [])
           | Some src \<Rightarrow>
               (case find_measure src me of
                  None \<Rightarrow> Inl (CanonicError Unresolved [name, s, me] [])
                | Some m \<Rightarrow> Inr \<lparr>rm_name = name, rm_source = s, rm_measure = m\<rparr>))
      | _ \<Rightarrow> Inl AssertionError)"

definition plan_simple :: "planning \<Rightarrow> string \<Rightarrow> resolved \<Rightarrow> metric_leaves res" where
  "plan_simple pl name b =
     rbind (bind_metric name b (lc_sources (pl_ctx pl))) (\<lambda>rm.
     rbind (plan_one pl (rm_source rm) rm (population b) name
         \<lparr>lt_finality_metric = Some name, lt_strategy = ''single'', lt_params = [], lt_builder = None, lt_fusable = True\<rparr>
         (lc_query (pl_ctx pl))) (\<lambda>lp.
       Inr (plain_leaves [lp] (direct_plan name) (rm_source rm @ ''.'' @ me_name (rm_measure rm)))))"

section \<open>Opaque metrics\<close>

definition build_opaque :: "engine \<Rightarrow> string \<Rightarrow> shifts \<Rightarrow> leaf_inputs \<Rightarrow> resolved_metric \<Rightarrow> stmt res" where
  "build_opaque en alias sh li m =
     rbind (rmap (masked_dimension (en_cols en) (en_backend en) sh (li_mask li)) (li_dimensions li)) (\<lambda>des.
     rbind (measure_expr (en_backend en) (rm_source m) (rm_measure m)) (\<lambda>me.
     rbind (from_and_joins (en_backend en) (li_owner li) (li_edges li) (lc_sources (li_ctx li))) (\<lambda>(f, js).
       Inr (Stmt (zip des (dim_names li) @ [(me, alias)]) None f js (li_where li) []))))"

definition opaque_builder :: "engine \<Rightarrow> string \<Rightarrow> string list \<Rightarrow> leaf_builder" where
  "opaque_builder en name grain sh li metrics =
     (let requested = map (dim_name \<circ> snd) (li_dimensions li)
      in if set requested \<noteq> set grain
         then Inl (CanonicError UnsupportedMeasure ([name] @ sort grain @ sorted_set requested) [])
         else (case metrics of
             [] \<Rightarrow> Inl IndexError
           | lm # _ \<Rightarrow> map_sum id (\<lambda>s. ([s], [])) (build_opaque en name sh li (lm_resolved lm))))"

definition plan_opaque :: "planning \<Rightarrow> string \<Rightarrow> resolved \<Rightarrow> metric_leaves res" where
  "plan_opaque pl name b =
     (case rb_part b of
        Opaque grain \<Rightarrow>
          rbind (bind_metric name b (lc_sources (pl_ctx pl))) (\<lambda>rm.
          rbind (plan_one pl (rm_source rm) rm (population b) name
              \<lparr>lt_finality_metric = None, lt_strategy = ''opaque'', lt_params = [(''native_grain'', join_with '','' (sort grain))],
               lt_builder = Some (opaque_builder (pl_engine pl) name grain), lt_fusable = False\<rparr> (lc_query (pl_ctx pl))) (\<lambda>lp.
          (case resolved_key b of
             None \<Rightarrow> Inl AssertionError
           | Some key \<Rightarrow>
               Inr ((plain_leaves [lp] (direct_plan name) key)\<lparr>ml_opaque := Some \<lparr>om_source = rm_source rm,
                 om_measure = me_name (rm_measure rm), om_native_grain = grain\<rparr>\<rparr>))))
      | _ \<Rightarrow> Inl AssertionError)"

section \<open>Distinct counts and percentiles\<close>

definition named_dimensions :: "engine \<Rightarrow> shifts \<Rightarrow> leaf_inputs \<Rightarrow> (sql \<times> string) list res" where
  "named_dimensions en sh li =
     map_sum id (\<lambda>des. zip des (dim_names li))
       (rmap (masked_dimension (en_cols en) (en_backend en) sh (li_mask li)) (li_dimensions li))"

definition literal :: "string \<Rightarrow> sql" where
  "literal n = Op (''number '' @ n) []"

definition build_percentile_fallback :: "engine \<Rightarrow> string \<Rightarrow> string \<Rightarrow> string \<Rightarrow> string \<Rightarrow> shifts \<Rightarrow> leaf_inputs \<Rightarrow> built res" where
  "build_percentile_fallback en quantile table phys name sh li =
     (let ranked = li_prefix li @ ''_ranked''; col = Col [] table phys; outs = map (Col [] ranked) (dim_names li)
      in rbind (named_dimensions en sh li) (\<lambda>dims.
         rbind (from_and_joins (en_backend en) (li_owner li) (li_edges li) (lc_sources (li_ctx li))) (\<lambda>(f, js).
         rbind (parse_sql (en_backend en) (phys @ '' IS NOT NULL'')) (\<lambda>nn.
           (let inner = Stmt (dims @ [(col, ''_val''),
                    (Op ''Window'' [Op ''CumeDist'' [], Op ''PartitionBy'' (map fst dims), Op ''Order'' [Op ''Ordered'' [col]]], ''_cd'')])
                  None f js (li_where li @ [qualify_to nn table]) [];
                outer = Stmt (zip outs (dim_names li) @ [(Op ''MIN'' [Col [] ranked ''_val''], name)]) None
                  (FromTable ranked ranked) [] [Op ''GTE'' [Col [] ranked ''_cd'', literal quantile]] outs
            in Inr ([outer], [\<lparr>ax_name = ranked, ax_body = [inner]\<rparr>]))))))"

definition build_recompute :: "planning \<Rightarrow> binding_kind \<Rightarrow> rat option \<Rightarrow> string \<Rightarrow> string \<Rightarrow> string \<Rightarrow> shifts \<Rightarrow> leaf_inputs \<Rightarrow> built res" where
  "build_recompute pl kind quantile table phys name sh li =
     (let en = pl_engine pl;
          simple = (\<lambda>agg. rbind (named_dimensions en sh li) (\<lambda>dims.
            rbind (from_and_joins (en_backend en) (li_owner li) (li_edges li) (lc_sources (li_ctx li))) (\<lambda>(f, js).
              Inr ([Stmt (dims @ [(agg, name)]) None f js (li_where li) (map fst dims)], []))))
      in if kind = DISTINCT_COUNT then simple (Op ''Count'' [Op ''Distinct'' [Col [] table phys]])
         else (case quantile of
             None \<Rightarrow> Inl AssertionError
           | Some q \<Rightarrow>
               if \<not> pl_percentile_cont pl then build_percentile_fallback en (pl_quantile_text pl q) table phys name sh li
               else rbind (parse_sql (en_backend en) (''PERCENTILE_CONT('' @ pl_quantile_text pl q @ '') WITHIN GROUP (ORDER BY '' @ phys @ '')'')) (\<lambda>e.
                 simple (qualify_to e table))))"

definition recompute_builder :: "planning \<Rightarrow> binding_kind \<Rightarrow> rat option \<Rightarrow> string \<Rightarrow> string \<Rightarrow> string \<Rightarrow> leaf_builder" where
  "recompute_builder pl kind quantile table phys name sh li metrics =
     (if li_fanout li \<and> kind = PERCENTILE then Inl (CanonicError FanoutUnsafe [name] [])
      else build_recompute pl kind quantile table phys name sh li)"

definition make_synthetic_measure :: "string \<Rightarrow> measure" where
  "make_synthetic_measure col = \<lparr>me_name = col, me_expr = col, me_additivity = NON_ADDITIVE, me_semi_additive_over = []\<rparr>"

definition percentile_warning :: "string \<Rightarrow> string \<Rightarrow> string" where
  "percentile_warning name dialect =
     ''metric '' @ QUOTE # name @ QUOTE # '': dialect '' @ QUOTE # dialect @ QUOTE #
     '' has no native percentile aggregate - computed via nearest-rank window function, which returns an actual row value rather than a linearly interpolated one (differs from PERCENTILE_CONT on even-sized groups)''"

definition plan_recompute :: "planning \<Rightarrow> string option \<Rightarrow> string \<Rightarrow> resolved \<Rightarrow> metric_leaves res" where
  "plan_recompute pl parent name b =
     (let srcs = lc_sources (pl_ctx pl)
      in case (rb_part b, rb_source b) of
           (RecomputeAtGrain kind don cl quantile, Some s) \<Rightarrow>
             (case (if kind = DISTINCT_COUNT then don else cl) of
                None \<Rightarrow> Inl AssertionError
              | Some c \<Rightarrow>
                  rbind (bind_name c srcs (Some s) (Some (build_alias_tree s srcs))) (\<lambda>found.
                  (case found of
                     None \<Rightarrow> Inl (CanonicError Unreachable [name, c, s] [])
                   | Some (table, phys) \<Rightarrow>
                       rbind (plan_one pl s \<lparr>rm_name = name, rm_source = s, rm_measure = make_synthetic_measure phys\<rparr>
                           (combine_population_filters [parent, population b]) name
                           \<lparr>lt_finality_metric = None, lt_strategy = kind_value kind,
                            lt_params = [(''column'', c), (''quantile'', case quantile of None \<Rightarrow> [] | Some q \<Rightarrow> pl_quantile_text pl q)],
                            lt_builder = Some (recompute_builder pl kind quantile table phys name), lt_fusable = False\<rparr>
                           (lc_query (pl_ctx pl))) (\<lambda>lp.
                         Inr ((plain_leaves [lp] (direct_plan name) (''recompute_at_grain('' @ s @ ''.'' @ c @ '')''))
                           \<lparr>ml_recompute := Some \<lparr>rc_kind = kind, rc_distinct_on = don, rc_column = cl, rc_quantile = quantile\<rparr>,
                            ml_warnings := (if kind = PERCENTILE \<and> \<not> pl_percentile_cont pl then [percentile_warning name (pl_dialect pl)] else [])\<rparr>)))))
         | _ \<Rightarrow> Inl AssertionError)"

section \<open>Semi-additive metrics\<close>

fun collapse_value :: "collapse_agg \<Rightarrow> string" where
  "collapse_value LAST_AGG = ''last''"
| "collapse_value FIRST_AGG = ''first''"
| "collapse_value AVG_AGG = ''avg''"
| "collapse_value MIN_AGG = ''min''"
| "collapse_value MAX_AGG = ''max''"

definition same_time_axis :: "string \<times> dimension \<Rightarrow> string \<times> dimension \<Rightarrow> bool" where
  "same_time_axis ad collapse \<longleftrightarrow> fst ad = fst collapse \<and> dim_column (snd ad) \<noteq> None \<and> dim_json_path (snd ad) = None \<and>
     dim_column (snd ad) = dim_column (snd collapse)"

text \<open>The entity key projected beside the dimensions, each output name once.\<close>

definition new_names :: "string list \<Rightarrow> (sql \<times> string) list \<Rightarrow> (sql \<times> string) list" where
  "new_names seen es = snd (fold (\<lambda>(e, n) (sn, out). if n \<in> set sn then (sn, out) else (sn @ [n], out @ [(e, n)])) es (seen, []))"

definition build_last :: "engine \<Rightarrow> measure \<Rightarrow> string \<Rightarrow> string \<times> dimension \<Rightarrow> (string \<times> dimension) list \<Rightarrow> bool \<Rightarrow> shifts \<Rightarrow> leaf_inputs \<Rightarrow> built res" where
  "build_last en me name collapse grain desc sh li =
     (let bk = en_backend en; ranked = li_prefix li @ ''ranked''; outs = map (Col [] ranked) (dim_names li)
      in rbind (dimension_base_expr bk sh (fst collapse) (snd collapse)) (\<lambda>cc.
         rbind (named_dimensions en sh li) (\<lambda>dims.
         rbind (rmap (\<lambda>(a, d). dimension_expr bk sh a d None) grain) (\<lambda>ges.
         rbind (rmap (\<lambda>(a, d). dimension_expr bk sh a d None) (filter (\<lambda>ad. same_time_axis ad collapse) (li_dimensions li))) (\<lambda>tes.
         rbind (input_columns bk me) (\<lambda>inputs.
         rbind (from_and_joins bk (li_owner li) (li_edges li) (lc_sources (li_ctx li))) (\<lambda>(f, js).
         rbind (parse_sql bk (me_expr me)) (\<lambda>e.
           (let inner = Stmt (dims @ new_names (dim_names li) (zip ges (dimension_output_names grain)) @
                  map (\<lambda>c. (Col [] (li_owner li) c, c)) inputs @
                  [(Op ''Window'' [Op ''RowNumber'' [], Op ''PartitionBy'' (ges @ tes), Op ''Order'' [Op (if desc then ''Desc'' else ''Asc'') [cc]]], ''rn'')])
                  None f js (li_where li) [];
                outer = Stmt (zip outs (dim_names li) @ [(qualify_to e ranked, name)]) None (FromTable ranked ranked) []
                  [Op ''EQ'' [Col [] ranked ''rn'', number 1]] outs
            in Inr ([outer], [\<lparr>ax_name = ranked, ax_body = [inner]\<rparr>]))))))))))"

definition build_per_snapshot :: "engine \<Rightarrow> measure \<Rightarrow> string \<Rightarrow> string \<times> dimension \<Rightarrow> collapse_agg \<Rightarrow> shifts \<Rightarrow> leaf_inputs \<Rightarrow> built res" where
  "build_per_snapshot en me name collapse agg sh li =
     (let bk = en_backend en; snap = li_prefix li @ ''per_snapshot''; outs = map (Col [] snap) (dim_names li)
      in rbind (dimension_base_expr bk sh (fst collapse) (snd collapse)) (\<lambda>cc.
         rbind (named_dimensions en sh li) (\<lambda>dims.
         rbind (measure_expr bk (li_owner li) me) (\<lambda>mexpr.
         rbind (from_and_joins bk (li_owner li) (li_edges li) (lc_sources (li_ctx li))) (\<lambda>(f, js).
           Inr ([Stmt (zip outs (dim_names li) @ [(Op (str_upper (collapse_value agg)) [Col [] snap ''m''], name)]) None (FromTable snap snap) [] [] outs],
                [\<lparr>ax_name = snap, ax_body = [Stmt (dims @ [(mexpr, ''m'')]) None f js (li_where li) (map fst dims @ [cc])]\<rparr>]))))))"

definition semi_additive_builder :: "engine \<Rightarrow> measure \<Rightarrow> string \<Rightarrow> string \<times> dimension \<Rightarrow> (string \<times> dimension) list \<Rightarrow> collapse_agg \<Rightarrow> bool \<Rightarrow> leaf_builder" where
  "semi_additive_builder en me name collapse grain agg collapsed sh li metrics =
     (if li_fanout li then Inl (CanonicError FanoutUnsafe [name] [])
      else if \<not> collapsed
      then map_sum id (\<lambda>s. ([s], [])) (build_simple (en_cols en) (en_backend en) sh (li_owner li) (map lm_resolved metrics) (li_dimensions li)
             (li_where li) (li_edges li) (lc_sources (li_ctx li)) [name] (li_mask li))
      else if agg \<in> {LAST_AGG, FIRST_AGG} then build_last en me name collapse grain (agg = LAST_AGG) sh li
      else build_per_snapshot en me name collapse agg sh li)"

definition grain_dimension :: "string \<Rightarrow> sources \<Rightarrow> string \<Rightarrow> (string, string) dict \<Rightarrow> string \<Rightarrow> (string \<times> dimension) res" where
  "grain_dimension name srcs owner tree c =
     rbind (find_dimension c srcs (Some owner) (Some tree)) (\<lambda>found.
       case found of None \<Rightarrow> Inl (CanonicError Unresolved [name, c, owner] []) | Some ad \<Rightarrow> Inr ad)"

definition plan_semi_additive :: "planning \<Rightarrow> string \<Rightarrow> resolved \<Rightarrow> metric_leaves res" where
  "plan_semi_additive pl name b =
     (let en = pl_engine pl; srcs = lc_sources (pl_ctx pl); q = lc_query (pl_ctx pl)
      in case rb_part b of
           SemiAdditive dname agg \<Rightarrow>
             rbind (bind_metric name b srcs) (\<lambda>rm.
             let s = rm_source rm; me = rm_measure rm; tree = build_alias_tree s srcs
             in if me_additivity me \<noteq> ADDITIVE then Inl (CanonicError UnsupportedMeasure [name, s, me_name me] [])
                else if \<not> is_p0_compilable (en_find_agg en) me then Inl (CanonicError UnsupportedMeasure [s, me_name me] [])
                else rbind (find_dimension dname srcs (Some s) (Some tree)) (\<lambda>found.
                  case found of
                    None \<Rightarrow> Inl (CanonicError Unresolved [name, dname] [])
                  | Some collapse \<Rightarrow>
                      rbind (rmap (grain_dimension name srcs s tree)
                          (filter (\<lambda>c. c \<noteq> dname) (case map_of srcs s of None \<Rightarrow> [] | Some src \<Rightarrow> ss_grain src))) (\<lambda>grain.
                      rbind (resolve_dimensions (en_backend en) q srcs s tree) (\<lambda>dims.
                        let collapsed = (dname \<notin> set (map (dim_name \<circ> snd) dims))
                        in rbind (plan_one pl s rm (population b) name
                               \<lparr>lt_finality_metric = None, lt_strategy = ''semi_additive'',
                                lt_params = [(''collapse_dimension'', dname), (''collapse_agg'', collapse_value agg)],
                                lt_builder = Some (semi_additive_builder en me name collapse grain agg collapsed), lt_fusable = False\<rparr> q) (\<lambda>lp.
                             Inr ((plain_leaves [lp] (direct_plan name) (s @ ''.'' @ me_name me))\<lparr>ml_partial := Some
                               \<lparr>pa_dimension = dname, pa_agg = agg, pa_collapsed = collapsed\<rparr>\<rparr>))))))
         | _ \<Rightarrow> Inl AssertionError)"

section \<open>Running totals\<close>

definition order_dimensions :: "string \<Rightarrow> string list \<Rightarrow> (string \<times> dimension) list \<Rightarrow> sources \<Rightarrow> string \<Rightarrow> (string, string) dict \<Rightarrow> nat list res" where
  "order_dimensions metric order_by dims srcs owner tree =
     (let requested = rev (map (\<lambda>(i, (a, d)). ((a, dim_name d), i)) (enumerate_list dims))
      in rbind (rmap (\<lambda>n. rbind (find_dimension n srcs (Some owner) (Some tree)) (\<lambda>found.
             case found of
               None \<Rightarrow> Inl (CanonicError Unresolved [metric, n, owner] [])
             | Some (a, d) \<Rightarrow> Inr (n, map_of requested (a, dim_name d)))) order_by) (\<lambda>pairs.
           let missing = map fst (filter (\<lambda>p. snd p = None) pairs)
           in if missing \<noteq> [] then Inl (CanonicError UnsupportedMeasure (metric # missing) [])
              else Inr (map (the \<circ> snd) pairs)))"

text \<open>Whether a filter decides what is shown (\<open>True\<close>) or what is accumulated.\<close>

definition split_filter :: "engine \<Rightarrow> shifts \<Rightarrow> string \<Rightarrow> (string \<times> string) list \<Rightarrow> sources \<Rightarrow> string \<Rightarrow> (string, string) dict \<Rightarrow>
    effective_policy \<Rightarrow> string \<Rightarrow> (string \<times> bool) res" where
  "split_filter en sh metric order_columns srcs owner tree pol raw =
     rbind (bind_filters (en_cols en) (en_backend en) sh [raw] srcs owner (Some tree) (Some pol)) (\<lambda>(bound, used).
       (let cs = concat (map columns bound)
        in if \<not> reads_any cs order_columns then Inr (raw, False)
           else if set cs \<subseteq> set order_columns then Inr (raw, True)
           else Inl (CanonicError UnsupportedMeasure [metric, raw] [])))"

definition split_filters :: "engine \<Rightarrow> shifts \<Rightarrow> string \<Rightarrow> (string \<times> string) list \<Rightarrow> sources \<Rightarrow> string \<Rightarrow> (string, string) dict \<Rightarrow>
    effective_policy \<Rightarrow> string list \<Rightarrow> (string list \<times> string list) res" where
  "split_filters en sh metric order_columns srcs owner tree pol filters =
     map_sum id (\<lambda>fs. (map fst (filter (Not \<circ> snd) fs), map fst (filter snd fs)))
       (rmap (split_filter en sh metric order_columns srcs owner tree pol) filters)"

text \<open>A plain DISTINCT is an empty list of keys.\<close>

definition visible_tuples :: "engine \<Rightarrow> shifts \<Rightarrow> leaf_inputs \<Rightarrow> nat list \<Rightarrow> sql list \<Rightarrow> stmt res" where
  "visible_tuples en sh li order_dims visibility =
     rbind (rmap (\<lambda>i. if i < length (li_dimensions li)
         then map_sum id (\<lambda>e. (e, dim_names li ! i)) (masked_dimension (en_cols en) (en_backend en) sh (li_mask li) (li_dimensions li ! i))
         else Inl IndexError) order_dims) (\<lambda>projs.
     rbind (from_and_joins (en_backend en) (li_owner li) (li_edges li) (lc_sources (li_ctx li))) (\<lambda>(f, js).
       Inr (Stmt projs (Some []) f js (li_where li @ visibility) [])))"

definition cumulative_builder :: "engine \<Rightarrow> nat list \<Rightarrow> sql list \<Rightarrow> leaf_builder" where
  "cumulative_builder en order_dims visibility sh li metrics =
     rbind (build_additive en sh li metrics) (\<lambda>(select, aux).
       if visibility = [] then Inr (select, [])
       else map_sum id (\<lambda>v. (select, [\<lparr>ax_name = li_prefix li @ VISIBLE_CTE, ax_body = [v]\<rparr>])) (visible_tuples en sh li order_dims visibility))"

fun history_value :: "history \<Rightarrow> string" where
  "history_value EXCLUDE = ''exclude''"
| "history_value INCLUDE = ''include''"

definition fill_warning :: "string \<Rightarrow> string" where
  "fill_warning metric = ''cumulative metric '' @ QUOTE # metric @ QUOTE #
     '' uses on_gap: fill_observed; the result contains filled rows that carry the running total forward, up to observed order tuples times partitions''"

definition order_columns_of :: "engine \<Rightarrow> (string \<times> dimension) list \<Rightarrow> nat list \<Rightarrow> (string \<times> string) list res" where
  "order_columns_of en dims order_dims =
     map_sum id concat (rmap (\<lambda>i. map_sum id (map (Pair (fst (dims ! i)))) (backing_columns (en_cols en) (snd (dims ! i)))) order_dims)"

text \<open>The leaf and the presentation, once order, filters and their conditions are known.\<close>

definition cumulative_of :: "planning \<Rightarrow> string \<Rightarrow> resolved \<Rightarrow> string list \<Rightarrow> on_gap \<Rightarrow> history \<Rightarrow> resolved_metric \<Rightarrow>
    (string \<times> dimension) list \<Rightarrow> nat list \<Rightarrow> string list \<Rightarrow> string list \<Rightarrow> sql list \<Rightarrow> metric_leaves res" where
  "cumulative_of pl name b order gap hist rm dims ods regular visibility conds =
     (let q = lc_query (pl_ctx pl); outs = dimension_output_names dims; order_by = map ((!) outs) ods;
          rest = filter (\<lambda>i. i \<notin> set ods) [0..<length dims]
      in rbind (plan_one pl (rm_source rm) rm (population b) name
             \<lparr>lt_finality_metric = None, lt_strategy = ''cumulative'',
              lt_params = [(''order_by'', join_with '','' order_by), (''history'', history_value hist),
                (''visibility'', join_with NUL (sort visibility))],
              lt_builder = Some (cumulative_builder (pl_engine pl) ods conds), lt_fusable = True\<rparr> (q\<lparr>sq_filters := regular\<rparr>)) (\<lambda>lp.
           Inr ((plain_leaves [lp]
               (MetricPlan name [\<lparr>lr_leaf = 0, lr_column = name\<rparr>] DIRECT
                 (Some \<lparr>ac_order_by = order_by, ac_partition_by = map ((!) outs) rest,
                   ac_fill_observed = (gap = FILL_OBSERVED), ac_visibility = (conds \<noteq> [])\<rparr>) True [] None None)
               (key_or (resolved_key b) (''cumulative('' @ rm_source rm @ ''.'' @ me_name (rm_measure rm) @ '')'')))
             \<lparr>ml_cumulative := Some \<lparr>cu_metric = name, cu_order_by = order, cu_partition_by = map ((!) (sq_dimensions q)) rest,
                cu_on_gap = gap, cu_history = hist, cu_visibility = visibility,
                cu_window = None, cu_grain_to_date = None, cu_period_agg = ''last'', cu_lookback = None\<rparr>,
              ml_warnings := (if gap = FILL_OBSERVED \<and> rest \<noteq> [] then [fill_warning name] else [])\<rparr>)))"

definition plan_cumulative :: "planning \<Rightarrow> string \<Rightarrow> resolved \<Rightarrow> metric_leaves res" where
  "plan_cumulative pl name b =
     (let en = pl_engine pl; ctx = pl_ctx pl; srcs = lc_sources ctx; q = lc_query ctx
      in case rb_part b of
           Cumulative order gap hist window to_date agg \<Rightarrow>
             rbind (bind_metric name b srcs) (\<lambda>rm.
             let s = rm_source rm; me = rm_measure rm; tree = build_alias_tree s srcs
             in if me_additivity me \<noteq> ADDITIVE \<or> \<not> is_p0_compilable (en_find_agg en) me
                then Inl (CanonicError UnsupportedMeasure [name, s, me_name me] [])
                else rbind (resolve_dimensions (en_backend en) q srcs s tree) (\<lambda>dims.
                  rbind (order_dimensions name order dims srcs s tree) (\<lambda>ods.
                  rbind (leaf_shifts (en_cols en) (pl_shifts pl) s srcs tree) (\<lambda>sh.
                  rbind (if hist = INCLUDE
                      then rbind (order_columns_of en dims ods) (\<lambda>ocs. split_filters en sh name ocs srcs s tree (lc_policy ctx) (sq_filters q))
                      else Inr (sq_filters q, [])) (\<lambda>(regular, visibility).
                  rbind (bind_filters (en_cols en) (en_backend en) sh visibility srcs s (Some tree) (Some (lc_policy ctx))) (\<lambda>(conds, used).
                    cumulative_of pl name b order gap hist rm dims ods regular visibility conds))))))
         | _ \<Rightarrow> Inl AssertionError)"

section \<open>Ratios\<close>

fun zero_policy :: "on_zero_denominator \<Rightarrow> combine" where
  "zero_policy ZD_NULL = RATIO_NULL"
| "zero_policy ZD_ZERO = RATIO_ZERO"
| "zero_policy ZD_ERROR = RATIO_RAW"

definition plan_component :: "planning \<Rightarrow> string option \<Rightarrow> resolved \<Rightarrow> leaf_plan res" where
  "plan_component pl parent c =
     (if rb_kind c = DISTINCT_COUNT
      then rbind (plan_recompute pl parent (rb_metric c) c) (\<lambda>ml. case ml_leaves ml of [] \<Rightarrow> Inl IndexError | lp # _ \<Rightarrow> Inr lp)
      else if rb_kind c \<noteq> SINGLE then Inl (CanonicError UnsupportedMeasure [rb_metric c, kind_value (rb_kind c)] [])
      else rbind (bind_metric (rb_metric c) c (lc_sources (pl_ctx pl))) (\<lambda>rm.
        plan_one pl (rm_source rm) rm (combine_population_filters [parent, population c]) (rb_metric c)
          \<lparr>lt_finality_metric = Some (rb_metric c), lt_strategy = ''single'', lt_params = [], lt_builder = None, lt_fusable = True\<rparr>
          (lc_query (pl_ctx pl))))"

definition reported_population :: "string option list \<Rightarrow> string option" where
  "reported_population fs =
     (let present = filter (\<lambda>f. \<not> empty_opt f) fs
      in case present of [] \<Rightarrow> None | [f] \<Rightarrow> f | _ \<Rightarrow> combine_population_filters present)"

definition composition_component_of :: "string option \<Rightarrow> resolved \<Rightarrow> composition_component" where
  "composition_component_of parent c =
     \<lparr>cc_metric = rb_metric c, cc_resolved = resolved_key c, cc_population = reported_population [parent, population c]\<rparr>"

definition first_alias :: "leaf_plan \<Rightarrow> string res" where
  "first_alias lp = (case lp_aliases lp of [] \<Rightarrow> Inl IndexError | a # _ \<Rightarrow> Inr a)"

definition plan_composite :: "planning \<Rightarrow> resolved \<Rightarrow> metric_leaves res" where
  "plan_composite pl b =
     (case rb_part b of
        Components n d z \<Rightarrow>
          rbind (plan_component pl (population b) n) (\<lambda>ln.
          rbind (plan_component pl (population b) d) (\<lambda>ld.
          (case resolved_key b of
             None \<Rightarrow> Inl AssertionError
           | Some key \<Rightarrow>
               rbind (first_alias ln) (\<lambda>an. rbind (first_alias ld) (\<lambda>ad.
                 Inr ((plain_leaves [ln, ld] (MetricPlan (rb_metric b) [\<lparr>lr_leaf = 0, lr_column = an\<rparr>, \<lparr>lr_leaf = 1, lr_column = ad\<rparr>]
                       (zero_policy z) None False [] None None) key)
                   \<lparr>ml_composition := Some \<lparr>cn_kind = rb_kind b, cn_numerator = rb_metric n, cn_denominator = rb_metric d, cn_on_zero = z,
                      cn_components = [composition_component_of (population b) n, composition_component_of (population b) d],
                      cn_parts = (case cr_numerator_parts (mb_canonical (rb_binding b)) of None \<Rightarrow> [] | Some ps \<Rightarrow> ps)\<rparr>,
                    ml_warnings := (if z = ZD_NULL then [zero_denominator_warning (rb_metric b) None] else [])\<rparr>))))))
      | _ \<Rightarrow> Inl AssertionError)"

section \<open>Derived metrics\<close>

fun guarded :: "combine \<Rightarrow> sql \<Rightarrow> sql" where
  "guarded c (Col db t n) = Col db t n"
| "guarded c (Op f es) =
     (case (f = ''Div'', map (guarded c) es) of (True, [a, b]) \<Rightarrow> guard_division a b c | (_, gs) \<Rightarrow> Op f gs)"

fun divides :: "sql \<Rightarrow> bool" where
  "divides (Col db t n) = False"
| "divides (Op f es) = (f = ''Div'' \<or> list_ex divides es)"

definition template :: "planning \<Rightarrow> string \<Rightarrow> string list \<Rightarrow> combine \<Rightarrow> sql res" where
  "template pl e names c =
     (let placeholders = rev (map (\<lambda>(i, n). (n, operand_placeholder i)) (enumerate_list names))
      in case pl_parse_postgres pl e of
           None \<Rightarrow> Inl SqlglotError
         | Some parsed \<Rightarrow>
             Inr (guarded c (map_columns (\<lambda>db t n. if t = [] then (case map_of placeholders n of None \<Rightarrow> Col db t n | Some p \<Rightarrow> Col [] [] p)
               else Col db t n) parsed)))"

text \<open>The plans of the inputs, each pointing into the leaves gathered before it.\<close>

definition offset_operands :: "metric_leaves list \<Rightarrow> metric_plan list" where
  "offset_operands planned =
     map (\<lambda>i. plan_shifted (length (concat (map ml_leaves (take i planned)))) (ml_metric (planned ! i))) [0..<length planned]"

definition derived_of :: "planning \<Rightarrow> string \<Rightarrow> resolved \<Rightarrow> string \<Rightarrow> (string \<times> resolved) list \<Rightarrow> on_zero_denominator \<Rightarrow> metric_leaves list \<Rightarrow> metric_leaves res" where
  "derived_of pl name b e inputs z planned =
     (let operands = offset_operands planned; c = zero_policy z
      in rbind (template pl e (map fst inputs) c) (\<lambda>t.
           let own = set (map (\<lambda>p. zero_denominator_warning (mp_name p) None) (concat (map plan_walk operands)));
               warnings = filter (\<lambda>w. w \<notin> own) (concat (map ml_warnings planned))
           in Inr ((plain_leaves (concat (map ml_leaves planned))
                 (MetricPlan name (concat (map mp_refs operands)) DERIVED_C None False operands (Some t) (if divides t then Some c else None))
                 (key_or (resolved_key b) name))
               \<lparr>ml_offsets := concat (map ml_offsets planned),
                ml_derived := \<lparr>dm_metric = name, dm_expr = e, dm_inputs = map (\<lambda>(a, i). (a, rb_metric i, resolved_key i)) inputs, dm_on_zero = z\<rparr> #
                  concat (map ml_derived planned),
                ml_conversions := concat (map ml_conversions planned),
                ml_warnings := warnings @ (if divides t \<and> c = RATIO_NULL \<or> list_ex nulls_zero_denominator operands
                  then [zero_denominator_warning name None] else [])\<rparr>)))"

section \<open>Offsets\<close>

definition no_effect :: "string \<Rightarrow> string \<Rightarrow> string" where
  "no_effect metric dname = ''offset metric '' @ QUOTE # metric @ QUOTE # '' has no effect here: the query neither groups nor filters by '' @
     QUOTE # dname @ QUOTE # '', so the total over all rows is the base metric'' @ QUOTE # ''s''"

text \<open>What is known before the base is planned: the filters that move, whether a dimension does, and the shift.\<close>

definition offset_shift :: "planning \<Rightarrow> resolved \<Rightarrow> string \<Rightarrow> duration \<Rightarrow> (string list \<times> bool \<times> time_shift) res" where
  "offset_shift pl base td off =
     (let en = pl_engine pl; ctx = pl_ctx pl; srcs = lc_sources ctx; q = lc_query ctx
      in case List.map_filter rb_source (leaves base) of
           [] \<Rightarrow> Inl StopIteration
         | owner # _ \<Rightarrow>
             rbind (what_moves (en_cols en) (en_backend en) q td owner srcs (lc_policy ctx)) (\<lambda>(shifted, groups).
             rbind (prefilters (en_cols en) q td off owner srcs) (\<lambda>pre.
               Inr (shifted, groups, \<lparr>ts_dimension = td, ts_offset = off, ts_prefilters = pre\<rparr>))))"

fun renamed :: "string \<Rightarrow> metric_plan \<Rightarrow> metric_plan" where
  "renamed name (MetricPlan n refs c a cu ops t d) = MetricPlan name refs c a cu ops t d"

definition present_offset :: "string \<Rightarrow> resolved \<Rightarrow> resolved \<Rightarrow> string \<Rightarrow> duration \<Rightarrow> string list \<Rightarrow> bool \<Rightarrow> metric_leaves \<Rightarrow> metric_leaves" where
  "present_offset name b base td off shifted groups planned =
     planned\<lparr>ml_metric := renamed name (ml_metric planned), ml_resolved := key_or (resolved_key b) name,
       ml_offsets := \<lparr>of_metric = name, of_base = rb_metric base, of_time_dimension = td, of_offset = str_duration off,
         of_shifted_filters = shifted\<rparr> # ml_offsets planned,
       ml_warnings := ml_warnings planned @ (if shifted = [] \<and> \<not> groups then [no_effect name td] else [])\<rparr>"

section \<open>Every scan is scoped\<close>

text \<open>
  A statement of a built leaf either scans the owner and its planned joins under all conditions of the leaf, or
  reads nothing but what the leaf itself hoisted, through joins and subqueries.
\<close>

fun scoped :: "string \<Rightarrow> string list \<Rightarrow> sql list \<Rightarrow> string list \<Rightarrow> stmt \<Rightarrow> bool"
  and reads_hoisted :: "string \<Rightarrow> string list \<Rightarrow> sql list \<Rightarrow> string list \<Rightarrow> from_clause \<Rightarrow> bool" where
  "scoped owner aliases conds hs (Stmt ps dis f js ws gs) \<longleftrightarrow>
     (\<exists>t. f = FromTable t owner \<and> map (\<lambda>(t, a, on). a) js = aliases \<and> set conds \<subseteq> set ws) \<or>
     (js = [] \<and> reads_hoisted owner aliases conds hs f)"
| "reads_hoisted owner aliases conds hs (FromTable t a) \<longleftrightarrow> t \<in> set hs"
| "reads_hoisted owner aliases conds hs (FromStmt s a) \<longleftrightarrow> scoped owner aliases conds hs s"
| "reads_hoisted owner aliases conds hs (FromJoin k l r on) \<longleftrightarrow>
     reads_hoisted owner aliases conds hs l \<and> reads_hoisted owner aliases conds hs r"
| "reads_hoisted owner aliases conds hs NoFrom \<longleftrightarrow> True"

lemma scoped_mono:
  "set conds' \<subseteq> set conds \<Longrightarrow> set hs \<subseteq> set hs' \<Longrightarrow> scoped owner as conds hs s \<Longrightarrow> scoped owner as conds' hs' s"
  "set conds' \<subseteq> set conds \<Longrightarrow> set hs \<subseteq> set hs' \<Longrightarrow> reads_hoisted owner as conds hs f \<Longrightarrow> reads_hoisted owner as conds' hs' f"
  by (induction owner as conds hs s and owner as conds hs f rule: scoped_reads_hoisted.induct) auto

definition leaf_statements :: "built \<Rightarrow> stmt list" where
  "leaf_statements b = fst b @ concat (map ax_body (snd b))"

lemma build_simple_scoped:
  "build_simple cols bk sh owner ms dims conds edges srcs as dm = Inr s \<Longrightarrow> scoped owner (map je_alias edges) conds hs s"
  by (auto simp: build_simple_def rbind_Inr_iff dest!: from_and_joins_table)

lemma build_deduped_scoped:
  "build_deduped cols bk sh owner ms dims conds edges srcs as dm = Inr s \<Longrightarrow> scoped owner (map je_alias edges) conds hs s"
  by (auto simp: build_deduped_def build_dedup_inner_def rbind_Inr_iff Let_def split: option.splits dest!: from_and_joins_table)

text \<open>
  The tenant predicates a context demands of a scan of \<open>owner\<close> and \<open>edges\<close>, and the two ways a leaf meets
  them: on the tables it scans or, split at a watermark, moved from its own source onto the source of a branch.
\<close>

definition demands :: "leaf_context \<Rightarrow> string \<Rightarrow> join_edge list \<Rightarrow> sql list \<Rightarrow> bool" where
  "demands ctx owner edges conds \<longleftrightarrow>
     (\<exists>tenant. tenant_conditions (lc_resolver ctx) owner edges (build_alias_tree owner (lc_sources ctx)) (pr_tenants (lc_principal ctx))
        (lc_policy ctx) (lc_sources ctx) = Inr tenant \<and> conds = map tenant_sql (tn_conditions tenant))"

definition tenant_scoped :: "leaf_context \<Rightarrow> string list \<Rightarrow> stmt \<Rightarrow> bool" where
  "tenant_scoped ctx hs s \<longleftrightarrow> (\<exists>owner edges conds. demands ctx owner edges conds \<and> scoped owner (map je_alias edges) conds hs s)"

definition branch_scoped :: "leaf_context \<Rightarrow> string \<Rightarrow> stmt \<Rightarrow> bool" where
  "branch_scoped ctx owner s \<longleftrightarrow> (\<exists>edges conds. demands ctx owner edges conds \<and>
     (\<lambda>c. requalify_source c owner (from_alias (from_item (scan_of s)))) ` set conds \<subseteq> set (wheres (scan_of s)))"

definition leaf_scoped :: "leaf_context \<Rightarrow> leaf_plan \<Rightarrow> bool" where
  "leaf_scoped ctx lp \<longleftrightarrow> (\<forall>ms prefix b. lp_rebuild lp ms prefix = Inr b \<longrightarrow>
     (\<forall>s\<in>set (leaf_statements b). if lp_finality lp = None then tenant_scoped ctx (map ax_name (snd b)) s
        else branch_scoped ctx (lk_source (lp_key lp)) s))"

lemma tenant_scoped_mono: "tenant_scoped ctx hs s \<Longrightarrow> set hs \<subseteq> set hs' \<Longrightarrow> tenant_scoped ctx hs' s"
  unfolding tenant_scoped_def using scoped_mono(1) by blast

lemma scope_leaf_demands:
  assumes "scope_leaf en tss enc ctx owner metrics = Inr lo"
  obtains conds rest where "demands ctx owner (lo_edges lo) conds" and "ms_where (lo_scoping lo) = conds @ rest"
  using scope_leaf_parts [OF assms] that unfolding demands_def by metis

lemma union_scoped:
  assumes lo: "scope_leaf en tss enc ctx owner metrics = Inr lo"
    and u: "union_for en tss ctx owner lo rule td w ms = Inr b" and s: "s \<in> set (leaf_statements b)"
  shows "branch_scoped ctx owner s"
proof -
  obtain conds rest where d: "demands ctx owner (lo_edges lo) conds" and ws: "ms_where (lo_scoping lo) = conds @ rest"
    by (rule scope_leaf_demands [OF lo])
  obtain ua branches where b: "b = (branches, [])" and un: "build_finality_union (en_cols en) (en_backend en) (en_map_tables en) (lc_sources ctx) rule ua = Inr branches"
    and ua: "ua_owner ua = owner" "ua_conditions ua = conds @ rest"
    using u ws by (auto simp: union_for_def map_sum_Inr_iff)
  obtain r where "build_branch (en_cols en) (en_backend en) (en_map_tables en) (lc_sources ctx) ua r = Inr s"
    using s union_branches [OF un] unfolding b leaf_statements_def by (auto simp: list_all2_conv_all_nth in_set_conv_nth)
  from build_branch_scan [OF this] have "(\<lambda>c. requalify_source c owner (from_alias (from_item (scan_of s)))) ` set conds \<subseteq> set (wheres (scan_of s))"
    by (auto simp: ua)
  then show ?thesis using d by (auto simp: branch_scoped_def)
qed

lemma leaf_key_source: "leaf_key_for en tss ctx owner lo metrics finality st ps = Inr k \<Longrightarrow> lk_source k = owner"
  by (auto simp: leaf_key_for_def Let_def rbind_Inr_iff)

lemma planned_leaf:
  assumes "plan_leaf en tss enc ctx owner metrics lt = Inr lp"
  shows "\<exists>lo. scope_leaf en tss enc ctx owner metrics = Inr lo \<and> lk_source (lp_key lp) = owner \<and>
    (lp_finality lp = None \<and> lp_rebuild lp = emit_for en tss ctx owner lo (lt_builder lt) \<or>
     lp_finality lp \<noteq> None \<and> (\<forall>ms prefix b. lp_rebuild lp ms prefix = Inr b \<longrightarrow> (\<exists>r td w. union_for en tss ctx owner lo r td w ms = Inr b)))"
  using assms
  by (auto simp: plan_leaf_def Let_def rbind_Inr_iff map_sum_Inr_iff dest!: leaf_key_source split: option.splits if_splits)

text \<open>
  What the leaf planner asks of the builder of a kind, and what it gives for it: however composition rebuilds
  the leaf, all of its scans are under the tenant predicates of the tables they read. A builder may also take
  over statements of a leaf planned before.
\<close>

locale scoping_builder =
  fixes build :: leaf_builder and taken :: "stmt \<Rightarrow> bool"
  assumes build_scopes: "build sh li metrics = Inr b \<Longrightarrow> s \<in> set (leaf_statements b) \<Longrightarrow>
    scoped (li_owner li) (map je_alias (li_edges li)) (li_where li) (map ax_name (snd b)) s \<or> taken s"
begin

lemma emitted_scoped:
  assumes lo: "scope_leaf en tss enc ctx owner metrics = Inr lo"
    and e: "emit_for en tss ctx owner lo opt ms prefix = Inr b" and opt: "opt = Some build \<or> opt = None \<and> build = build_additive en"
    and s: "s \<in> set (leaf_statements b)" and taken: "\<And>s hs. taken s \<Longrightarrow> tenant_scoped ctx hs s"
  shows "tenant_scoped ctx (map ax_name (snd b)) s"
proof -
  obtain sh li where li: "build sh li ms = Inr b" "li_owner li = owner" "li_edges li = lo_edges lo" "li_where li = ms_where (lo_scoping lo)"
    using e opt by (auto simp: emit_for_def Let_def rbind_Inr_iff)
  obtain conds rest where d: "demands ctx owner (lo_edges lo) conds" and ws: "ms_where (lo_scoping lo) = conds @ rest"
    by (rule scope_leaf_demands [OF lo])
  have "scoped owner (map je_alias (lo_edges lo)) (conds @ rest) (map ax_name (snd b)) s \<or> taken s"
    using build_scopes [OF li(1) s] li(2-4) ws by simp
  moreover have "tenant_scoped ctx (map ax_name (snd b)) s" if "scoped owner (map je_alias (lo_edges lo)) (conds @ rest) (map ax_name (snd b)) s"
    using d scoped_mono(1) [OF _ _ that, of conds "map ax_name (snd b)"] by (auto simp: tenant_scoped_def)
  ultimately show ?thesis using taken by blast
qed

lemma plan_leaf_scoped:
  assumes p: "plan_leaf en tss enc ctx owner metrics lt = Inr lp"
    and opt: "lt_builder lt = Some build \<or> lt_builder lt = None \<and> build = build_additive en"
    and taken: "\<And>s hs. taken s \<Longrightarrow> tenant_scoped ctx hs s"
  shows "leaf_scoped ctx lp"
proof -
  obtain lo where lo: "scope_leaf en tss enc ctx owner metrics = Inr lo" and key: "lk_source (lp_key lp) = owner"
    and re: "lp_finality lp = None \<and> lp_rebuild lp = emit_for en tss ctx owner lo (lt_builder lt) \<or>
      lp_finality lp \<noteq> None \<and> (\<forall>ms prefix b. lp_rebuild lp ms prefix = Inr b \<longrightarrow> (\<exists>r td w. union_for en tss ctx owner lo r td w ms = Inr b))"
    using planned_leaf [OF p] by blast
  show ?thesis
    unfolding leaf_scoped_def key using re emitted_scoped [OF lo _ opt _ taken] union_scoped [OF lo] by (metis (full_types))
qed

end

lemmas builder_simps = rbind_Inr_iff map_sum_Inr_iff Let_def

lemma rebuilt_at_once: "plan_leaf en tss enc ctx owner metrics lt = Inr lp \<Longrightarrow> lp_rebuild lp metrics [] = Inr (lp_select lp, lp_aux lp)"
  by (auto simp: plan_leaf_def builder_simps split: option.splits if_splits)

interpretation additive: scoping_builder "build_additive en" "\<lambda>_. False" for en
  by unfold_locales
    (auto simp: build_additive_def builder_simps leaf_statements_def intro: build_simple_scoped build_deduped_scoped split: if_splits)

interpretation opaque: scoping_builder "opaque_builder en name grain" "\<lambda>_. False" for en name grain
  by unfold_locales
    (auto simp: opaque_builder_def build_opaque_def builder_simps leaf_statements_def split: if_splits list.splits dest!: from_and_joins_table)

interpretation recompute: scoping_builder "recompute_builder pl kind quantile table phys name" "\<lambda>_. False" for pl kind quantile table phys name
  by unfold_locales
    (auto simp: recompute_builder_def build_recompute_def build_percentile_fallback_def builder_simps leaf_statements_def
      split: if_splits option.splits dest!: from_and_joins_table)

interpretation semi: scoping_builder "semi_additive_builder en me name collapse grain agg collapsed" "\<lambda>_. False"
  for en me name collapse grain agg collapsed
  by unfold_locales
    (auto simp: semi_additive_builder_def build_last_def build_per_snapshot_def builder_simps leaf_statements_def
      intro: build_simple_scoped split: if_splits dest!: from_and_joins_table)

lemma build_additive_single:
  assumes "build_additive en sh li ms = Inr b"
  obtains s where "b = ([s], [])" "scoped (li_owner li) (map je_alias (li_edges li)) (li_where li) hs s"
proof -
  obtain s where s: "b = ([s], [])" using assms by (auto simp: build_additive_def builder_simps)
  with additive.build_scopes [OF assms, of s] have "scoped (li_owner li) (map je_alias (li_edges li)) (li_where li) [] s"
    by (simp add: leaf_statements_def)
  then show thesis using that s scoped_mono(1) [of "li_where li" "li_where li" "[]" hs] by auto
qed

interpretation cumulative: scoping_builder "cumulative_builder en order_dims visibility" "\<lambda>_. False" for en order_dims visibility
proof
  fix sh li ms b s
  assume "cumulative_builder en order_dims visibility sh li ms = Inr b" and s: "s \<in> set (leaf_statements b)"
  then obtain c where c: "build_additive en sh li ms = Inr c"
    and b: "b = (fst c, []) \<or> (\<exists>v. b = (fst c, [\<lparr>ax_name = li_prefix li @ VISIBLE_CTE, ax_body = [v]\<rparr>]) \<and>
      visible_tuples en sh li order_dims visibility = Inr v)"
    by (auto simp: cumulative_builder_def builder_simps split: if_splits)
  obtain a where "c = ([a], [])" "scoped (li_owner li) (map je_alias (li_edges li)) (li_where li) (map ax_name (snd b)) a"
    by (rule build_additive_single [OF c])
  moreover have "scoped (li_owner li) (map je_alias (li_edges li)) (li_where li) hs v" if "visible_tuples en sh li order_dims visibility = Inr v" for hs v
    using that by (auto simp: visible_tuples_def builder_simps dest!: from_and_joins_table)
  ultimately show "scoped (li_owner li) (map je_alias (li_edges li)) (li_where li) (map ax_name (snd b)) s \<or> False"
    using b s by (auto simp: leaf_statements_def)
qed

section \<open>Planned metrics\<close>

definition leaves_scoped :: "planning \<Rightarrow> metric_leaves \<Rightarrow> bool" where
  "leaves_scoped pl ml \<longleftrightarrow> (\<forall>lp\<in>set (ml_leaves ml). leaf_scoped (pl_ctx pl) lp)"

lemma plain_leaves_sel [simp]: "ml_leaves (plain_leaves lps mp r) = lps" "ml_metric (plain_leaves lps mp r) = mp"
  by (simp_all add: plain_leaves_def)

lemma tenant_scoped_query [simp]: "tenant_scoped (ctx\<lparr>lc_query := q\<rparr>) hs s = tenant_scoped ctx hs s" "leaf_scoped (ctx\<lparr>lc_query := q\<rparr>) lp = leaf_scoped ctx lp"
  by (simp_all add: tenant_scoped_def leaf_scoped_def branch_scoped_def demands_def)

lemma plan_one_scoped:
  assumes "plan_one pl owner rm pop a lt q = Inr lp" and "scoping_builder f taken" and "\<And>s hs. taken s \<Longrightarrow> tenant_scoped (pl_ctx pl) hs s"
    and "lt_builder lt = Some f \<or> lt_builder lt = None \<and> f = build_additive (pl_engine pl)"
  shows "leaf_scoped (pl_ctx pl) lp"
  using scoping_builder.plan_leaf_scoped [OF assms(2), where ctx = "(pl_ctx pl)\<lparr>lc_query := q\<rparr>"] assms(1,3,4)
  by (simp add: plan_one_def)

lemma plan_one_built:
  assumes "plan_one pl owner rm pop a \<lparr>lt_finality_metric = fm, lt_strategy = st, lt_params = ps, lt_builder = Some f, lt_fusable = fu\<rparr> q = Inr lp"
    and "scoping_builder f (\<lambda>_. False)"
  shows "leaf_scoped (pl_ctx pl) lp"
  by (rule plan_one_scoped [OF assms]) simp_all

lemma plan_one_additive:
  assumes "plan_one pl owner rm pop a \<lparr>lt_finality_metric = fm, lt_strategy = st, lt_params = ps, lt_builder = None, lt_fusable = fu\<rparr> q = Inr lp"
  shows "leaf_scoped (pl_ctx pl) lp"
  by (rule plan_one_scoped [OF assms additive.scoping_builder_axioms]) simp_all

lemmas planned_one = plan_one_additive plan_one_built [OF _ opaque.scoping_builder_axioms]
  plan_one_built [OF _ recompute.scoping_builder_axioms] plan_one_built [OF _ semi.scoping_builder_axioms]
  plan_one_built [OF _ cumulative.scoping_builder_axioms]

lemma rmap_produced: "rmap f xs = Inr ys \<Longrightarrow> y \<in> set ys \<Longrightarrow> \<exists>x\<in>set xs. f x = Inr y"
  by (induction xs arbitrary: ys) (auto simp: rmap_Inr_Cons simp del: rmap.simps(2))

lemma plan_simple_scoped: "plan_simple pl name b = Inr ml \<Longrightarrow> leaves_scoped pl ml"
  by (auto simp: plan_simple_def leaves_scoped_def builder_simps; erule planned_one)

lemma plan_opaque_scoped: "plan_opaque pl name b = Inr ml \<Longrightarrow> leaves_scoped pl ml"
  by (cases "rb_part b"; auto simp: plan_opaque_def leaves_scoped_def builder_simps split: option.splits; erule planned_one)

lemma plan_recompute_scoped: "plan_recompute pl parent name b = Inr ml \<Longrightarrow> leaves_scoped pl ml"
  by (cases "rb_part b"; cases "rb_source b"; auto simp: plan_recompute_def leaves_scoped_def builder_simps split: option.splits if_splits;
      erule planned_one)

lemma plan_semi_additive_scoped: "plan_semi_additive pl name b = Inr ml \<Longrightarrow> leaves_scoped pl ml"
  by (cases "rb_part b"; auto simp: plan_semi_additive_def leaves_scoped_def builder_simps split: if_splits option.splits; erule planned_one)

lemma cumulative_of_scoped:
  "cumulative_of pl name b order gap hist rm dims ods regular visibility conds = Inr ml \<Longrightarrow> leaves_scoped pl ml"
  by (auto simp: cumulative_of_def leaves_scoped_def builder_simps; erule planned_one)

lemma plan_cumulative_scoped: "plan_cumulative pl name b = Inr ml \<Longrightarrow> leaves_scoped pl ml"
  by (cases "rb_part b"; auto simp: plan_cumulative_def builder_simps split: if_split_asm dest: cumulative_of_scoped)

lemma plan_component_scoped:
  assumes "plan_component pl parent c = Inr lp"
  shows "leaf_scoped (pl_ctx pl) lp"
proof (cases "rb_kind c = DISTINCT_COUNT")
  case True
  then obtain ml where ml: "plan_recompute pl parent (rb_metric c) c = Inr ml"
    and lp: "(case ml_leaves ml of [] \<Rightarrow> Inl IndexError | l # ls \<Rightarrow> Inr l) = Inr lp"
    using assms by (auto simp: plan_component_def rbind_Inr_iff)
  have "lp \<in> set (ml_leaves ml)" using lp by (cases "ml_leaves ml") auto
  with ml show ?thesis using plan_recompute_scoped by (auto simp: leaves_scoped_def)
next
  case False
  then show ?thesis
    using assms by (simp add: plan_component_def builder_simps split: if_splits) (auto intro: planned_one)
qed

lemma plan_composite_scoped: "plan_composite pl b = Inr ml \<Longrightarrow> leaves_scoped pl ml"
  by (cases "rb_part b"; cases "resolved_key b")
    (auto simp: plan_composite_def leaves_scoped_def builder_simps dest: plan_component_scoped)

lemma derived_leaves: "derived_of pl name b e inputs z planned = Inr ml \<Longrightarrow> ml_leaves ml = concat (map ml_leaves planned)"
  by (auto simp: derived_of_def builder_simps)

end
