(* ===== verification/Day_Frames.thy ===== *)
theory Day_Frames
  imports Strategies
begin

text \<open>
  \<^verbatim>\<open>src/canonic/compiler/spine.py\<close> and \<^verbatim>\<open>strategies/rolling.py\<close>: cumulative metrics evaluated per calendar day,
  trailing windows and period-to-date totals, over a generated spine of days. Theorems say that the spine
  holds every day between its bounds once, the latest hundred thousand of them, and that a frame per day is
  scoped like every other leaf.
\<close>

section \<open>The day spine\<close>

definition DAY_COLUMN :: string where "DAY_COLUMN = ''_day''"
definition MAX_SPINE_DAYS :: int where "MAX_SPINE_DAYS = 100000"
definition DIGITS :: nat where "DIGITS = 5"

text \<open>\<^verbatim>\<open>SELECT 0 AS n UNION ALL ... SELECT 9\<close>\<close>

definition digits_select :: "stmt list" where
  "digits_select = map (\<lambda>d. Stmt [(number d, ''n'')] None NoFrom [] [] []) [0..<10]"

definition bounds_select :: "string \<Rightarrow> sql \<Rightarrow> (sql \<Rightarrow> sql) option \<Rightarrow> stmt" where
  "bounds_select daily cap reach =
     (let day = Col [] daily DAY_COLUMN; end_day = (case reach of None \<Rightarrow> Op ''Max'' [day] | Some f \<Rightarrow> f (Op ''Max'' [day]))
      in Stmt [(Op ''Min'' [day], ''_lo''), (Op ''Case'' [Op ''GT'' [end_day, cap], cap, end_day], ''_hi'')] None (FromTable daily daily) [] [] [])"

definition digit_table :: "nat \<Rightarrow> string" where
  "digit_table i = ''d'' @ show_nat i"

fun spine_number :: "nat \<Rightarrow> sql" where
  "spine_number 0 = Col [] (digit_table 0) ''n''"
| "spine_number (Suc i) = Op ''Add'' [spine_number i, Op ''Mul'' [number (10 ^ Suc i), Col [] (digit_table (Suc i)) ''n'']]"

fun digit_product :: "string \<Rightarrow> nat \<Rightarrow> from_clause" where
  "digit_product digits 0 = FromTable digits (digit_table 0)"
| "digit_product digits (Suc i) = FromJoin CROSS_JOIN (digit_product digits i) (FromTable digits (digit_table (Suc i))) None"

definition spine_select :: "(sql \<Rightarrow> int + sql \<Rightarrow> duration_unit \<Rightarrow> bool \<Rightarrow> sql) \<Rightarrow> string \<Rightarrow> string \<Rightarrow> stmt" where
  "spine_select date_add bounds digits =
     (let numbers = Stmt [(spine_number (DIGITS - 1), ''n'')] None (digit_product digits (DIGITS - 1)) [] [] [];
          lo = Col [] bounds ''_lo''; hi = Col [] bounds ''_hi'';
          earliest = date_add hi (Inl (- (MAX_SPINE_DAYS - 1))) DAY True;
          start = Op ''Case'' [Op ''LT'' [lo, earliest], earliest, lo];
          window = Stmt [(start, ''_lo''), (hi, ''_hi'')] None (FromTable bounds bounds) [] [] [];
          day = date_add (Col [] ''r'' ''_lo'') (Inr (Col [] ''s'' ''n'')) DAY True
      in Stmt [(day, DAY_COLUMN)] None (FromJoin CROSS_JOIN (FromStmt window ''r'') (FromStmt numbers ''s'') None) []
           [Op ''LTE'' [day, Col [] ''r'' ''_hi'']] [])"

section \<open>The order axis\<close>

definition order_column :: "engine \<Rightarrow> string \<Rightarrow> string \<Rightarrow> sources \<Rightarrow> string \<Rightarrow> (string, string) dict \<Rightarrow> (string \<times> string) res" where
  "order_column en metric order_by srcs owner tree =
     rbind (find_dimension order_by srcs (Some owner) (Some tree)) (\<lambda>found.
       case found of
         None \<Rightarrow> Inl (CanonicError Unresolved [metric, order_by, owner] [])
       | Some (a, d) \<Rightarrow>
           rbind (backing_columns (en_cols en) d) (\<lambda>cs.
             case remdups cs of [c] \<Rightarrow> Inr (a, c) | _ \<Rightarrow> Inl (CanonicError UnsupportedMeasure [metric, order_by] [])))"

definition on_column :: "engine \<Rightarrow> string \<times> string \<Rightarrow> string \<times> dimension \<Rightarrow> bool res" where
  "on_column en oc ad = map_sum id (\<lambda>cs. Pair (fst ad) ` set cs = {oc}) (backing_columns (en_cols en) (snd ad))"

definition requested_on_column :: "engine \<Rightarrow> string \<Rightarrow> string \<times> string \<Rightarrow> (string \<times> dimension) list \<Rightarrow> string \<Rightarrow> nat res" where
  "requested_on_column en metric oc dims order_by =
     rbind (rmap (on_column en oc) dims) (\<lambda>hits.
       case filter (\<lambda>i. hits ! i) [0..<length dims] of
         [] \<Rightarrow> Inl (CanonicError UnsupportedMeasure [metric, order_by, snd oc] [])
       | [i] \<Rightarrow> Inr i
       | is \<Rightarrow> Inl (CanonicError UnsupportedMeasure (metric # map (\<lambda>i. dim_name (snd (dims ! i))) is @ [snd oc]) []))"

definition lookback :: "duration option \<Rightarrow> duration_unit option \<Rightarrow> string option" where
  "lookback window to_date =
     (case window of
        Some w \<Rightarrow> Some (str_duration w)
      | None \<Rightarrow> map_option (\<lambda>u. ''1 '' @ unit_value u) to_date)"

definition quoted_date :: "date \<Rightarrow> string" where
  "quoted_date d = QUOTE # iso_date d @ [QUOTE]"

definition lookback_filters :: "engine \<Rightarrow> semantic_query \<Rightarrow> duration option \<Rightarrow> duration_unit option \<Rightarrow> sources \<Rightarrow> string \<Rightarrow> (string, string) dict \<Rightarrow>
    string \<times> string \<Rightarrow> string list res" where
  "lookback_filters en q window to_date srcs owner tree oc =
     (case sq_time_range q of
        None \<Rightarrow> Inr []
      | Some tr \<Rightarrow>
          rbind (find_dimension (tr_dimension tr) srcs (Some owner) (Some tree)) (\<lambda>found.
            case found of
              None \<Rightarrow> Inr []
            | Some ad \<Rightarrow>
                rbind (on_column en oc ad) (\<lambda>hit.
                  if \<not> hit then Inr []
                  else rbind (case (tr_start tr, window, to_date) of
                        (Some st, Some w, _) \<Rightarrow> map_sum id (\<lambda>d. [tr_dimension tr @ '' >= '' @ quoted_date d]) (add_to_date st w (- 1))
                      | (Some st, None, Some u) \<Rightarrow> map_sum id (\<lambda>d. [tr_dimension tr @ '' >= '' @ quoted_date d]) (floor_date st u)
                      | _ \<Rightarrow> Inr []) (\<lambda>lower.
                    Inr (lower @ (case tr_end tr of None \<Rightarrow> [] | Some en \<Rightarrow> [tr_dimension tr @ '' < '' @ quoted_date en]))))))"

section \<open>The frame of a day\<close>

definition truncated :: "duration_unit \<Rightarrow> sql \<Rightarrow> sql" where
  "truncated u day = Op ''CAST DATE'' [Op ''DATE_TRUNC'' [Op (unit_value u) [], day]]"

text \<open>The last day whose frame still contains a given day, and the days a frame contains.\<close>

definition reach :: "(sql \<Rightarrow> int + sql \<Rightarrow> duration_unit \<Rightarrow> bool \<Rightarrow> sql) \<Rightarrow> duration option \<Rightarrow> duration_unit option \<Rightarrow> (sql \<Rightarrow> sql) option" where
  "reach date_add window to_date =
     (case window of
        Some w \<Rightarrow> Some (\<lambda>day. date_add (date_add day (Inl (du_count w)) (du_unit w) True) (Inl (- 1)) DAY True)
      | None \<Rightarrow> map_option (\<lambda>u day. date_add (date_add (truncated u day) (Inl 1) u True) (Inl (- 1)) DAY True) to_date)"

definition frame_conditions :: "(sql \<Rightarrow> int + sql \<Rightarrow> duration_unit \<Rightarrow> bool \<Rightarrow> sql) \<Rightarrow> duration option \<Rightarrow> duration_unit option \<Rightarrow> sql list" where
  "frame_conditions date_add window to_date =
     (let target_day = Col [] ''t'' DAY_COLUMN; daily_day = Col [] ''d'' DAY_COLUMN
      in Op ''LTE'' [daily_day, target_day] #
         (case window of
            Some w \<Rightarrow> [Op ''GT'' [daily_day, date_add target_day (Inl (- du_count w)) (du_unit w) True]]
          | None \<Rightarrow> (case to_date of None \<Rightarrow> [] | Some u \<Rightarrow> [Op ''GTE'' [daily_day, truncated u target_day]])))"

definition reaggregate :: "(string \<Rightarrow> agg option) \<Rightarrow> string \<Rightarrow> string" where
  "reaggregate find_agg e = (case find_agg e of Some Min_agg \<Rightarrow> ''Min'' | Some Max_agg \<Rightarrow> ''Max'' | _ \<Rightarrow> ''Sum'')"

record day_frame =
  df_order_index :: nat
  df_order_column :: "string \<times> string"
  df_column_type :: normalized_type
  df_window :: "duration option"
  df_to_date :: "duration_unit option"
  df_agg :: period_agg
  df_visibility :: "sql list"
  df_anchor :: sql
  df_reaggregate :: string

definition day_dimension :: "string \<Rightarrow> dimension" where
  "day_dimension c =
     \<lparr>dim_name = DAY_COLUMN, dim_column = None, dim_expr = Some (''CAST('' @ c @ '' AS DATE)''), dim_json_path = None, dim_type = Some DATE_T,
      dim_granularity = None, dim_time_grain = None, dim_time_format = None, dim_label = None, dim_description = None, dim_aliases = []\<rparr>"

definition partitions :: "day_frame \<Rightarrow> leaf_inputs \<Rightarrow> nat list" where
  "partitions df li = filter (\<lambda>i. i \<noteq> df_order_index df) [0..<length (li_dimensions li)]"

definition daily_dims :: "day_frame \<Rightarrow> leaf_inputs \<Rightarrow> (string \<times> dimension) list" where
  "daily_dims df li =
     map ((!) (li_dimensions li)) (partitions df li) @ [(fst (li_dimensions li ! df_order_index df), day_dimension (snd (df_order_column df)))]"

definition daily_select :: "engine \<Rightarrow> day_frame \<Rightarrow> shifts \<Rightarrow> leaf_inputs \<Rightarrow> leaf_metric \<Rightarrow> stmt res" where
  "daily_select en df sh li lm =
     (let dims = daily_dims df li
      in rbind (enforce_safety_floor (en_find_agg en) [lm_resolved lm] (li_fanout li) (map (dim_name \<circ> snd) dims)) (\<lambda>_.
           (if li_fanout li then build_deduped else build_simple) (en_cols en) (en_backend en) sh (li_owner li) [lm_resolved lm]
             dims (li_where li) (li_edges li) (lc_sources (li_ctx li)) [''_value''] (li_mask li)))"

text \<open>The order column read on a day of the spine.\<close>

definition on_day :: "day_frame \<Rightarrow> string \<Rightarrow> string \<Rightarrow> sql \<Rightarrow> sql" where
  "on_day df timestamp_type spine e =
     (let day = Col [] spine DAY_COLUMN; as_column = (if df_column_type df = DATE_T then day else Op (''CAST '' @ timestamp_type) [day])
      in map_columns (\<lambda>db t n. if (t, n) = df_order_column df then as_column else Col db t n) e)"

definition target_select :: "planning \<Rightarrow> day_frame \<Rightarrow> shifts \<Rightarrow> leaf_inputs \<Rightarrow> string \<Rightarrow> stmt res" where
  "target_select pl df sh li spine =
     rbind (masked_dimension (en_cols (pl_engine pl)) (en_backend (pl_engine pl)) sh (li_mask li) (li_dimensions li ! df_order_index df)) (\<lambda>e.
       (let on = on_day df (pl_timestamp_type pl) spine; bucket = on e; day = Col [] spine DAY_COLUMN; ws = map on (df_visibility df)
        in Inr (if df_agg df = PA_AVERAGE
                then Stmt [(bucket, ''_bucket''), (day, DAY_COLUMN)] None (FromTable spine spine) [] ws []
                else Stmt [(bucket, ''_bucket''), (Op (if df_agg df = PA_LAST then ''Max'' else ''Min'') [day], DAY_COLUMN)] None
                  (FromTable spine spine) [] ws [bucket])))"

text \<open>
  The columns of the daily rows by position of their dimension, the join of a target day with the days of its
  frame, the leaf's own SELECT over it, and for averages a value per day first.
\<close>

definition partition_column :: "(nat \<times> string) list \<Rightarrow> string \<Rightarrow> nat \<Rightarrow> sql" where
  "partition_column names table i = Col [] table (the (map_of names i))"

definition frame_from :: "planning \<Rightarrow> day_frame \<Rightarrow> string \<Rightarrow> string \<Rightarrow> from_clause" where
  "frame_from pl df targets daily =
     FromJoin INNER_JOIN (FromTable targets ''t'') (FromTable daily ''d'')
       (Some (Op ''And'' (frame_conditions (pl_date_add pl) (df_window df) (df_to_date df))))"

definition frame_value :: "day_frame \<Rightarrow> sql" where
  "frame_value df = Op (df_reaggregate df) [Col [] ''d'' ''_value'']"

definition per_day_select :: "planning \<Rightarrow> day_frame \<Rightarrow> nat list \<Rightarrow> (nat \<times> string) list \<Rightarrow> string \<Rightarrow> string \<Rightarrow> stmt" where
  "per_day_select pl df ps names targets daily =
     Stmt ([(Col [] ''t'' ''_bucket'', ''_bucket''), (Col [] ''t'' DAY_COLUMN, DAY_COLUMN)] @
         map (\<lambda>i. (partition_column names ''d'' i, the (map_of names i))) ps @ [(frame_value df, ''_value'')]) None (frame_from pl df targets daily) [] []
       ([Col [] ''t'' ''_bucket'', Col [] ''t'' DAY_COLUMN] @ map (partition_column names ''d'') ps)"

definition frame_select :: "planning \<Rightarrow> day_frame \<Rightarrow> nat list \<Rightarrow> (nat \<times> string) list \<Rightarrow> string \<Rightarrow> string \<Rightarrow> string \<Rightarrow> string list \<Rightarrow> string \<Rightarrow> stmt" where
  "frame_select pl df ps names targets daily windows outs alias =
     (let average = (df_agg df = PA_AVERAGE); table = (if average then ''w'' else ''d'');
          bucket = Col [] (if average then ''w'' else ''t'') ''_bucket''
      in Stmt (map (\<lambda>(i, n). (if i = df_order_index df then bucket else partition_column names table i, n)) (enumerate_list outs) @
             [(if average then Op ''Avg'' [Col [] ''w'' ''_value''] else frame_value df, alias)]) None
           (if average then FromTable windows ''w'' else frame_from pl df targets daily) [] [] (bucket # map (partition_column names table) ps))"

definition build_windowed :: "planning \<Rightarrow> day_frame \<Rightarrow> shifts \<Rightarrow> leaf_inputs \<Rightarrow> leaf_metric \<Rightarrow> built res" where
  "build_windowed pl df sh li lm =
     (let prefix = (if li_prefix li = [] then ''_'' else li_prefix li);
          daily = prefix @ ''daily''; digits = prefix @ ''digits''; bounds = prefix @ ''bounds''; spine = prefix @ ''spine'';
          targets = prefix @ ''targets''; windows = prefix @ ''windows''; ps = partitions df li;
          names = zip ps (dimension_output_names (daily_dims df li))
      in if length (li_dimensions li) \<le> df_order_index df then Inl IndexError
         else rbind (daily_select (pl_engine pl) df sh li lm) (\<lambda>dsel.
              rbind (target_select pl df sh li spine) (\<lambda>tsel.
                Inr ([frame_select pl df ps names targets daily windows (dim_names li) (output_alias lm)],
                  [\<lparr>ax_name = daily, ax_body = [dsel]\<rparr>, \<lparr>ax_name = digits, ax_body = digits_select\<rparr>,
                   \<lparr>ax_name = bounds, ax_body = [bounds_select daily (df_anchor df) (reach (pl_date_add pl) (df_window df) (df_to_date df))]\<rparr>,
                   \<lparr>ax_name = spine, ax_body = [spine_select (pl_date_add pl) bounds digits]\<rparr>, \<lparr>ax_name = targets, ax_body = [tsel]\<rparr>] @
                  (if df_agg df = PA_AVERAGE then [\<lparr>ax_name = windows, ax_body = [per_day_select pl df ps names targets daily]\<rparr>] else [])))))"

definition rolling_builder :: "planning \<Rightarrow> day_frame \<Rightarrow> leaf_builder" where
  "rolling_builder pl df sh li metrics = (case metrics of [] \<Rightarrow> Inl IndexError | lm # _ \<Rightarrow> build_windowed pl df sh li lm)"

section \<open>Planning\<close>

definition anchor_of :: "semantic_query \<Rightarrow> sql" where
  "anchor_of q = (case sq_as_of q of None \<Rightarrow> Op ''CurrentDate'' [] | Some a \<Rightarrow> Op ''CAST DATE'' [Op (''string '' @ iso_date (anchor_day a)) []])"

text \<open>The grain a dimension shows the order axis in, refused below a day.\<close>

definition day_grain :: "dimension \<Rightarrow> semantic_source \<Rightarrow> string option" where
  "day_grain d src =
     (case period_grain d of
        Some g \<Rightarrow> if g = [] then (if value_type d (ss_columns src) = Some DATE_T then Some ''day'' else None) else Some g
      | None \<Rightarrow> if value_type d (ss_columns src) = Some DATE_T then Some ''day'' else None)"

definition grain_index :: "string \<Rightarrow> nat" where
  "grain_index g = length (takeWhile (\<lambda>h. h \<noteq> g) PERIOD_GRAINS)"

definition rolling_of :: "planning \<Rightarrow> string \<Rightarrow> resolved \<Rightarrow> string list \<Rightarrow> on_gap \<Rightarrow> history \<Rightarrow> resolved_metric \<Rightarrow> day_frame \<Rightarrow> string list \<Rightarrow>
    string list \<Rightarrow> metric_leaves res" where
  "rolling_of pl name b order gap hist rm df regular visibility =
     (let q = lc_query (pl_ctx pl); w = df_window df; u = df_to_date df
      in rbind (plan_one pl (rm_source rm) rm (population b) name
             \<lparr>lt_finality_metric = None, lt_strategy = ''rolling'',
              lt_params = [(''frame'', frame_key w u (df_agg df)), (''visibility'', join_with NUL (sort visibility)),
                (''anchor'', en_render (pl_engine pl) (df_anchor df))],
              lt_builder = Some (rolling_builder pl df), lt_fusable = False\<rparr> (q\<lparr>sq_filters := regular\<rparr>)) (\<lambda>lp.
           Inr ((plain_leaves [lp] (MetricPlan name [\<lparr>lr_leaf = 0, lr_column = name\<rparr>] DIRECT None True [] None None)
               (key_or (resolved_key b) (''cumulative('' @ rm_source rm @ ''.'' @ me_name (rm_measure rm) @ '')'')))
             \<lparr>ml_cumulative := Some \<lparr>cu_metric = name, cu_order_by = order,
                cu_partition_by = map snd (filter (\<lambda>(i, n). i \<noteq> df_order_index df) (enumerate_list (sq_dimensions q))),
                cu_on_gap = gap, cu_history = hist, cu_visibility = visibility, cu_window = map_option str_duration w,
                cu_grain_to_date = map_option unit_value u, cu_period_agg = period_agg_value (df_agg df), cu_lookback = lookback w u\<rparr>\<rparr>)))"

text \<open>Once the axis of the frame is known: its grain, the filters of the daily rows and of the days shown.\<close>

definition rolling_on :: "planning \<Rightarrow> string \<Rightarrow> resolved \<Rightarrow> string list \<Rightarrow> on_gap \<Rightarrow> history \<Rightarrow> duration option \<Rightarrow> duration_unit option \<Rightarrow> period_agg \<Rightarrow>
    resolved_metric \<Rightarrow> string \<times> string \<Rightarrow> nat \<Rightarrow> dimension \<Rightarrow> semantic_source \<Rightarrow> metric_leaves res" where
  "rolling_on pl name b order gap hist window to_date agg rm oc i od src =
     (let en = pl_engine pl; ctx = pl_ctx pl; srcs = lc_sources ctx; q = lc_query ctx; s = rm_source rm; tree = build_alias_tree s srcs;
          refused = CanonicError UnsupportedMeasure [name, snd oc, dim_name od] [];
          ty = (case find (\<lambda>c. col_name c = snd oc) (ss_columns src) of None \<Rightarrow> DATE_T | Some c \<Rightarrow> col_type c)
      in rbind (case day_grain od src of
             None \<Rightarrow> Inl refused
           | Some g \<Rightarrow> if g \<notin> set PERIOD_GRAINS then Inl ValueError else if grain_index g < grain_index ''day'' then Inl refused else Inr ()) (\<lambda>_.
         rbind (split_filters en [] name [oc] srcs s tree (lc_policy ctx) (sq_filters q)) (\<lambda>(regular, visibility).
         rbind (lookback_filters en q window to_date srcs s tree oc) (\<lambda>back.
         rbind (bind_filters (en_cols en) (en_backend en) [] visibility srcs s (Some tree) (Some (lc_policy ctx))) (\<lambda>(conds, used).
           rolling_of pl name b order gap hist rm
             \<lparr>df_order_index = i, df_order_column = oc, df_column_type = ty, df_window = window, df_to_date = to_date,
              df_agg = agg, df_visibility = conds, df_anchor = anchor_of q,
              df_reaggregate = reaggregate (en_find_agg en) (me_expr (rm_measure rm))\<rparr> (regular @ back) visibility)))))"

definition plan_rolling :: "planning \<Rightarrow> string \<Rightarrow> resolved \<Rightarrow> metric_leaves res" where
  "plan_rolling pl name b =
     (let en = pl_engine pl; srcs = lc_sources (pl_ctx pl)
      in case rb_part b of
           Cumulative order gap hist window to_date agg \<Rightarrow>
             rbind (bind_metric name b srcs) (\<lambda>rm.
             let s = rm_source rm; me = rm_measure rm; tree = build_alias_tree s srcs
             in if me_additivity me \<noteq> ADDITIVE \<or> \<not> is_p0_compilable (en_find_agg en) me
                then Inl (CanonicError UnsupportedMeasure [name, s, me_name me] [])
                else rbind (resolve_dimensions (en_backend en) (lc_query (pl_ctx pl)) srcs s tree) (\<lambda>dims.
                     rbind (case order of [] \<Rightarrow> Inl IndexError | ob # _ \<Rightarrow> Inr ob) (\<lambda>ob.
                     rbind (order_column en name ob srcs s tree) (\<lambda>oc.
                     rbind (requested_on_column en name oc dims ob) (\<lambda>i.
                     rbind (case map_of srcs (source_of tree (fst (dims ! i))) of None \<Rightarrow> Inl KeyError | Some src \<Rightarrow> Inr src) (\<lambda>src.
                       rolling_on pl name b order gap hist window to_date agg rm oc i (snd (dims ! i)) src))))))
         | _ \<Rightarrow> Inl AssertionError)"

section \<open>Scoping\<close>

lemma digit_product_hoisted: "digits \<in> set hs \<Longrightarrow> reads_hoisted owner as conds hs (digit_product digits i)"
  by (induction i) auto

lemma spine_hoisted: "bounds \<in> set hs \<Longrightarrow> digits \<in> set hs \<Longrightarrow> scoped owner as conds hs (spine_select date_add bounds digits)"
  by (simp add: spine_select_def Let_def digit_product_hoisted)

lemma digits_hoisted: "s \<in> set digits_select \<Longrightarrow> scoped owner as conds hs s"
  by (auto simp: digits_select_def)

lemma daily_select_scoped:
  "daily_select en df sh li lm = Inr s \<Longrightarrow> scoped (li_owner li) (map je_alias (li_edges li)) (li_where li) hs s"
  by (auto simp: daily_select_def builder_simps intro: build_simple_scoped build_deduped_scoped split: if_splits)

lemma target_select_hoisted: "target_select pl df sh li spine = Inr s \<Longrightarrow> spine \<in> set hs \<Longrightarrow> scoped owner as conds hs s"
  by (auto simp: target_select_def builder_simps)

lemma bounds_hoisted: "daily \<in> set hs \<Longrightarrow> scoped owner as conds hs (bounds_select daily cap f)"
  by (simp add: bounds_select_def Let_def)

lemma build_windowed_scoped:
  assumes "build_windowed pl df sh li lm = Inr b" and "s \<in> set (leaf_statements b)"
  shows "scoped (li_owner li) (map je_alias (li_edges li)) (li_where li) (map ax_name (snd b)) s"
proof -
  define prefix where "prefix = (if li_prefix li = [] then ''_'' else li_prefix li)"
  obtain dsel tsel where d: "daily_select (pl_engine pl) df sh li lm = Inr dsel" and t: "target_select pl df sh li (prefix @ ''spine'') = Inr tsel"
    using assms(1) unfolding build_windowed_def Let_def prefix_def by (auto simp: rbind_Inr_iff split: if_split_asm)
  have "scoped owner as conds hs tsel" if "prefix @ ''spine'' \<in> set hs" for owner as conds hs
    using target_select_hoisted [OF t that] .
  then show ?thesis
    using assms d t unfolding build_windowed_def Let_def prefix_def [symmetric]
    by (auto simp: leaf_statements_def frame_select_def per_day_select_def frame_from_def Let_def bounds_hoisted spine_hoisted digits_hoisted daily_select_scoped split: if_split_asm)
qed

interpretation rolling: scoping_builder "rolling_builder pl df" "\<lambda>_. False" for pl df
proof
  fix sh li metrics b s
  assume "rolling_builder pl df sh li metrics = Inr b" and s: "s \<in> set (leaf_statements b)"
  then obtain lm where "build_windowed pl df sh li lm = Inr b" by (auto simp: rolling_builder_def split: list.splits)
  then show "scoped (li_owner li) (map je_alias (li_edges li)) (li_where li) (map ax_name (snd b)) s \<or> False"
    using build_windowed_scoped s by simp
qed

lemma rolling_of_scoped: "rolling_of pl name b order gap hist rm df regular visibility = Inr ml \<Longrightarrow> leaves_scoped pl ml"
  by (auto simp: rolling_of_def leaves_scoped_def builder_simps; erule plan_one_built [OF _ rolling.scoping_builder_axioms])

lemma rolling_on_scoped: "rolling_on pl name b order gap hist window to_date agg rm oc i od src = Inr ml \<Longrightarrow> leaves_scoped pl ml"
  by (auto simp: rolling_on_def builder_simps dest: rolling_of_scoped)

lemma plan_rolling_scoped: "plan_rolling pl name b = Inr ml \<Longrightarrow> leaves_scoped pl ml"
  by (cases "rb_part b"; auto simp: plan_rolling_def builder_simps dest: rolling_on_scoped split: if_split_asm)

section \<open>The rows of a statement\<close>

text \<open>
  Statements over common table expressions, with grouping: a group is the rows that agree on the grouping expressions, an
  aggregate skips NULL and is NULL over nothing else. Planned joins and DISTINCT do not occur in them.
\<close>

definition numbers_of :: "val list \<Rightarrow> rat list" where
  "numbers_of vs = List.map_filter (\<lambda>v. case v of VNum a \<Rightarrow> Some a | _ \<Rightarrow> None) vs"

definition aggregate :: "string \<Rightarrow> val list \<Rightarrow> val" where
  "aggregate f vs =
     (let xs = numbers_of vs
      in if xs = [] then VNull
         else if f = ''Sum'' then VNum (sum_list xs)
         else if f = ''Min'' then VNum (Min (set xs))
         else if f = ''Max'' then VNum (Max (set xs))
         else if f = ''Avg'' then VNum (sum_list xs / of_nat (length xs))
         else VNull)"

definition AGGREGATES :: "string list" where
  "AGGREGATES = [''Sum'', ''Min'', ''Max'', ''Avg'']"

fun group_value :: "(string, row) dict list \<Rightarrow> sql \<Rightarrow> val" where
  "group_value bs (Col db t n) = (case bs of [] \<Rightarrow> VNull | b # _ \<Rightarrow> env b t n)"
| "group_value bs (Op f es) =
     (if f \<in> set AGGREGATES then aggregate f (map (\<lambda>b. ev (env b) (hd es)) bs) else apply_op f (map (group_value bs) es))"

definition group_rows :: "(sql \<times> string) list \<Rightarrow> sql list \<Rightarrow> (string, row) dict list \<Rightarrow> row list" where
  "group_rows ps gs bs =
     (let key = (\<lambda>b. map (ev (env b)) gs)
      in map (\<lambda>k. map (\<lambda>(e, n). (n, group_value (filter (\<lambda>b. key b = k) bs) e)) ps) (remdups (map key bs)))"

fun aggregates :: "sql \<Rightarrow> bool" where
  "aggregates (Col db t n) = False"
| "aggregates (Op f es) = (f \<in> set AGGREGATES \<or> list_ex aggregates es)"

fun stmt_rows :: "tables \<Rightarrow> stmt \<Rightarrow> row list"
  and clause_rows :: "tables \<Rightarrow> from_clause \<Rightarrow> (string, row) dict list" where
  "stmt_rows T (Stmt ps dis f js ws gs) =
     (let bs = filter (\<lambda>b. list_all (\<lambda>e. cond_holds b (Some e)) ws) (clause_rows T f)
      in if gs \<noteq> [] then group_rows ps gs bs
         else if list_ex (aggregates \<circ> fst) ps then [map (\<lambda>(e, n). (n, group_value bs e)) ps]
         else map (project_row ps) bs)"
| "clause_rows T (FromTable t a) = map (\<lambda>r. [(a, r)]) (T t)"
| "clause_rows T (FromStmt s a) = map (\<lambda>r. [(a, r)]) (stmt_rows T s)"
| "clause_rows T (FromJoin k l r on) =
     concat (map (\<lambda>x. let ms = filter (\<lambda>b. cond_holds b on) (map ((@) x) (clause_rows T r))
       in if k = LEFT_JOIN \<and> ms = [] then [x] else ms) (clause_rows T l))"
| "clause_rows T NoFrom = [[]]"

section \<open>The spine holds every day once\<close>

fun spine_numbers :: "nat \<Rightarrow> nat list" where
  "spine_numbers 0 = [0..<10]"
| "spine_numbers (Suc i) = concat (map (\<lambda>m. map (\<lambda>d. m + 10 ^ Suc i * d) [0..<10]) (spine_numbers i))"

lemma spine_numbers_exact: "distinct (spine_numbers i) \<and> set (spine_numbers i) = {0..<10 ^ Suc i}"
proof (induction i)
  case (Suc i)
  let ?p = "10 ^ Suc i :: nat" and ?f = "\<lambda>m. map (\<lambda>d. m + 10 ^ Suc i * d) [0..<10]"
  have low: "m < ?p" if "m \<in> set (spine_numbers i)" for m using Suc that by simp
  have read: "m = (m + ?p * d) mod ?p" "d = (m + ?p * d) div ?p" if "m < ?p" for m d using that by simp_all
  have "distinct (concat (map ?f (spine_numbers i)))"
  proof (rule distinct_concat)
    have "hd (?f m) = m" for m by (simp add: upt_conv_Cons)
    then have "inj ?f" by (metis (no_types, lifting) injI)
    then show "distinct (map ?f (spine_numbers i))" using Suc inj_on_subset by (auto simp: distinct_map)
    show "distinct ys" if "ys \<in> set (map ?f (spine_numbers i))" for ys using that by (auto simp: distinct_map inj_on_def)
    show "set ys \<inter> set zs = {}" if yz: "ys \<in> set (map ?f (spine_numbers i))" "zs \<in> set (map ?f (spine_numbers i))" "ys \<noteq> zs" for ys zs
    proof -
      obtain m n where mn: "m < ?p" "n < ?p" "ys = ?f m" "zs = ?f n" "m \<noteq> n" using yz low by auto
      then have "m + ?p * d \<noteq> n + ?p * e" for d e using read(1) [of m d] read(1) [of n e] by metis
      then show ?thesis unfolding mn(3,4) by auto
    qed
  qed
  moreover have "set (spine_numbers (Suc i)) = {0..<10 ^ Suc (Suc i)}"
  proof (intro equalityI subsetI)
    fix x assume "x \<in> set (spine_numbers (Suc i))"
    then obtain m d where x: "x = m + ?p * d" "m < ?p" "d < 10" using Suc by auto
    have "m + ?p * d < ?p * Suc d" using x by simp
    also have "\<dots> \<le> ?p * 10" using x by (intro mult_le_mono) auto
    finally show "x \<in> {0..<10 ^ Suc (Suc i)}" using x by simp
  next
    fix x assume "x \<in> {0..<10 ^ Suc (Suc i) :: nat}"
    then have "x div ?p \<in> set [0..<10]" by (simp add: div_less_iff_less_mult)
    moreover have "x = x mod ?p + ?p * (x div ?p)" by simp
    ultimately have "x \<in> set (?f (x mod ?p))" unfolding set_map by (intro image_eqI)
    moreover have "x mod ?p \<in> set (spine_numbers i)" using Suc by simp
    then have "?f (x mod ?p) \<in> set (map ?f (spine_numbers i))" unfolding set_map by (rule imageI)
    ultimately show "x \<in> set (spine_numbers (Suc i))" unfolding spine_numbers.simps set_concat by (rule UN_I [rotated])
  qed
  ultimately show ?case by auto
qed auto

text \<open>The rows of the digits, and what the number of a product of them reads.\<close>

definition digit_row :: "nat \<Rightarrow> row" where
  "digit_row d = [(''n'', VNum (of_nat d))]"

lemma aggregates_number [simp]: "\<not> aggregates (number d)"
  by (simp add: number_def AGGREGATES_def)

lemma digits_rows: "concat (map (stmt_rows T) digits_select) = map digit_row [0..<10]"
proof -
  have "stmt_rows T (Stmt [(number d, ''n'')] None NoFrom [] [] []) = [digit_row d]" for d
    by (simp add: digit_row_def project_row_def)
  then show ?thesis by (simp add: digits_select_def comp_def)
qed

lemma digit_table_inj [simp]: "digit_table i = digit_table j \<longleftrightarrow> i = j"
  by (simp add: digit_table_def) (metis nat_of_digits_show_nat)

fun digit_rows :: "nat \<Rightarrow> (string, row) dict list" where
  "digit_rows 0 = map (\<lambda>d. [(digit_table 0, digit_row d)]) [0..<10]"
| "digit_rows (Suc i) = concat (map (\<lambda>b. map (\<lambda>d. b @ [(digit_table (Suc i), digit_row d)]) [0..<10]) (digit_rows i))"

lemma digit_product_rows: "T digits = map digit_row [0..<10] \<Longrightarrow> clause_rows T (digit_product digits i) = digit_rows i"
  by (induction i) (simp_all add: comp_def cond_holds_def Let_def del: upt_Suc)

lemma digit_rows_keys: "b \<in> set (digit_rows i) \<Longrightarrow> map fst b = map digit_table [0..<Suc i]"
  by (induction i arbitrary: b) auto

lemma spine_number_reads: "(\<And>j. j \<le> i \<Longrightarrow> \<sigma> (digit_table j) ''n'' = \<rho> (digit_table j) ''n'') \<Longrightarrow> ev \<sigma> (spine_number i) = ev \<rho> (spine_number i)"
  by (induction i) auto

lemma digit_rows_numbers: "map (\<lambda>b. ev (env b) (spine_number i)) (digit_rows i) = map (VNum \<circ> of_nat) (spine_numbers i)"
proof (induction i)
  case 0
  show ?case by (simp add: env_def cell_def digit_row_def comp_def del: upt_Suc)
next
  case (Suc i)
  have "ev (env (b @ [(digit_table (Suc i), digit_row d)])) (spine_number (Suc i)) =
      num3 (+) (ev (env b) (spine_number i)) (VNum (of_nat (10 ^ Suc i * d)))" if b: "b \<in> set (digit_rows i)" for b d
  proof -
    have "digit_table j \<in> fst ` set b \<longleftrightarrow> j \<le> i" for j
      using arg_cong [OF digit_rows_keys [OF b], where f = set] by auto
    then have "map_of b (digit_table j) \<noteq> None \<longleftrightarrow> j \<le> i" for j by (simp add: map_of_eq_None_iff)
    then have "env (b @ [(digit_table (Suc i), digit_row d)]) (digit_table j) c = env b (digit_table j) c" if "j \<le> i" for j c
      using that by (auto simp: env_def map_add_def split: option.splits)
    moreover have "map_of b (digit_table (Suc i)) = None" using \<open>\<And>j. (map_of b (digit_table j) \<noteq> None) = (j \<le> i)\<close> [of "Suc i"] by simp
    ultimately show ?thesis
      using spine_number_reads [of i "env (b @ [(digit_table (Suc i), digit_row d)])" "env b"]
      by (simp add: env_def map_add_def cell_def digit_row_def)
  qed
  then have "map (\<lambda>b. ev (env b) (spine_number (Suc i))) (digit_rows (Suc i)) =
      concat (map (\<lambda>b. map (\<lambda>d. num3 (+) (ev (env b) (spine_number i)) (VNum (of_nat (10 ^ Suc i * d)))) [0..<10]) (digit_rows i))"
    unfolding digit_rows.simps map_concat map_map by (intro arg_cong [where f = concat] map_cong) simp_all
  also have "\<dots> = concat (map (\<lambda>v. map (\<lambda>d. num3 (+) v (VNum (of_nat (10 ^ Suc i * d)))) [0..<10]) (map (\<lambda>b. ev (env b) (spine_number i)) (digit_rows i)))"
    by (simp add: comp_def)
  also have "\<dots> = map (VNum \<circ> of_nat) (spine_numbers (Suc i))"
    unfolding Suc.IH by (simp add: map_concat comp_def)
  finally show ?case .
qed

lemma aggregates_spine_number [simp]: "\<not> aggregates (spine_number i)"
  by (induction i) (auto simp: AGGREGATES_def)

lemma spine_number_rows:
  assumes "T digits = map digit_row [0..<10]"
  shows "stmt_rows T (Stmt [(spine_number i, ''n'')] None (digit_product digits i) [] [] []) = map digit_row (spine_numbers i)"
proof -
  have "map (project_row [(spine_number i, ''n'')]) (digit_rows i) = map (\<lambda>v. [(''n'', v)]) (map (\<lambda>b. ev (env b) (spine_number i)) (digit_rows i))"
    by (simp add: project_row_def comp_def)
  then show ?thesis using assms by (simp add: digit_product_rows digit_rows_numbers comp_def digit_row_def [abs_def])
qed

text \<open>What the adapter of a dialect does to a day: it adds whole days to the ordinal, and no aggregate of its own.\<close>

definition adds_days :: "(sql \<Rightarrow> int + sql \<Rightarrow> duration_unit \<Rightarrow> bool \<Rightarrow> sql) \<Rightarrow> bool" where
  "adds_days date_add \<longleftrightarrow>
     (\<forall>\<sigma> e k. ev \<sigma> (date_add e k DAY True) = num3 (+) (ev \<sigma> e) (case k of Inl i \<Rightarrow> VNum (of_int i) | Inr x \<Rightarrow> ev \<sigma> x)) \<and>
     (\<forall>e k. aggregates (date_add e k DAY True) \<longrightarrow> aggregates e \<or> (\<exists>x. k = Inr x \<and> aggregates x))"

text \<open>
  C17: the spine holds every calendar day between its bounds exactly once. The numbers a cross join of five rows of digits
  makes are those below a hundred thousand, each once; from the first day on they give every day up to the
  last, and when the bounds are further apart than the spine is long, its latest days.
\<close>

theorem spine_holds_each_day_once:
  assumes adds: "adds_days date_add"
    and bounds: "T bounds = [[(''_lo'', VNum (of_int lo)), (''_hi'', VNum (of_int hi))]]"
    and digits: "T digits = concat (map (stmt_rows T) digits_select)"
  shows "distinct (map (\<lambda>r. cell r DAY_COLUMN) (stmt_rows T (spine_select date_add bounds digits))) \<and>
    (\<lambda>r. cell r DAY_COLUMN) ` set (stmt_rows T (spine_select date_add bounds digits)) =
      (\<lambda>d. VNum (of_int d)) ` {max lo (hi - (MAX_SPINE_DAYS - 1))..hi}"
proof -
  define start where "start = max lo (hi - (MAX_SPINE_DAYS - 1))"
  have ev_add: "ev \<sigma> (date_add e k DAY True) = num3 (+) (ev \<sigma> e) (case k of Inl i \<Rightarrow> VNum (of_int i) | Inr x \<Rightarrow> ev \<sigma> x)" for \<sigma> e k
    using adds by (simp add: adds_days_def)
  have plain: "\<not> aggregates (date_add (Col [] t c) (Inl k) DAY True)" "\<not> aggregates (date_add (Col [] t c) (Inr (Col [] u e)) DAY True)" for t c k u e
    using adds unfolding adds_days_def by (metis Inl_Inr_False aggregates.simps(1) sum.inject(2))+
  let ?w = "Stmt [(Op ''Case'' [Op ''LT'' [Col [] bounds ''_lo'', date_add (Col [] bounds ''_hi'') (Inl (- (MAX_SPINE_DAYS - 1))) DAY True],
      date_add (Col [] bounds ''_hi'') (Inl (- (MAX_SPINE_DAYS - 1))) DAY True, Col [] bounds ''_lo''], ''_lo''), (Col [] bounds ''_hi'', ''_hi'')]
      None (FromTable bounds bounds) [] [] []"
  have window: "stmt_rows T ?w = [[(''_lo'', VNum (of_int start)), (''_hi'', VNum (of_int hi))]]"
    using plain by (simp add: bounds project_row_def AGGREGATES_def ev_add env_def cell_def start_def MAX_SPINE_DAYS_def)
  have nums: "stmt_rows T (Stmt [(spine_number (DIGITS - 1), ''n'')] None (digit_product digits (DIGITS - 1)) [] [] []) = map digit_row (spine_numbers 4)"
    using spine_number_rows [of T digits] digits by (simp add: digits_rows DIGITS_def)
  let ?day = "date_add (Col [] ''r'' ''_lo'') (Inr (Col [] ''s'' ''n'')) DAY True"
  let ?b = "\<lambda>n. [(''r'', [(''_lo'', VNum (of_int start)), (''_hi'', VNum (of_int hi))]), (''s'', digit_row n)]"
  have day: "ev (env (?b n)) ?day = VNum (of_int (start + int n))" for n by (simp add: ev_add env_def cell_def digit_row_def)
  have "stmt_rows T (spine_select date_add bounds digits) =
      map (\<lambda>n. [(DAY_COLUMN, VNum (of_int (start + int n)))]) (filter (\<lambda>n. start + int n \<le> hi) (spine_numbers 4))"
  proof -
    have rows: "clause_rows T (FromJoin CROSS_JOIN (FromStmt ?w ''r'') (FromStmt (Stmt [(spine_number (DIGITS - 1), ''n'')] None
        (digit_product digits (DIGITS - 1)) [] [] []) ''s'') None) = map ?b (spine_numbers 4)"
      by (simp only: clause_rows.simps window nums) (simp add: comp_def Let_def cond_holds_def)
    have keep: "cond_holds (?b n) (Some (Op ''LTE'' [?day, Col [] ''r'' ''_hi''])) \<longleftrightarrow> start + int n \<le> hi" for n
    proof -
      have "rat_of_int start + rat_of_nat n \<le> rat_of_int hi \<longleftrightarrow> start + int n \<le> hi" by (metis of_int_add of_int_le_iff of_int_of_nat_eq)
      then show ?thesis using day [of n] by (simp add: cond_holds_def) (simp add: env_def cell_def)
    qed
    show ?thesis
      unfolding spine_select_def Let_def stmt_rows.simps rows using plain(2) [of "''r''" "''_lo''" "''s''" "''n''"] day
      by (simp add: filter_map comp_def keep project_row_def del: ev.simps spine_numbers.simps)
  qed
  then have "map (\<lambda>r. cell r DAY_COLUMN) (stmt_rows T (spine_select date_add bounds digits)) =
      map (\<lambda>n. VNum (of_int (start + int n))) (filter (\<lambda>n. start + int n \<le> hi) (spine_numbers 4))"
    by (simp add: cell_def comp_def)
  moreover have "distinct (map (\<lambda>n. VNum (of_int (start + int n))) (filter (\<lambda>n. start + int n \<le> hi) (spine_numbers 4)))"
    using spine_numbers_exact [of 4] by (auto simp: distinct_map inj_on_def)
  moreover have "set (filter (\<lambda>n. start + int n \<le> hi) (spine_numbers 4)) = nat ` (\<lambda>d. d - start) ` {start..hi}"
  proof (intro equalityI subsetI)
    fix n assume "n \<in> set (filter (\<lambda>n. start + int n \<le> hi) (spine_numbers 4))"
    then have "n = nat ((start + int n) - start)" "start + int n \<in> {start..hi}" by auto
    then show "n \<in> nat ` (\<lambda>d. d - start) ` {start..hi}" by (rule image_eqI [OF _ imageI])
  qed (use spine_numbers_exact [of 4] in \<open>auto simp: start_def MAX_SPINE_DAYS_def\<close>)
  moreover have "(\<lambda>n. VNum (of_int (start + int n))) ` nat ` (\<lambda>d. d - start) ` {start..hi} = (\<lambda>d. VNum (of_int d)) ` {start..hi}"
    unfolding image_image by (rule image_cong) simp_all
  ultimately show ?thesis unfolding start_def [symmetric] by (metis list.set_map)
qed

section \<open>A trailing window adds up its days\<close>

lemma cmp3_true: "cmp3 f x y = VBool True \<longleftrightarrow> (\<exists>a b. x = VNum a \<and> y = VNum b \<and> f a b)"
  by (cases x; cases y) auto

text \<open>A daily row in the trailing window of \<open>c\<close> days of a target day, and its values in the columns of the partition.\<close>

definition in_frame :: "int \<Rightarrow> row \<Rightarrow> row \<Rightarrow> bool" where
  "in_frame c x y \<longleftrightarrow> (\<exists>a b. cell y DAY_COLUMN = VNum a \<and> cell x DAY_COLUMN = VNum b \<and> b - of_int c < a \<and> a \<le> b)"

definition partition_of :: "(nat \<times> string) list \<Rightarrow> nat list \<Rightarrow> row \<Rightarrow> val list" where
  "partition_of names ps y = map (\<lambda>i. cell y (the (map_of names i))) ps"

lemma frame_holds:
  assumes "adds_days (pl_date_add pl)" and "df_window df = Some w" and "du_unit w = DAY"
  shows "cond_holds [(''t'', x), (''d'', y)] (Some (Op ''And'' (frame_conditions (pl_date_add pl) (df_window df) (df_to_date df)))) \<longleftrightarrow>
    in_frame (du_count w) x y"
proof -
  have "ev \<sigma> (pl_date_add pl e (Inl k) DAY True) = num3 (+) (ev \<sigma> e) (VNum (of_int k))" for \<sigma> e k
    using assms(1) by (simp add: adds_days_def)
  then show ?thesis
    using assms(2,3)
    by (cases "cell x DAY_COLUMN"; cases "cell y DAY_COLUMN")
      (auto simp: frame_conditions_def cond_holds_def in_frame_def cmp3_true env_def Let_def)
qed

lemma frame_rows:
  assumes "adds_days (pl_date_add pl)" and "df_window df = Some w" and "du_unit w = DAY"
  shows "clause_rows T (frame_from pl df targets daily) =
    concat (map (\<lambda>x. map (\<lambda>y. [(''t'', x), (''d'', y)]) (filter (in_frame (du_count w) x) (T daily))) (T targets))"
  using frame_holds [OF assms] by (simp add: frame_from_def comp_def filter_map Let_def)

lemma filter_concat_unique:
  assumes "distinct (map g xs)" and "x \<in> set xs" and "\<And>y b. y \<in> set xs \<Longrightarrow> b \<in> set (f y) \<Longrightarrow> Q b \<Longrightarrow> g y = g x"
  shows "filter Q (concat (map f xs)) = filter Q (f x)"
  using assms
proof (induction xs)
  case (Cons y xs)
  show ?case
  proof (cases "y = x")
    case True
    have "filter Q (concat (map f xs)) = []"
    proof (rule filter_False, rule ballI)
      fix b assume "b \<in> set (concat (map f xs))"
      then obtain z where z: "z \<in> set xs" "b \<in> set (f z)" by auto
      then have "g z \<noteq> g x" using Cons.prems(1) True by (metis distinct.simps(2) image_eqI list.set_map list.simps(9))
      then show "\<not> Q b" using Cons.prems(3) [of z b] z by auto
    qed
    then show ?thesis using True by simp
  next
    case False
    then have x: "x \<in> set xs" using Cons.prems(2) by simp
    then have "g y \<noteq> g x" using Cons.prems(1) by (metis distinct.simps(2) image_eqI list.set_map list.simps(9))
    then have "filter Q (f y) = []" using Cons.prems(3) [of y] by (auto simp: filter_empty_conv)
    then show ?thesis using Cons.IH [OF _ x] Cons.prems by simp
  qed
qed simp

lemma reaggregate_aggregates [simp]: "reaggregate find_agg e \<in> set AGGREGATES"
  by (simp add: reaggregate_def AGGREGATES_def split: option.splits agg.splits)

lemma enumerated_positions: "map (\<lambda>(i, n). g i) (enumerate_list xs) = map g [0..<length xs]"
  by (rule nth_equalityI) (auto simp: enumerate_list_def)

text \<open>
  C16: a trailing window adds up its days. With one target day per bucket, the result has one row per bucket and partition
  that has a daily row in the window, and no other; the value of the row is the aggregate of exactly the daily
  values of that partition whose day lies in the \<open>c\<close> days up to the target day, whatever days have no rows.
\<close>

theorem trailing_window_adds_up_its_days:
  assumes adds: "adds_days (pl_date_add pl)" and w: "df_window df = Some w" "du_unit w = DAY"
    and agg: "df_agg df \<noteq> PA_AVERAGE" "df_reaggregate df = reaggregate find_agg e"
    and one: "distinct (map (\<lambda>x. cell x ''_bucket'') (T targets))"
    and ps: "ps = filter (\<lambda>i. i \<noteq> df_order_index df) [0..<length outs]"
  shows "map snd ` set (stmt_rows T (frame_select pl df ps names targets daily windows outs out_name)) =
    {map (\<lambda>i. if i = df_order_index df then cell x ''_bucket'' else cell y (the (map_of names i))) [0..<length outs] @
       [aggregate (df_reaggregate df) (map (\<lambda>z. cell z ''_value'')
         (filter (\<lambda>z. in_frame (du_count w) x z \<and> partition_of names ps z = partition_of names ps y) (T daily)))] | x y.
     x \<in> set (T targets) \<and> y \<in> set (T daily) \<and> in_frame (du_count w) x y}"
proof -
  let ?part = "partition_of names ps" and ?in = "in_frame (du_count w)"
  let ?b = "\<lambda>x y. [(''t'', x), (''d'', y)]"
  let ?gs = "Col [] ''t'' ''_bucket'' # map (partition_column names ''d'') ps"
  let ?e = "\<lambda>i. if i = df_order_index df then Col [] ''t'' ''_bucket'' else partition_column names ''d'' i"
  let ?ps = "map (\<lambda>(i, n). (?e i, n)) (enumerate_list outs) @ [(frame_value df, out_name)]"
  let ?bs = "concat (map (\<lambda>x. map (?b x) (filter (?in x) (T daily))) (T targets))"
  define key where "key = (\<lambda>b. map (ev (env b)) ?gs)"
  have key: "key (?b x y) = cell x ''_bucket'' # ?part y" for x y
    by (simp add: key_def env_def partition_column_def partition_of_def)
  have "stmt_rows T (frame_select pl df ps names targets daily windows outs out_name) =
      map (\<lambda>k. map (\<lambda>(e, n). (n, group_value (filter (\<lambda>b. key b = k) ?bs) e)) ?ps) (remdups (map key ?bs))"
    using agg(1) by (simp add: frame_select_def Let_def frame_rows [OF adds w] group_rows_def key_def)
  then have rows: "map snd ` set (stmt_rows T (frame_select pl df ps names targets daily windows outs out_name)) =
      (\<lambda>b. map (\<lambda>(e, n). group_value (filter (\<lambda>c. key c = key b) ?bs) e) ?ps) ` set ?bs"
    by (simp add: image_image comp_def split_def)
  have group: "filter (\<lambda>c. key c = key (?b x y)) ?bs = map (?b x) (filter (\<lambda>z. ?in x z \<and> ?part z = ?part y) (T daily))"
    if x: "x \<in> set (T targets)" for x y
  proof -
    have "filter (\<lambda>c. key c = key (?b x y)) ?bs = filter (\<lambda>c. key c = key (?b x y)) (map (?b x) (filter (?in x) (T daily)))"
      by (rule filter_concat_unique [OF one x]) (auto simp: key)
    then show ?thesis by (simp add: filter_map comp_def key conj_commute)
  qed
  have projected: "map (\<lambda>(e, n). group_value bs e) ?ps = map (\<lambda>i. group_value bs (?e i)) [0..<length outs] @ [group_value bs (frame_value df)]" for bs
    using enumerated_positions [of "\<lambda>i. group_value bs (?e i)" outs] by (simp add: comp_def split_def)
  have row: "map (\<lambda>(e, n). group_value (filter (\<lambda>c. key c = key (?b x y)) ?bs) e) ?ps =
      map (\<lambda>i. if i = df_order_index df then cell x ''_bucket'' else cell y (the (map_of names i))) [0..<length outs] @
      [aggregate (df_reaggregate df) (map (\<lambda>z. cell z ''_value'') (filter (\<lambda>z. ?in x z \<and> ?part z = ?part y) (T daily)))]"
    if x: "x \<in> set (T targets)" and y: "y \<in> set (T daily)" "?in x y" for x y
  proof -
    let ?zs = "filter (\<lambda>z. ?in x z \<and> ?part z = ?part y) (T daily)"
    have "y \<in> set ?zs" using y by simp
    then obtain z zs where zs: "?zs = z # zs" by (cases ?zs) auto
    then have "z \<in> set ?zs" by simp
    then have "?part z = ?part y" by simp
    then have "cell z (the (map_of names i)) = cell y (the (map_of names i))" if "i < length outs" "i \<noteq> df_order_index df" for i
      using that by (simp add: partition_of_def ps)
    then have "map (\<lambda>i. group_value (map (?b x) ?zs) (?e i)) [0..<length outs] =
        map (\<lambda>i. if i = df_order_index df then cell x ''_bucket'' else cell y (the (map_of names i))) [0..<length outs]"
      unfolding zs by (intro map_cong) (auto simp: env_def partition_column_def)
    moreover have "group_value (map (?b x) ?zs) (frame_value df) = aggregate (df_reaggregate df) (map (\<lambda>z. cell z ''_value'') ?zs)"
      using agg(2) by (simp add: frame_value_def comp_def env_def)
    ultimately show ?thesis unfolding group [OF x] projected by (simp only:)
  qed
  define F where "F = (\<lambda>b. map (\<lambda>(e, n). group_value (filter (\<lambda>c. key c = key b) ?bs) e) ?ps)"
  define G where "G = (\<lambda>x y. map (\<lambda>i. if i = df_order_index df then cell x ''_bucket'' else cell y (the (map_of names i))) [0..<length outs] @
      [aggregate (df_reaggregate df) (map (\<lambda>z. cell z ''_value'') (filter (\<lambda>z. ?in x z \<and> ?part z = ?part y) (T daily)))])"
  have FG: "F (?b x y) = G x y" if "x \<in> set (T targets)" "y \<in> set (T daily)" "?in x y" for x y
    unfolding F_def G_def by (rule row [OF that])
  have "F ` set ?bs = {F (?b x y) | x y. x \<in> set (T targets) \<and> y \<in> set (T daily) \<and> ?in x y}" by auto
  also have "\<dots> = {G x y | x y. x \<in> set (T targets) \<and> y \<in> set (T daily) \<and> ?in x y}" using FG by (intro Collect_cong) metis
  finally show ?thesis unfolding rows F_def G_def .
qed

section \<open>Examples\<close>


definition day_adapter :: "sql \<Rightarrow> int + sql \<Rightarrow> duration_unit \<Rightarrow> bool \<Rightarrow> sql" where
  "day_adapter e k u is_date =
     Op ''Add'' [e, (case k of Inr x \<Rightarrow> x | Inl i \<Rightarrow> if 0 \<le> i then number (nat i) else Op ''Sub'' [number 0, number (nat (- i))])]"

lemma day_adapter_adds: "adds_days day_adapter"
  by (auto simp: adds_days_def day_adapter_def AGGREGATES_def split: sum.splits if_splits)

definition spine_tables :: tables where
  "spine_tables t = (if t = ''b'' then [[(''_lo'', VNum 3), (''_hi'', VNum 5)]] else if t = ''d'' then map digit_row [0..<10] else [])"

lemma spine_holds_each_day_once_witness:
  "distinct (map (\<lambda>r. cell r DAY_COLUMN) (stmt_rows spine_tables (spine_select day_adapter ''b'' ''d''))) \<and>
   (\<lambda>r. cell r DAY_COLUMN) ` set (stmt_rows spine_tables (spine_select day_adapter ''b'' ''d'')) = {VNum 3, VNum 4, VNum 5}"
proof -
  have "{max 3 (5 - (MAX_SPINE_DAYS - 1))..5} = {3, 4, 5 :: int}" by (auto simp: MAX_SPINE_DAYS_def)
  then show ?thesis
    using spine_holds_each_day_once [OF day_adapter_adds, of spine_tables "''b''" 3 5 "''d''"] by (simp add: spine_tables_def digits_rows)
qed

definition frame_planning :: planning where
  "frame_planning = \<lparr>pl_engine = leaf_engine\<lparr>en_backend := leaf_backend\<lparr>bk_parse := (bk_parse leaf_backend)(''CAST(day AS DATE)'' \<mapsto>
       Op ''CAST DATE'' [Col [] [] ''day''])\<rparr>, en_cols := map_of [(''CAST(day AS DATE)'', [''day''])]\<rparr>,
     pl_shifts = [], pl_enclosing = [], pl_ctx = leaf_ctx [] [], pl_dialect = ''sqlite'', pl_percentile_cont = False,
     pl_quantile_text = (\<lambda>q. ''0.5''), pl_parse_postgres = (\<lambda>_. None), pl_date_add = day_adapter, pl_timestamp_type = ''TIMESTAMP'', pl_render = (\<lambda>_. ''s'')\<rparr>"

definition trailing_frame :: day_frame where
  "trailing_frame = \<lparr>df_order_index = 0, df_order_column = (''orders'', ''day''), df_column_type = DATE_T, df_window = Some (Duration 3 DAY),
     df_to_date = None, df_agg = PA_LAST, df_visibility = [], df_anchor = Op ''CurrentDate'' [], df_reaggregate = reaggregate (\<lambda>_. Some Sum) ''sum(id)''\<rparr>"

definition frame_tables :: tables where
  "frame_tables t =
     (if t = ''t'' then [[(''_bucket'', VText ''a''), (DAY_COLUMN, VNum 3)], [(''_bucket'', VText ''b''), (DAY_COLUMN, VNum 10)]]
      else if t = ''d'' then [[(DAY_COLUMN, VNum 1), (''_value'', VNum 5)], [(DAY_COLUMN, VNum 2), (''_value'', VNum 7)],
        [(DAY_COLUMN, VNum 9), (''_value'', VNum 1)]]
      else [])"

lemma trailing_window_adds_up_its_days_witness:
  "[VText ''a'', VNum 12] \<in> map snd ` set (stmt_rows frame_tables (frame_select frame_planning trailing_frame [] [] ''t'' ''d'' ''w'' [''day''] ''revenue'')) \<and>
   [VText ''b'', VNum 1] \<in> map snd ` set (stmt_rows frame_tables (frame_select frame_planning trailing_frame [] [] ''t'' ''d'' ''w'' [''day''] ''revenue''))"
proof -
  have "adds_days (pl_date_add frame_planning)" "df_window trailing_frame = Some (Duration 3 DAY)" "df_agg trailing_frame \<noteq> PA_AVERAGE"
    "df_reaggregate trailing_frame = reaggregate (\<lambda>_. Some Sum) ''sum(id)''" "[] = filter (\<lambda>i. i \<noteq> df_order_index trailing_frame) [0..<length [''day'']]"
    "distinct (map (\<lambda>x. cell x ''_bucket'') (frame_tables ''t''))"
    by (simp_all add: day_adapter_adds frame_planning_def trailing_frame_def frame_tables_def cell_def)
  note frame = trailing_window_adds_up_its_days [where T = frame_tables and targets = "''t''" and outs = "[''day'']" and daily = "''d''" and names = "[]"
      and windows = "''w''" and out_name = "''revenue''", OF this(1,2) _ this(3,4,6,5)]
  have agg: "aggregate ''Sum'' [VNum 5, VNum 7] = VNum 12" "aggregate ''Sum'' [VNum 1] = VNum 1" by code_simp+
  have f: "df_reaggregate trailing_frame = ''Sum''" "df_order_index trailing_frame = 0" by code_simp+
  show ?thesis
    unfolding frame [OF duration.sel(2)] f
    by (intro conjI CollectI exI [of _ "[(''_bucket'', VText ''a''), (DAY_COLUMN, VNum 3)]"] exI [of _ "[(''_bucket'', VText ''b''), (DAY_COLUMN, VNum 10)]"]
        exI [of _ "[(DAY_COLUMN, VNum 1), (''_value'', VNum 5)]"] exI [of _ "[(DAY_COLUMN, VNum 9), (''_value'', VNum 1)]"])
      (simp_all add: frame_tables_def in_frame_def cell_def partition_of_def DAY_COLUMN_def agg)
qed

text \<open>
  Under an offset the daily rows carry the moved day, so the spine runs over moved days, and the bucket moves them once more:
  a frame per day that an offset reaches through a derived metric is shown under dates that moved twice.
\<close>

definition moved_day :: shifts where
  "moved_day = [((''orders'', ''day''), ([Duration 1 YEAR], True))]"

definition day_inputs :: leaf_inputs where
  "day_inputs = \<lparr>li_ctx = leaf_ctx [] [], li_owner = ''orders'', li_dimensions = [(''orders'', column_dimension ''day'' ''day'')], li_where = [],
     li_edges = [], li_fanout = False, li_tree = [(''orders'', ''orders'')], li_prefix = [], li_mask = resolve_dim_mask [(''orders'', ''orders'')] []\<rparr>"

lemma offset_moves_the_bucket_twice:
  "map_sum id (map fst \<circ> projections) (daily_select (pl_engine frame_planning) trailing_frame moved_day day_inputs (revenue_metric None)) =
     Inr [Op ''CAST DATE'' [Op ''DATE_ADD'' [Col [] ''orders'' ''day'']], Op ''Sum'' [Col [] ''orders'' ''id'']] \<and>
   map_sum id (map fst \<circ> projections) (target_select frame_planning trailing_frame moved_day day_inputs ''spine'') =
     Inr [Op ''DATE_ADD'' [Col [] ''spine'' DAY_COLUMN], Op ''Max'' [Col [] ''spine'' DAY_COLUMN]]"
  by (rule conjI; code_simp)

end
