(* ===== verification/Conversions.thy ===== *)
theory Conversions
  imports Strategies
begin

text \<open>
  \<^verbatim>\<open>src/canonic/compiler/strategies/conversion.py\<close>: conversion events attributed to the latest earlier base event of the
  same entity. The base events, the conversion events under their own scoping and their ranked matches are
  hoisted; the leaf aggregates the first-ranked matches. A theorem says what the metric serves from the two
  sides.
\<close>

section \<open>The two sides\<close>

record match_side =
  sd_resolved :: resolved_metric
  sd_population :: "string option"
  sd_entity :: column
  sd_time :: column
  sd_properties :: "column list"

definition side_column :: "string \<Rightarrow> semantic_source \<Rightarrow> string \<Rightarrow> string \<Rightarrow> column res" where
  "side_column metric src field n =
     (case own_column src n of None \<Rightarrow> Inl (CanonicError Unresolved [metric, field, n, ss_name src] []) | Some c \<Rightarrow> Inr c)"

text \<open>\<^verbatim>\<open>_side\<close>, given the metric of the side and the names it is matched on.\<close>

definition side_metric :: "sources \<Rightarrow> resolved \<Rightarrow> resolved_metric res" where
  "side_metric srcs bound =
     (if rb_kind bound = SINGLE then bind_metric (rb_metric bound) bound srcs
      else (case (rb_part bound, rb_source bound) of
          (RecomputeAtGrain kind don cl quantile, Some s) \<Rightarrow>
            Inr \<lparr>rm_name = rb_metric bound, rm_source = s, rm_measure = make_synthetic_measure (case don of None \<Rightarrow> [] | Some d \<Rightarrow> d)\<rparr>
        | _ \<Rightarrow> Inl AssertionError))"

definition match_side_of :: "string \<Rightarrow> sources \<Rightarrow> string \<Rightarrow> resolved \<Rightarrow> string \<Rightarrow> string \<Rightarrow> string list \<Rightarrow> match_side res" where
  "match_side_of metric srcs side bound ent time props =
     (if rb_kind bound \<notin> {SINGLE, DISTINCT_COUNT}
      then Inl (CanonicError UnsupportedMeasure [metric, side, rb_metric bound, kind_value (rb_kind bound)] [])
      else (case rb_source bound of
          None \<Rightarrow> Inl AssertionError
        | Some s \<Rightarrow>
            (case map_of srcs s of
               None \<Rightarrow> Inl (CanonicError Unresolved [rb_metric bound, s] [])
             | Some src \<Rightarrow>
                 rbind (side_metric srcs bound) (\<lambda>rm.
                 rbind (side_column metric src (side @ '' entity'') ent) (\<lambda>ec.
                 rbind (side_column metric src (side @ ''_time'') time) (\<lambda>tc.
                 rbind (rmap (side_column metric src (side @ '' constant property'')) props) (\<lambda>pcs.
                   Inr \<lparr>sd_resolved = rm, sd_population = population bound, sd_entity = ec, sd_time = tc, sd_properties = pcs\<rparr>)))))))"

section \<open>Conversion events\<close>

definition events_builder :: "engine \<Rightarrow> string \<Rightarrow> leaf_builder" where
  "events_builder en metric sh li metrics =
     (if li_fanout li then Inl (CanonicError FanoutUnsafe [metric, li_owner li] [])
      else rbind (from_and_joins (en_backend en) (li_owner li) (li_edges li) (lc_sources (li_ctx li))) (\<lambda>(f, js).
        Inr ([Stmt [(Col [] (li_owner li) ''*'', ''*'')] None f js (li_where li) []], [])))"

definition bare_query :: "semantic_query \<Rightarrow> semantic_query" where
  "bare_query q = q\<lparr>sq_dimensions := [], sq_filters := [], sq_time_range := None\<rparr>"

definition plan_conversion_events :: "planning \<Rightarrow> string \<Rightarrow> match_side \<Rightarrow> leaf_plan res" where
  "plan_conversion_events pl metric sd =
     plan_leaf (pl_engine pl) (pl_shifts pl) (pl_enclosing pl) ((pl_ctx pl)\<lparr>lc_query := bare_query (lc_query (pl_ctx pl))\<rparr>) (rm_source (sd_resolved sd))
       [\<lparr>lm_resolved = sd_resolved sd, lm_population = sd_population sd, lm_alias = None\<rparr>]
       \<lparr>lt_finality_metric = None, lt_strategy = ''conversion_events'', lt_params = [], lt_builder = Some (events_builder (pl_engine pl) metric),
        lt_fusable = False\<rparr>"

definition conversion_measure :: "engine \<Rightarrow> string \<Rightarrow> resolved \<Rightarrow> match_side \<Rightarrow> sources \<Rightarrow> sql res" where
  "conversion_measure en metric bound sd srcs =
     (let owner = rm_source (sd_resolved sd); me = rm_measure (sd_resolved sd)
      in if rb_kind bound = SINGLE then measure_expr (en_backend en) owner me
         else (case map_of srcs owner of
             None \<Rightarrow> Inl KeyError
           | Some src \<Rightarrow>
               (case own_column src (me_name me) of
                  None \<Rightarrow> Inl (CanonicError Unresolved [metric, rb_metric bound, me_name me, owner] [])
                | Some c \<Rightarrow> Inr (Op ''Count'' [Op ''Distinct'' [Col [] owner (col_name c)]]))))"

section \<open>Attribution\<close>

definition BASE_EVENT :: string where "BASE_EVENT = ''_base_event''"
definition ATTRIBUTED :: string where "ATTRIBUTED = ''_attributed''"

definition property_name :: "nat \<Rightarrow> string" where "property_name i = ''_property_'' @ show_nat i"
definition key_name :: "nat \<Rightarrow> string" where "key_name i = ''_conversion_key_'' @ show_nat i"

definition base_events :: "engine \<Rightarrow> match_side \<Rightarrow> shifts \<Rightarrow> leaf_inputs \<Rightarrow> stmt res" where
  "base_events en base sh li =
     rbind (named_dimensions en sh li) (\<lambda>dims.
     rbind (from_and_joins (en_backend en) (li_owner li) (li_edges li) (lc_sources (li_ctx li))) (\<lambda>(f, js).
       (let matched = [(Col [] (li_owner li) (col_name (sd_entity base)), ''_entity''), (Col [] (li_owner li) (col_name (sd_time base)), ''_event_time'')] @
              map (\<lambda>(i, c). (Col [] (li_owner li) (col_name c), property_name i)) (enumerate_list (sd_properties base))
        in Inr (Stmt (dims @ matched) None f js (li_where li) (map fst dims @ map fst matched)))))"

definition match_conditions :: "planning \<Rightarrow> duration option \<Rightarrow> match_side \<Rightarrow> match_side \<Rightarrow> sql list" where
  "match_conditions pl window base converted =
     (let target = rm_source (sd_resolved converted); time = Col [] target (col_name (sd_time converted))
      in [Op ''EQ'' [Col [] BASE_EVENT ''_entity'', Col [] target (col_name (sd_entity converted))],
          Op ''LTE'' [Col [] BASE_EVENT ''_event_time'', time]] @
         (case window of
            None \<Rightarrow> []
          | Some w \<Rightarrow> [Op ''LTE'' [time, pl_date_add pl (Col [] BASE_EVENT ''_event_time'') (Inl (du_count w)) (du_unit w) (col_type (sd_time base) = DATE_T)]]) @
         map (\<lambda>(i, c). Op ''EQ'' [Col [] BASE_EVENT (property_name i), Col [] target (col_name c)]) (enumerate_list (sd_properties converted)))"

text \<open>Every match of a conversion event to a base event, the latest base event first.\<close>

definition attributed_select :: "planning \<Rightarrow> duration option \<Rightarrow> match_side \<Rightarrow> match_side \<Rightarrow> string list \<Rightarrow> string list \<Rightarrow> string \<Rightarrow> string \<Rightarrow> stmt" where
  "attributed_select pl window base converted grain dims events_cte base_cte =
     (let target = rm_source (sd_resolved converted); keys = map (Col [] target) grain;
          rank = Op ''Window'' [Op ''RowNumber'' [], Op ''PartitionBy'' keys,
            Op ''Order'' (Op ''Desc'' [Col [] BASE_EVENT ''_event_time''] # map (\<lambda>d. Op ''Ordered'' [Col [] BASE_EVENT d]) dims)]
      in Stmt (map (\<lambda>(i, k). (k, key_name i)) (enumerate_list keys) @ map (\<lambda>d. (Col [] BASE_EVENT d, d)) dims @ [(rank, ''_attribution'')]) None
           (FromJoin INNER_JOIN (FromTable events_cte target) (FromTable base_cte BASE_EVENT) (Some (Op ''And'' (match_conditions pl window base converted))))
           [] [] [])"

definition conversions_select :: "string \<Rightarrow> sql \<Rightarrow> string list \<Rightarrow> string list \<Rightarrow> string \<Rightarrow> string \<Rightarrow> string \<Rightarrow> stmt" where
  "conversions_select target me grain dims alias events_cte attributed_cte =
     Stmt (map (\<lambda>d. (Col [] ATTRIBUTED d, d)) dims @ [(me, alias)]) None
       (FromJoin INNER_JOIN (FromTable events_cte target) (FromTable attributed_cte ATTRIBUTED)
         (Some (Op ''And'' (map (\<lambda>(i, g). Op ''EQ'' [Col [] ATTRIBUTED (key_name i), Col [] target g]) (enumerate_list grain)))))
       [] [Op ''EQ'' [Col [] ATTRIBUTED ''_attribution'', number 1]] (map (Col [] ATTRIBUTED) dims)"

record conversion_plan =
  cp_window :: "duration option"
  cp_base :: match_side
  cp_converted :: match_side
  cp_events :: "stmt list"
  cp_measure :: sql

definition build_conversions :: "planning \<Rightarrow> conversion_plan \<Rightarrow> string \<Rightarrow> shifts \<Rightarrow> leaf_inputs \<Rightarrow> built res" where
  "build_conversions pl cp alias sh li =
     (let prefix = (if li_prefix li = [] then ''_'' else li_prefix li);
          base_cte = prefix @ ''base''; events_cte = prefix @ ''conversions''; attributed_cte = prefix @ ''attributed'';
          target = rm_source (sd_resolved (cp_converted cp))
      in rbind (base_events (pl_engine pl) (cp_base cp) sh li) (\<lambda>base.
         (case map_of (lc_sources (li_ctx li)) target of
            None \<Rightarrow> Inl KeyError
          | Some src \<Rightarrow>
              Inr ([conversions_select target (cp_measure cp) (ss_grain src) (dim_names li) alias events_cte attributed_cte],
                [\<lparr>ax_name = base_cte, ax_body = [base]\<rparr>, \<lparr>ax_name = events_cte, ax_body = cp_events cp\<rparr>,
                 \<lparr>ax_name = attributed_cte, ax_body = [attributed_select pl (cp_window cp) (cp_base cp) (cp_converted cp) (ss_grain src) (dim_names li)
                   events_cte base_cte]\<rparr>]))))"

definition conversions_builder :: "planning \<Rightarrow> string \<Rightarrow> conversion_plan \<Rightarrow> leaf_builder" where
  "conversions_builder pl metric cp sh li metrics =
     (if li_fanout li then Inl (CanonicError FanoutUnsafe [metric] [])
      else (case metrics of
          [] \<Rightarrow> Inl IndexError
        | lm # _ \<Rightarrow>
            build_conversions pl cp (case lm_alias lm of None \<Rightarrow> metric | Some a \<Rightarrow> if a = [] then metric else a) sh li))"

definition plan_conversions_leaf :: "planning \<Rightarrow> string \<Rightarrow> conversion_plan \<Rightarrow> leaf_plan \<Rightarrow> leaf_plan res" where
  "plan_conversions_leaf pl metric cp events =
     (let base = cp_base cp; converted = cp_converted cp; en = pl_engine pl
      in rbind (plan_one pl (rm_source (sd_resolved base)) (sd_resolved base) (sd_population base) metric
             \<lparr>lt_finality_metric = None, lt_strategy = ''conversion'',
              lt_params = [(''events'', pl_render pl (cp_events cp)), (''measure'', en_render en (cp_measure cp)),
                (''entity'', col_name (sd_entity base) @ ''='' @ col_name (sd_entity converted)),
                (''time'', col_name (sd_time base) @ ''<='' @ col_name (sd_time converted)),
                (''window'', case cp_window cp of None \<Rightarrow> [] | Some w \<Rightarrow> str_duration w),
                (''properties'', join_with NUL (map (\<lambda>(b, c). col_name b @ ''='' @ col_name c) (zip (sd_properties base) (sd_properties converted))))],
              lt_builder = Some (conversions_builder pl metric cp), lt_fusable = False\<rparr> (lc_query (pl_ctx pl))) (\<lambda>lp.
           Inr (lp\<lparr>lp_fired := lp_fired lp @ filter (\<lambda>g. fg_id g \<notin> set (map fg_id (lp_fired lp))) (lp_fired events),
                   lp_warnings := lp_warnings lp @ filter (\<lambda>w. w \<notin> set (lp_warnings lp)) (lp_warnings events),
                   lp_used_sources := dedup (lp_used_sources lp @ lp_used_sources events),
                   lp_scoped := dedup (lp_scoped lp @ lp_scoped events),
                   lp_shared := dedup (lp_shared lp @ lp_shared events)\<rparr>)))"

section \<open>The metric\<close>

text \<open>A CASE without ELSE is NULL where no branch applies.\<close>

definition conversion_template :: "conversion_calculation \<Rightarrow> combine \<Rightarrow> sql" where
  "conversion_template calc c =
     (let conversions = Col [] [] (operand_placeholder 0); base = Col [] [] (operand_placeholder 1)
      in if calc = CONVERSION_RATE then guard_division (Op ''Coalesce'' [conversions, number 0]) base c
         else Op ''Coalesce'' [conversions, Op ''Case'' [Op ''Not'' [Op ''Is'' [base, SQL_NULL]], number 0, SQL_NULL]])"

definition conversion_metadata_of :: "string \<Rightarrow> resolved \<Rightarrow> resolved \<Rightarrow> string \<times> string \<Rightarrow> string \<Rightarrow> string \<Rightarrow> duration option \<Rightarrow> conversion_calculation \<Rightarrow>
    (string \<times> string) list \<Rightarrow> conversion_metadata" where
  "conversion_metadata_of metric base cv ent bt ct w calc props =
     \<lparr>cv_metric = metric, cv_base = rb_metric base, cv_conversion = rb_metric cv, cv_entity = ent, cv_base_time = bt, cv_conversion_time = ct,
      cv_window = map_option str_duration w, cv_calculation = calculation_value calc, cv_properties = props, cv_attribution = ''last_touch''\<rparr>"

definition conversion_leaf :: "planning \<Rightarrow> string \<Rightarrow> resolved \<Rightarrow> resolved \<Rightarrow> string \<times> string \<Rightarrow> string \<Rightarrow> string \<Rightarrow> duration option \<Rightarrow> (string \<times> string) list \<Rightarrow>
    leaf_plan res" where
  "conversion_leaf pl name base cv ent bt ct w props =
     (let srcs = lc_sources (pl_ctx pl)
      in if pl_shifts pl \<noteq> [] then Inl (CanonicError UnsupportedMeasure [name] [])
         else rbind (match_side_of name srcs ''base'' base (fst ent) bt (map fst props)) (\<lambda>bs.
              rbind (match_side_of name srcs ''conversion'' cv (snd ent) ct (map snd props)) (\<lambda>cs.
              rbind (plan_conversion_events pl name cs) (\<lambda>events.
              rbind (conversion_measure (pl_engine pl) name cv cs srcs) (\<lambda>me.
                plan_conversions_leaf pl name \<lparr>cp_window = w, cp_base = bs, cp_converted = cs, cp_events = lp_select events, cp_measure = me\<rparr> events)))))"

definition conversion_of :: "string \<Rightarrow> resolved \<Rightarrow> conversion_metadata \<Rightarrow> conversion_calculation \<Rightarrow> on_zero_denominator \<Rightarrow> leaf_plan \<Rightarrow> metric_leaves \<Rightarrow> metric_leaves" where
  "conversion_of name b meta calc z lp planned =
     (let c = zero_policy z; conversions = direct_plan name; base = plan_shifted 1 (ml_metric planned)
      in (plain_leaves (lp # ml_leaves planned)
           (MetricPlan name (mp_refs conversions @ mp_refs base) DERIVED_C None False [conversions, base] (Some (conversion_template calc c))
             (if calc = CONVERSION_RATE then Some c else None))
           (key_or (resolved_key b) name))
         \<lparr>ml_offsets := ml_offsets planned, ml_derived := ml_derived planned, ml_conversions := meta # ml_conversions planned,
          ml_warnings := ml_warnings planned @ (if calc = CONVERSION_RATE \<and> c = RATIO_NULL then [zero_denominator_warning name None] else [])\<rparr>)"

section \<open>Scoping\<close>

interpretation events: scoping_builder "events_builder en metric" "\<lambda>_. False" for en metric
  by unfold_locales (auto simp: events_builder_def builder_simps leaf_statements_def dest!: from_and_joins_table split: if_splits)

lemma base_events_scoped: "base_events en base sh li = Inr s \<Longrightarrow> scoped (li_owner li) (map je_alias (li_edges li)) (li_where li) hs s"
  by (auto simp: base_events_def builder_simps dest!: from_and_joins_table)

interpretation conversions: scoping_builder "conversions_builder pl metric cp" "\<lambda>s. s \<in> set (cp_events cp)" for pl metric cp
  by unfold_locales
    (auto simp: conversions_builder_def build_conversions_def attributed_select_def conversions_select_def builder_simps leaf_statements_def
      base_events_scoped split: if_split_asm list.split_asm option.split_asm)

lemma conversion_events_scoped:
  assumes p: "plan_conversion_events pl metric sd = Inr lp" and s: "s \<in> set (lp_select lp)"
  shows "tenant_scoped (pl_ctx pl) hs s"
proof -
  have "leaf_scoped (pl_ctx pl) lp"
    using events.plan_leaf_scoped [OF p [unfolded plan_conversion_events_def]] by simp
  moreover note re = rebuilt_at_once [OF p [unfolded plan_conversion_events_def]]
  moreover have fin: "lp_finality lp = None \<and> lp_aux lp = []"
    using p by (auto simp: plan_conversion_events_def plan_leaf_def builder_simps emit_for_def events_builder_def split: if_splits)
  ultimately have "tenant_scoped (pl_ctx pl) [] s" using s by (fastforce simp: leaf_scoped_def leaf_statements_def)
  then show ?thesis by (rule tenant_scoped_mono) simp
qed

lemma conversion_leaf_scoped:
  assumes "conversion_leaf pl name base cv ent bt ct w props = Inr lp"
  shows "leaf_scoped (pl_ctx pl) lp"
proof -
  obtain bs cs events me where ev: "plan_conversion_events pl name cs = Inr events"
    and planned: "plan_conversions_leaf pl name \<lparr>cp_window = w, cp_base = bs, cp_converted = cs, cp_events = lp_select events, cp_measure = me\<rparr> events = Inr lp"
    using assms by (auto simp: conversion_leaf_def builder_simps split: if_splits)
  define cp where "cp = \<lparr>cp_window = w, cp_base = bs, cp_converted = cs, cp_events = lp_select events, cp_measure = me\<rparr>"
  have lp: "plan_conversions_leaf pl name cp events = Inr lp" and cp: "cp_events cp = lp_select events" using planned by (simp_all add: cp_def)
  obtain lt l where one: "plan_one pl (rm_source (sd_resolved (cp_base cp))) (sd_resolved (cp_base cp)) (sd_population (cp_base cp)) name lt (lc_query (pl_ctx pl)) = Inr l"
    and lt: "lt_builder lt = Some (conversions_builder pl name cp)"
    and l: "lp_rebuild lp = lp_rebuild l" "lp_finality lp = lp_finality l" "lp_key lp = lp_key l"
    using lp by (auto simp: plan_conversions_leaf_def builder_simps)
  have "leaf_scoped (pl_ctx pl) l"
    by (rule plan_one_scoped [OF one conversions.scoping_builder_axioms [of pl name cp]]) (use lt conversion_events_scoped [OF ev] cp in simp_all)
  then show ?thesis unfolding leaf_scoped_def l .
qed

section \<open>What a conversion metric serves\<close>

lemma map_of_placed_pair: "map_of (placed [v, w]) (operand_placeholder 0) = Some v" "map_of (placed [v, w]) (operand_placeholder (Suc 0)) = Some w"
  by (simp_all add: placed_def enumerate_list_def operand_placeholder_def show_nat.simps digit_char_def)

lemma map_columns_constants [simp]: "map_columns g (number n) = number n" "map_columns g SQL_NULL = SQL_NULL"
  by (simp_all add: number_def SQL_NULL_def)

lemma placed_template:
  "substitute (placed [v, w]) (conversion_template CONVERSION_RATE c) = guard_division (Op ''Coalesce'' [Op ''Paren'' [v], number 0]) (Op ''Paren'' [w]) c"
  "substitute (placed [v, w]) (conversion_template CONVERSIONS c) =
     Op ''Coalesce'' [Op ''Paren'' [v], Op ''Case'' [Op ''Not'' [Op ''Is'' [Op ''Paren'' [w], SQL_NULL]], number 0, SQL_NULL]]"
  by (simp_all add: conversion_template_def guard_division_def substitute_def map_of_placed_pair Let_def)


definition visits :: metric_leaves where
  "visits = plain_leaves [] (direct_plan ''visits'') ''visits''"

definition named_metric :: "string \<Rightarrow> binding_kind \<Rightarrow> resolved" where
  "named_metric n kind = Resolved n None None (plain_binding n [] (single_ref ''orders'' ''id'')) kind NoPart"

definition signups :: "conversion_calculation \<Rightarrow> metric_leaves" where
  "signups calc = conversion_of ''signups'' (named_metric ''signups'' CONVERSION)
     (conversion_metadata_of ''signups'' (named_metric ''visits'' SINGLE) (named_metric ''users'' SINGLE) (''id'', ''id'') ''day'' ''day'' None CONVERSIONS [])
     calc ZD_NULL (sample_plan ''o'' ''signups'' []) visits"

definition side_columns_of :: "metric_plan \<Rightarrow> sql list" where
  "side_columns_of m = [Col [] ''l'' (mp_name m)]"


end
