(* ===== verification/Planning.thy ===== *)
theory Planning
  imports Day_Frames Conversions Offsets
begin

text \<open>
  The dispatch of \<^verbatim>\<open>compiler/pipeline.py\<close> to the planner of a metric's kind, with the recursion into the inputs of derived,
  offset and conversion metrics. Theorems say that every scan of a composed statement is under its tenant predicates,
  and that the value of a derived metric is its expression over the values of its inputs.
\<close>

section \<open>Dispatch\<close>

definition per_day :: "resolved \<Rightarrow> bool" where
  "per_day b = (case rb_part b of Cumulative order gap hist window to_date agg \<Rightarrow> window \<noteq> None \<or> to_date \<noteq> None \<or> agg \<noteq> PA_LAST | _ \<Rightarrow> False)"

definition enclose :: "planning \<Rightarrow> resolved \<Rightarrow> planning" where
  "enclose pl b = pl\<lparr>pl_enclosing := pl_enclosing pl @ (case population b of None \<Rightarrow> [] | Some f \<Rightarrow> [f])\<rparr>"

definition under_shift :: "planning \<Rightarrow> time_shift \<Rightarrow> planning" where
  "under_shift pl ts = pl\<lparr>pl_shifts := pl_shifts pl @ [ts]\<rparr>"

text \<open>\<^verbatim>\<open>_plan_metric\<close> of \<^verbatim>\<open>pipeline.py\<close>; \<^verbatim>\<open>plan_other\<close> is the recursive call, under the shifts and populations a kind adds.\<close>

function plan_metric :: "planning \<Rightarrow> string \<Rightarrow> resolved \<Rightarrow> metric_leaves res" where
  "plan_metric pl name b =
     (if rb_kind b = OFFSET then
        (case rb_part b of
           Offset base td off \<Rightarrow>
             rbind (offset_shift pl base td off) (\<lambda>(shifted, groups, ts).
               map_sum id (present_offset name b base td off shifted groups)
                 (plan_metric (enclose (under_shift pl ts) b) (rb_metric base) base))
         | _ \<Rightarrow> Inl AssertionError)
      else if rb_kind b = DERIVED then
        (case rb_part b of
           Derived e inputs z \<Rightarrow>
             rbind (rmap (\<lambda>(a, i). plan_metric (enclose pl b) (rb_metric i) i) inputs) (derived_of pl name b e inputs z)
         | _ \<Rightarrow> Inl AssertionError)
      else if rb_kind b = CONVERSION then
        (case rb_part b of
           Conversion base cv ent bt ct w calc props z \<Rightarrow>
             rbind (conversion_leaf pl name base cv ent bt ct w props) (\<lambda>lp.
               map_sum id (conversion_of name b (conversion_metadata_of name base cv ent bt ct w calc props) calc z lp)
                 (plan_metric pl (rb_metric base) base))
         | _ \<Rightarrow> Inl AssertionError)
      else if rb_kind b \<in> {RATIO, WEIGHTED_AVG} then plan_composite pl b
      else if rb_kind b = SEMI_ADDITIVE_KIND then plan_semi_additive pl name b
      else if rb_kind b \<in> {DISTINCT_COUNT, PERCENTILE} then plan_recompute pl None name b
      else if rb_kind b = CUMULATIVE then
        (case rb_part b of
           Cumulative order gap hist window to_date agg \<Rightarrow> if per_day b then plan_rolling pl name b else plan_cumulative pl name b
         | _ \<Rightarrow> Inl AssertionError)
      else if rb_kind b = OPAQUE then plan_opaque pl name b
      else plan_simple pl name b)"
  by pat_completeness auto

termination
  by (relation "measure (\<lambda>(pl, name, b). size b)")
    (auto intro!: dependencies_size simp: dependencies.simps image_iff split: part.splits, force)

declare plan_metric.simps [simp del]

section \<open>Every scan is scoped\<close>

lemma planning_ctx [simp]: "pl_ctx (enclose pl b) = pl_ctx pl" "pl_ctx (under_shift pl ts) = pl_ctx pl"
  by (simp_all add: enclose_def under_shift_def)

lemmas kinds_scoped = plan_simple_scoped plan_opaque_scoped plan_recompute_scoped plan_semi_additive_scoped plan_cumulative_scoped
  plan_composite_scoped plan_rolling_scoped

lemma planned_leaves_scoped: "plan_metric pl name b = Inr ml \<Longrightarrow> leaves_scoped pl ml"
proof (induction pl name b arbitrary: ml rule: plan_metric.induct)
  case (1 pl name b)
  note plan = "1.prems" [unfolded plan_metric.simps [of pl name b]]
  consider (offset) "rb_kind b = OFFSET" | (derived) "rb_kind b = DERIVED" | (conversion) "rb_kind b = CONVERSION"
    | (other) "rb_kind b \<notin> {OFFSET, DERIVED, CONVERSION}" by blast
  then show ?case
  proof cases
    case offset
    then obtain base td off sf g ts m where part: "rb_part b = Offset base td off"
      and sh: "offset_shift pl base td off = Inr (sf, g, ts)"
      and m: "plan_metric (enclose (under_shift pl ts) b) (rb_metric base) base = Inr m"
      and ml: "ml = present_offset name b base td off sf g m"
      using plan by (auto simp: builder_simps split: part.splits)
    have "leaves_scoped (enclose (under_shift pl ts) b) m"
      by (rule "1.IH"(1) [OF offset part sh refl refl m])
    then show ?thesis using ml by (simp add: leaves_scoped_def present_offset_def)
  next
    case derived
    then obtain e inputs z planned where part: "rb_part b = Derived e inputs z"
      and ps: "rmap (\<lambda>(a, i). plan_metric (enclose pl b) (rb_metric i) i) inputs = Inr planned"
      and d: "derived_of pl name b e inputs z planned = Inr ml"
      using plan by (auto simp: builder_simps split: part.splits)
    have "leaves_scoped (enclose pl b) m" if m: "m \<in> set planned" for m
    proof -
      obtain a i where ai: "(a, i) \<in> set inputs" "plan_metric (enclose pl b) (rb_metric i) i = Inr m"
        using rmap_produced [OF ps m] by auto
      then show ?thesis using "1.IH"(2) [OF _ derived part ai(1) refl ai(2)] derived by simp
    qed
    then show ?thesis using derived_leaves [OF d] by (auto simp: leaves_scoped_def)
  next
    case conversion
    then obtain base cv ent bt ct w calc props z lp m where part: "rb_part b = Conversion base cv ent bt ct w calc props z"
      and lp: "conversion_leaf pl name base cv ent bt ct w props = Inr lp" and m: "plan_metric pl (rb_metric base) base = Inr m"
      and ml: "ml = conversion_of name b (conversion_metadata_of name base cv ent bt ct w calc props) calc z lp m"
      using plan by (auto simp: builder_simps split: part.splits)
    have "leaves_scoped pl m" using "1.IH"(3) [OF _ _ conversion part lp m] conversion by simp
    then show ?thesis using conversion_leaf_scoped [OF lp] by (simp add: leaves_scoped_def ml conversion_of_def Let_def)
  next
    case other
    then show ?thesis using plan kinds_scoped by (auto split: if_splits part.splits)
  qed
qed

section \<open>The composed statement\<close>

lemma Inl_okE: "Inl e = Inr z \<Longrightarrow> P"
  by simp

lemma if_okE:
  assumes "(if P then x else y) = Inr z" obtains P and "x = Inr z" | "\<not> P" and "y = Inr z"
  using assms by (cases P) auto

lemma rbind_okE:
  assumes "rbind m f = Inr y" obtains x where "m = Inr x" and "f x = Inr y"
  using assms by (auto simp: rbind_Inr_iff)

lemma compose_result_ast: "compose_result_of phys srcs ast n = Inr res \<Longrightarrow> co_ast res = ast"
  by (auto simp: compose_result_of_def builder_simps)

lemma fuse_key_leaf: "fuse d lps = (phys, owner_of) \<Longrightarrow> p \<in> set phys \<Longrightarrow> ph_key_leaf p \<in> set lps"
  using fused_key_leaves [of d lps "[]" "[]" "[]" phys owner_of] by (auto simp: fuse_def)

text \<open>The scans of a composed statement, the SELECTs that read tables, are those a leaf built.\<close>

definition scans :: "composed \<Rightarrow> stmt list" where
  "scans ast = concat (map (\<lambda>b. case b of LeafBody ss \<Rightarrow> ss | UnionBody us \<Rightarrow> []) (map snd (cm_ctes ast) @ [cm_final ast]))"

definition built_by :: "leaf_plan list \<Rightarrow> string set \<Rightarrow> stmt \<Rightarrow> bool" where
  "built_by lps names s \<longleftrightarrow> (\<exists>lp\<in>set lps. \<exists>ms prefix b. lp_rebuild lp ms prefix = Inr b \<and> s \<in> set (leaf_statements b) \<and> ax_name ` set (snd b) \<subseteq> names)"

lemma leaf_cte_scans:
  assumes "leaf_cte (n, p) = Inr cs" and "(c, LeafBody ss) \<in> set cs" and "s \<in> set ss" and "ph_key_leaf p \<in> set lps" and "fst ` set cs \<subseteq> names"
  shows "built_by lps names s"
proof -
  obtain b where b: "lp_rebuild (ph_key_leaf p) (ph_metrics p) (n @ ''__'') = Inr b"
    and cs: "cs = map (\<lambda>c. (ax_name c, LeafBody (ax_body c))) (snd b) @ [(n, LeafBody (fst b))]"
    using assms(1) by (auto simp: leaf_cte_def builder_simps)
  have "s \<in> set (leaf_statements b)" using assms(2,3) cs by (auto simp: leaf_statements_def)
  moreover have "ax_name ` set (snd b) \<subseteq> names" using assms(5) cs by (auto simp: image_image)
  ultimately show ?thesis using b assms(4) unfolding built_by_def by blast
qed

lemma fill_ctes_bodies: "(n, LeafBody ss) \<notin> set (fill_ctes dims fills)"
  by (auto simp: fill_ctes_def fill_observed_def Let_def)

lemma composed_scans_are_built:
  assumes c: "compose lps ms srcs d = Inr res" and s: "s \<in> set (scans (co_ast res))"
  shows "built_by lps (fst ` set (cm_ctes (co_ast res))) s"
proof -
  obtain phys owner_of where f: "fuse d lps = (phys, owner_of)" by fastforce
  let ?ast = "co_ast res" and ?nps = "map (\<lambda>i. (cte_name (cte_order phys) i, phys ! i)) (cte_order phys)"
  have keys: "ph_key_leaf p \<in> set lps" if "p \<in> set phys" for p using fuse_key_leaf [OF f that] .
  consider (one) b where "phys \<noteq> []" "lp_rebuild (ph_key_leaf (hd phys)) (ph_metrics (hd phys)) [] = Inr b"
      "?ast = \<lparr>cm_ctes = map (\<lambda>c. (ax_name c, LeafBody (ax_body c))) (snd b), cm_final = LeafBody (fst b)\<rparr>"
    | (many) leaf_ctes rest final where "rmap leaf_cte ?nps = Inr leaf_ctes" "?ast = \<lparr>cm_ctes = concat leaf_ctes @ rest, cm_final = UnionBody [final]\<rparr>"
      "\<forall>n ss. (n, LeafBody ss) \<notin> set rest"
    using c unfolding compose_def f prod.case Let_def
  proof (elim if_okE rbind_okE Inl_okE, simp_all only: split_beta, goal_cases)
    case (1 b)
    then show ?thesis by (intro that(1) [of b]) (auto dest: compose_result_ast)
  next
    case (2 projs leaf_ctes)
    show ?thesis
      by (rule that(2), fact, rule compose_result_ast [OF 2(8), unfolded append_assoc])
        (auto simp: fill_ctes_bodies build_spine_def build_visible_spine_def)
  qed
  then show ?thesis
  proof cases
    case one
    then have "s \<in> set (leaf_statements b)" "ax_name ` set (snd b) \<subseteq> fst ` set (cm_ctes ?ast)"
      using s by (auto simp: scans_def leaf_statements_def image_image)
    then show ?thesis using one(2) keys [OF hd_in_set [OF one(1)]] unfolding built_by_def by blast
  next
    case many
    obtain n ss cs where cs: "cs \<in> set leaf_ctes" "(n, LeafBody ss) \<in> set cs" "s \<in> set ss"
      using s many(2,3) by (force simp: scans_def split: cte_body.splits)
    obtain i where i: "i \<in> set (cte_order phys)" "leaf_cte (cte_name (cte_order phys) i, phys ! i) = Inr cs"
      using rmap_produced [OF many(1) cs(1)] by auto
    then have "phys ! i \<in> set phys" by (auto simp: cte_order_def)
    moreover have "fst ` set cs \<subseteq> fst ` set (cm_ctes ?ast)" unfolding many(2) using cs(1) by auto
    ultimately show ?thesis by (intro leaf_cte_scans [OF i(2) cs(2,3)] keys)
  qed
qed

lemma leaves_are_tenant_scoped:
  assumes leaves: "\<forall>lp\<in>set lps. leaf_scoped ctx lp" and comp: "compose lps ms srcs d = Inr res" and s: "s \<in> set (scans (co_ast res))"
  shows "tenant_scoped ctx (map fst (cm_ctes (co_ast res))) s \<or>
    (\<exists>lp\<in>set lps. lp_finality lp \<noteq> None \<and> branch_scoped ctx (lk_source (lp_key lp)) s)"
proof -
  obtain lp metrics prefix built where lp: "lp \<in> set lps" and built: "lp_rebuild lp metrics prefix = Inr built"
    and sb: "s \<in> set (leaf_statements built)" "ax_name ` set (snd built) \<subseteq> fst ` set (cm_ctes (co_ast res))"
    using composed_scans_are_built [OF comp s] unfolding built_by_def by blast
  have scoped: "leaf_scoped ctx lp" using leaves lp by blast
  show ?thesis
  proof (cases "lp_finality lp = None")
    case True
    then have "tenant_scoped ctx (map ax_name (snd built)) s" using scoped built sb(1) unfolding leaf_scoped_def by metis
    moreover have "set (map ax_name (snd built)) \<subseteq> set (map fst (cm_ctes (co_ast res)))" using sb(2) by simp
    ultimately show ?thesis using tenant_scoped_mono by blast
  next
    case False
    then have "branch_scoped ctx (lk_source (lp_key lp)) s" using scoped built sb(1) unfolding leaf_scoped_def by metis
    then show ?thesis using lp False by blast
  qed
qed

text \<open>
  C4: no statement scans rows of another tenant. Whatever the kind of the metric, however deep its inputs are nested
  under derived metrics, offsets and conversions and however leaves are fused, every SELECT of the composed
  statement reads common table expressions declared in it, or scans the source of a leaf and its planned joins under
  every tenant predicate of these tables. Where a leaf is split at a watermark, a branch scans its own source under
  the tenant predicates of the leaf's source, moved onto it.
\<close>

theorem composed_scans_are_tenant_scoped:
  assumes plan: "plan_metric pl name b = Inr ml"
    and comp: "compose (ml_leaves ml) ms srcs d = Inr res" and s: "s \<in> set (scans (co_ast res))"
  shows "(\<exists>owner edges conds. demands (pl_ctx pl) owner edges conds \<and>
      scoped owner (map je_alias edges) conds (map fst (cm_ctes (co_ast res))) s) \<or>
    (\<exists>lp edges conds. lp \<in> set (ml_leaves ml) \<and> lp_finality lp \<noteq> None \<and> demands (pl_ctx pl) (lk_source (lp_key lp)) edges conds \<and>
      (\<lambda>c. requalify_source c (lk_source (lp_key lp)) (from_alias (from_item (scan_of s)))) ` set conds \<subseteq> set (wheres (scan_of s)))"
proof -
  have "\<forall>lp\<in>set (ml_leaves ml). leaf_scoped (pl_ctx pl) lp"
    using planned_leaves_scoped [OF plan] by (simp only: leaves_scoped_def)
  from leaves_are_tenant_scoped [OF this comp s] show ?thesis
    unfolding tenant_scoped_def branch_scoped_def by (elim disjE bexE exE conjE) (blast, metis)
qed

section \<open>The value of a derived metric\<close>

text \<open>
  What an expression over the inputs means: the operators as in SQL, each division, nested ones included, under the
  policy for a zero denominator.
\<close>

definition policy_div :: "combine \<Rightarrow> val \<Rightarrow> val \<Rightarrow> val" where
  "policy_div c x y =
     (if c = RATIO_RAW then div3 x y
      else (let q = div3 x (if y = VNum 0 then VNull else y) in if c = RATIO_ZERO \<and> q = VNull then VNum 0 else q))"

fun policy_value :: "combine \<Rightarrow> tuple_env \<Rightarrow> sql \<Rightarrow> val" where
  "policy_value c \<rho> (Col db t n) = \<rho> t n"
| "policy_value c \<rho> (Op f es) =
     (case (f = ''Div'', map (policy_value c \<rho>) es) of (True, [x, y]) \<Rightarrow> policy_div c x y | (_, vs) \<Rightarrow> apply_op f vs)"

lemma ev_guard_division: "ev \<sigma> (guard_division n d c) = policy_div c (ev \<sigma> n) (ev \<sigma> d)"
proof -
  have "coalesce3 [q, VNum 0] = (if q = VNull then VNum 0 else q)" for q by (simp add: coalesce3_def)
  moreover have "(eq3 y (VNum 0) = VBool True) = (y = VNum 0)" for y by (auto simp: eq3_true)
  ultimately show ?thesis by (simp add: guard_division_def policy_div_def Let_def)
qed

lemma ev_guarded: "ev \<rho> (guarded c e) = policy_value c \<rho> e"
proof (induction c e rule: guarded.induct)
  case (2 c f es)
  then have m: "map (ev \<rho>) (map (guarded c) es) = map (policy_value c \<rho>) es" by simp
  show ?case
  proof (cases "f = ''Div'' \<and> length es = 2")
    case True
    then obtain x y where "es = [x, y]" by (auto simp: numeral_2_eq_2 length_Suc_conv)
    then show ?thesis using True 2 by (simp add: ev_guard_division)
  next
    case False
    then have "guarded c (Op f es) = Op f (map (guarded c) es)" "policy_value c \<rho> (Op f es) = apply_op f (map (policy_value c \<rho>) es)"
      by (auto split: bool.splits list.splits)
    then show ?thesis using m by (simp only: ev.simps)
  qed
qed simp

lemma ev_map_columns:
  "(\<And>db t n. ev \<sigma> (g db t n) = \<rho> t n) \<Longrightarrow> ev \<sigma> (map_columns g e) = ev \<rho> e"
proof (induction g e rule: map_columns.induct)
  case (2 g f es)
  then have "map (ev \<sigma>) (map (map_columns g) es) = map (ev \<rho>) es" by simp
  then show ?case by (simp only: map_columns.simps ev.simps)
qed simp

lemma policy_value_map_columns:
  assumes "\<And>db t n. (t, n) \<in> set (columns e) \<Longrightarrow> policy_value c \<sigma> (g db t n) = \<rho> t n"
  shows "policy_value c \<sigma> (map_columns g e) = policy_value c \<rho> e"
  using assms
proof (induction g e rule: map_columns.induct)
  case (2 g f es)
  then have "map (policy_value c \<sigma>) (map (map_columns g) es) = map (policy_value c \<rho>) es" by fastforce
  then show ?case by (simp only: map_columns.simps policy_value.simps)
qed simp

text \<open>The value of the input a name stands for.\<close>

definition input_values :: "tuple_env \<Rightarrow> string list \<Rightarrow> sql list \<Rightarrow> tuple_env" where
  "input_values \<sigma> names vs t n = (case map_of (zip names vs) n of None \<Rightarrow> VNull | Some v \<Rightarrow> ev \<sigma> v)"

lemma operand_placeholder_inj [simp]: "operand_placeholder i = operand_placeholder j \<longleftrightarrow> i = j"
  by (simp add: operand_placeholder_def) (metis nat_of_digits_show_nat)

lemma enumerated_keys: "map (\<lambda>(i, v). (operand_placeholder i, v)) (enumerate_list vs) = zip (map operand_placeholder [0..<length vs]) vs"
  by (simp add: enumerate_list_def zip_map1)

lemma enumerated_names: "map (\<lambda>(i, n). (n, operand_placeholder i)) (enumerate_list ns) = zip ns (map operand_placeholder [0..<length ns])"
  by (rule nth_equalityI) (auto simp: enumerate_list_def)

lemma map_of_placed: "i < length vs \<Longrightarrow> map_of (placed vs) (operand_placeholder i) = Some (vs ! i)"
  using map_of_zip_nth [of "map operand_placeholder [0..<length vs]" vs i]
  by (simp add: placed_def enumerated_keys distinct_map inj_on_def)

lemma template_columns:
  assumes "distinct names" and "i < length names"
  shows "map_of (rev (map (\<lambda>(i, n). (n, operand_placeholder i)) (enumerate_list names))) (names ! i) = Some (operand_placeholder i)"
  unfolding enumerated_names using assms
  by (intro map_of_is_SomeI) (auto simp: rev_map [symmetric] in_set_zip)

text \<open>
  C15: a derived metric is its expression over the values of its inputs. The expression a query projects for it
  evaluates, on every row, to the expression of the contract with each input replaced by the value that input
  has on the row, whatever the input is made of, and with each division under the declared policy: a zero
  denominator serves NULL or 0 or fails.
\<close>

theorem derived_value_is_its_expression:
  assumes d: "derived_of pl name b e inputs z planned = Inr ml" and p: "pl_parse_postgres pl e = Some p"
    and names: "distinct (map fst inputs)" and cols: "set (columns p) \<subseteq> (\<lambda>n. ([], n)) ` fst ` set inputs"
    and len: "length planned = length inputs"
    and vs: "rmap (metric_value cs) (mp_operands (ml_metric ml)) = Inr vs"
  shows "\<exists>v. metric_value cs (ml_metric ml) = Inr v \<and> ev \<sigma> v = policy_value (zero_policy z) (input_values \<sigma> (map fst inputs) vs) p"
proof -
  let ?names = "map fst inputs" and ?c = "zero_policy z"
  let ?ph = "rev (map (\<lambda>(i, n). (n, operand_placeholder i)) (enumerate_list ?names))"
  let ?rename = "\<lambda>db t n. if t = [] then (case map_of ?ph n of None \<Rightarrow> Col db t n | Some p \<Rightarrow> Col [] [] p) else Col db t n"
  define \<rho> where "\<rho> = (\<lambda>t n. if t = [] then (case map_of (placed vs) n of None \<Rightarrow> \<sigma> t n | Some v \<Rightarrow> ev \<sigma> v) else \<sigma> t n)"
  have mp: "ml_metric ml = MetricPlan name (concat (map mp_refs (offset_operands planned))) DERIVED_C None False (offset_operands planned)
      (Some (guarded ?c (map_columns ?rename p))) (if divides (guarded ?c (map_columns ?rename p)) then Some ?c else None)"
    using d p by (auto simp: derived_of_def template_def Let_def plain_leaves_def)
  have "length vs = length inputs" using vs len by (auto simp: rmap_ok_iff mp offset_operands_def dest: list_all2_lengthD)
  then have input: "policy_value ?c \<rho> (?rename db t n) = input_values \<sigma> ?names vs t n" if tn: "(t, n) \<in> set (columns p)" for db t n
  proof -
    obtain i where i: "i < length inputs" "n = ?names ! i" "t = []"
      using subsetD [OF cols tn] by (auto simp: in_set_conv_nth)
    moreover have "map_of (zip ?names vs) n = Some (vs ! i)"
      using map_of_zip_nth [of ?names vs i] i \<open>length vs = length inputs\<close> names by simp
    ultimately show ?thesis
      using template_columns [OF names, of i] map_of_placed [of i vs] \<open>length vs = length inputs\<close> by (simp add: \<rho>_def input_values_def)
  qed
  have "ev \<sigma> (substitute (placed vs) e') = ev \<rho> e'" for e'
    unfolding substitute_def by (rule ev_map_columns) (auto simp: \<rho>_def split: option.splits)
  then show ?thesis
    using vs policy_value_map_columns [where g = ?rename and c = ?c and e = p, OF input] by (simp add: mp ev_guarded)
qed

section \<open>Examples\<close>

definition shop_planning :: planning where
  "shop_planning = \<lparr>pl_engine = leaf_engine\<lparr>en_backend := leaf_backend\<lparr>bk_parse := (bk_parse leaf_backend)(''id'' \<mapsto> Col [] [] ''id'', ''id IS NOT NULL'' \<mapsto>
       Op ''Not'' [Op ''Is'' [Col [] [] ''id'', SQL_NULL]])\<rparr>\<rparr>,
     pl_shifts = [], pl_enclosing = [], pl_ctx = leaf_ctx [] [''customer_no''], pl_dialect = ''sqlite'', pl_percentile_cont = False,
     pl_quantile_text = (\<lambda>q. ''0.5''), pl_parse_postgres = map_of [(''m / n'', Op ''Div'' [Col [] [] ''m'', Col [] [] ''n''])],
     pl_date_add = day_adapter, pl_timestamp_type = ''TIMESTAMP'', pl_render = (\<lambda>_. ''s'')\<rparr>"

definition recomputed :: "string \<Rightarrow> binding_kind \<Rightarrow> resolved" where
  "recomputed name kind = Resolved name (Some ''orders'') None (plain_binding name [] (single_ref ''orders'' ''id'')) kind
     (RecomputeAtGrain kind (Some ''id'') (Some ''id'') (Some (1 / 2)))"

definition shop_share :: resolved where
  "shop_share = Resolved ''share'' None None (plain_binding ''share'' [] (single_ref ''orders'' ''id'')) DERIVED
     (Derived ''m / n'' [(''m'', recomputed ''median'' PERCENTILE), (''n'', recomputed ''buyers'' DISTINCT_COUNT)] ZD_NULL)"

lemma composed_scans_are_tenant_scoped_witness:
  "\<exists>ml res. plan_metric shop_planning ''share'' shop_share = Inr ml \<and>
     compose (ml_leaves ml) [ml_metric ml] shop_sources True = Inr res \<and> length (scans (co_ast res)) = 3 \<and>
     list_all (\<lambda>s. \<exists>owner edges conds. demands (pl_ctx shop_planning) owner edges conds \<and>
       scoped owner (map je_alias edges) conds (map fst (cm_ctes (co_ast res))) s) (scans (co_ast res))"
proof -
  let ?p = "plan_metric shop_planning ''share'' shop_share"
  let ?c = "rbind ?p (\<lambda>ml. compose (ml_leaves ml) [ml_metric ml] shop_sources True)"
  have "map_sum id (\<lambda>ml. map lp_finality (ml_leaves ml)) ?p = Inr [None, None]" by code_simp
  then obtain ml where ml: "?p = Inr ml" and fin: "\<forall>lp\<in>set (ml_leaves ml). lp_finality lp = None"
    by (cases ?p) auto
  have three: "map_sum id (\<lambda>res. length (scans (co_ast res))) ?c = Inr 3" by code_simp
  then obtain res where res: "compose (ml_leaves ml) [ml_metric ml] shop_sources True = Inr res" "length (scans (co_ast res)) = 3"
    using ml by (auto simp: map_sum_Inr_iff)
  have "\<exists>owner edges conds. demands (pl_ctx shop_planning) owner edges conds \<and>
      scoped owner (map je_alias edges) conds (map fst (cm_ctes (co_ast res))) s" if "s \<in> set (scans (co_ast res))" for s
    using composed_scans_are_tenant_scoped [OF ml res(1) that] fin by metis
  then show ?thesis using ml res by (auto simp: list_all_iff)
qed

definition direct_leaves :: "string \<Rightarrow> metric_leaves" where
  "direct_leaves n = plain_leaves [] (direct_plan n) n"

definition input_columns_of :: "metric_plan \<Rightarrow> sql list" where
  "input_columns_of m = [Col [] ''l'' (mp_name m)]"

lemma derived_value_is_its_expression_witness:
  "\<exists>ml v w. derived_of shop_planning ''share'' shop_share ''m / n'' [(''m'', recomputed ''median'' PERCENTILE), (''n'', recomputed ''buyers'' DISTINCT_COUNT)]
     ZD_NULL [direct_leaves ''median'', direct_leaves ''buyers''] = Inr ml \<and>
   metric_value input_columns_of (ml_metric ml) = Inr v \<and> ev (\<lambda>t c. if c = ''median'' then VNum 6 else VNum 0) v = VNull \<and>
   metric_value input_columns_of (ml_metric ml) = Inr w \<and> ev (\<lambda>t c. if c = ''median'' then VNum 6 else VNum 4) w = VNum (3 / 2)"
proof -
  let ?in = "[(''m'', recomputed ''median'' PERCENTILE), (''n'', recomputed ''buyers'' DISTINCT_COUNT)]"
  let ?d = "derived_of shop_planning ''share'' shop_share ''m / n'' ?in ZD_NULL [direct_leaves ''median'', direct_leaves ''buyers'']"
  have "map_sum id (\<lambda>ml. rmap (metric_value input_columns_of) (mp_operands (ml_metric ml))) ?d =
      Inr (Inr [Col [] ''l'' ''median'', Col [] ''l'' ''buyers''])" by code_simp
  then obtain ml where ml: "?d = Inr ml"
    and vs: "rmap (metric_value input_columns_of) (mp_operands (ml_metric ml)) = Inr [Col [] ''l'' ''median'', Col [] ''l'' ''buyers'']"
    by (auto simp: map_sum_Inr_iff)
  have parsed: "pl_parse_postgres shop_planning ''m / n'' = Some (Op ''Div'' [Col [] [] ''m'', Col [] [] ''n''])" by (simp add: shop_planning_def)
  note evaluated = derived_value_is_its_expression [OF ml parsed _ _ _ vs]
  show ?thesis
    using ml evaluated [of "\<lambda>t c. if c = ''median'' then VNum 6 else VNum 0"] evaluated [of "\<lambda>t c. if c = ''median'' then VNum 6 else VNum 4"]
    by (simp add: input_values_def policy_div_def)
qed

end
