(* ===== verification/Spec2Isabelle.thy ===== *)
theory Spec2Isabelle
  imports Prelude Errors Calendar Durations Datetimes Time_Formats Periods Semantic_Model Join_Planning
    Tiers Contract_Model Principals Finality Resolver Feedback Trust Decompose Time_Ranges Scoping Pipeline
    Offsets Contract_Validation Statements Leaf Compose Strategies
    Day_Frames Conversions Planning
begin

text \<open>
  \<^bold>\<open>Canonic\<close> is a semantic layer: a project declares sources (tables with columns, dimensions, measures
  and joins) and contracts (metric bindings, guardrails, finality rules, assertions, tenancy and
  roles); a query names metrics, dimensions and filters; the compiler turns it into one read-only SQL
  statement with metadata, and a trust tier is attached to the answer. This development models the
  deterministic core of \<^verbatim>\<open>src/canonic\<close> and proves what its callers rely on.

  \<^bold>\<open>How the parts interact.\<close> The loader validates contracts (\<open>Contract_Model\<close>, \<open>Finality\<close>) and sources
  (\<open>Semantic_Model\<close>). \<open>Resolver\<close> indexes the bindings and answers every question about canonicality,
  guardrails, tenancy and roles. A query (\<open>Time_Ranges\<close>) passes the gates of \<open>Pipeline\<close> under the policy
  of its principal (\<open>Principals\<close>); each leaf then looks its dimensions up, binds filters, adds tenant
  predicates and masks (\<open>Scoping\<close>) over a join plan (\<open>Join_Planning\<close>) and becomes a SELECT (\<open>Leaf\<close>, with the
  builders of \<open>Statements\<close>); an offset metric moves the time column of its leaves (\<open>Offsets\<close>). The planner of a
  metric's kind (\<open>Strategies\<close>, \<open>Day_Frames\<close>, \<open>Conversions\<close>, chosen in \<open>Planning\<close>) decides which leaves there are. Leaves with
  one plan are fused and joined over a spine of their dimension tuples (\<open>Compose\<close>). Before anything is served the
  contracts are checked against the sources (\<open>Contract_Validation\<close>). Served rows are rated by \<open>Trust\<close> from
  provenance, assertion verdicts and outcome marks (\<open>Feedback\<close>), finality and open periods (\<open>Periods\<close>). A
  change between two periods is explained by \<open>Decompose\<close>.

  \<^bold>\<open>Theories.\<close>
  \<^item> \<open>Prelude\<close>: results of fallible code (\<open>rbind\<close>, \<open>rfor\<close>, \<open>rmap\<close>), ordered dictionaries as association
    lists, Python string operations, decimal numerals, the lemma collections of the development.
  \<^item> \<open>Errors\<close>: \<^verbatim>\<open>exc.py\<close>, \<^verbatim>\<open>mcp/errors.py\<close>. The error codes, exit codes, exception classes, wire payload.
    Exit status and wire code determine each other.
  \<^item> \<open>Calendar\<close>, \<open>Datetimes\<close>: the standard library's dates and naive or offset date-times.
  \<^item> \<open>Durations\<close>: \<^verbatim>\<open>semantic/duration.py\<close>. Text round trip, floors and shifts of whole periods.
  \<^item> \<open>Time_Formats\<close>: \<^verbatim>\<open>semantic/time_format.py\<close>. Label round trip, text order is time order.
  \<^item> \<open>Periods\<close>: \<^verbatim>\<open>trust/periods.py\<close>. A period brackets its moments; unflagged rows are complete; when the
    end of a period raises.
  \<^item> \<open>Semantic_Model\<close>: \<^verbatim>\<open>semantic/models.py\<close>. Acceptance is well-formedness; reads of an accepted source
    cannot raise.
  \<^item> \<open>Join_Planning\<close>: \<^verbatim>\<open>compiler/joins.py\<close>. The alias tree and the path search are exact, a plan is connected,
    and when its tables match the declarations.
  \<^item> \<open>Tiers\<close>, \<open>Trust\<close>: \<^verbatim>\<open>trust/models.py\<close>, \<^verbatim>\<open>signals.py\<close>, \<^verbatim>\<open>scorer.py\<close>, \<^verbatim>\<open>freshness.py\<close>,
    \<^verbatim>\<open>compiler/trust_inputs.py\<close>. The score is the worst signal; trusted means every check passed; a composite
    is never above its components.
  \<^item> \<open>Contract_Model\<close>: \<^verbatim>\<open>contracts/models.py\<close>, \<^verbatim>\<open>contracts/kinds.py\<close>. Validators; the kind of a reference
    decides what it depends on.
  \<^item> \<open>Principals\<close>: \<^verbatim>\<open>contracts/principal.py\<close>. Tenant claims in canonical form, the policy predicates.
  \<^item> \<open>Finality\<close>: \<^verbatim>\<open>contracts/finality.py\<close>. Watermarks are business days and accepted rules evaluate.
  \<^item> \<open>Resolver\<close>: \<^verbatim>\<open>contracts/resolver.py\<close>, the duplicate check of \<^verbatim>\<open>contracts/loader.py\<close>. Resolution refines
    a cycle-free specification, names of a binding resolve alike, loaded bindings are unambiguous,
    roles decide as declared.
  \<^item> \<open>Feedback\<close>: \<^verbatim>\<open>feedback/*.py\<close>, the outcome events of \<^verbatim>\<open>instrumentation\<close>. Which marks act, when a binding is
    capped, evidence agrees with the audit report, snapshots keep the worst verdict.
  \<^item> \<open>Decompose\<close>: \<^verbatim>\<open>core/decompose_methods.py\<close>, \<^verbatim>\<open>core/decompose_models.py\<close>. The locale
    \<open>decomposition_method\<close> states the protocol the three methods share and is interpreted for each.
    Effects explain the change, exactly or within the tolerance of the parts.
  \<^item> \<open>Time_Ranges\<close>: \<^verbatim>\<open>compiler/query.py\<close>, \<^verbatim>\<open>compiler/time_range.py\<close>. Whole units of a relative range, values of
    structured filters stay in their literal.
  \<^item> \<open>Scoping\<close>: \<^verbatim>\<open>compiler/_helpers.py\<close>. Filters read no denied column, tenant predicates confine the rows,
    masking follows the columns a dimension reads.
  \<^item> \<open>Pipeline\<close>: the gates of \<^verbatim>\<open>compiler/pipeline.py\<close>. What a planned query has passed, guardrails of error
    severity, what a denied metric reveals, suggestions.
  \<^item> \<open>Offsets\<close>: \<^verbatim>\<open>strategies/offset.py\<close>. What moves under an offset; its prefilter drops no row of the range.
  \<^item> \<open>Contract_Validation\<close>: \<^verbatim>\<open>contracts/validate.py\<close>. Metrics of an accepted project resolve, the cycle check is
    exact, the walk over sources ends, offsets apply on every source, tenancy covers the sources.
  \<^item> \<open>Statements\<close>: the SELECT builders of \<^verbatim>\<open>compiler/_helpers.py\<close>. The branches of a finality union split the rows at
    the watermark.
  \<^item> \<open>Leaf\<close>: \<^verbatim>\<open>compiler/leaf.py\<close>. A leaf reads only tables it joins, a fanning join is deduplicated, equal
    filter keys select the same rows.
  \<^item> \<open>Compose\<close>: \<^verbatim>\<open>compiler/compose.py\<close>. Fusion keeps plans and columns, the composed statement has one row per
    tuple, what a guarded ratio means; with an evaluator for expressions, joins and unions.
  \<^item> \<open>Strategies\<close>: \<^verbatim>\<open>compiler/strategies\<close>. The planners and builders of the kinds of metric. The locale
    \<open>scoping_builder\<close> is what the leaf planner asks of the builder of a kind: every statement it builds reads what
    the leaf hoists or scans its tables under its conditions. It is interpreted for every builder.
  \<^item> \<open>Day_Frames\<close>: \<^verbatim>\<open>compiler/spine.py\<close>, \<^verbatim>\<open>strategies/rolling.py\<close>. The spine holds every day once, up to its
    bound; a trailing window adds up the values of its days; with an evaluator for grouped statements.
  \<^item> \<open>Conversions\<close>: \<^verbatim>\<open>strategies/conversion.py\<close>. What a conversion metric serves from its two sides.
  \<^item> \<open>Planning\<close>: the dispatch of \<^verbatim>\<open>pipeline.py\<close>. Every scan of a composed statement is under its tenant
    predicates, whatever the kinds of the metrics; a derived metric is its expression over its inputs.

  \<^bold>\<open>Conventions.\<close> A class is a record, an enum a datatype, a dict an association list in insertion order, a
  raise a value of \<open>exn\<close> on the left of a sum. Messages are kept as the values they interpolate. Strings are
  character lists of one-byte characters, floats of the source are rationals where the code only adds,
  multiplies and divides.

  \<^bold>\<open>Parameters.\<close> What the code calls outside the repository is an argument: the columns of an expression,
  the reader of \<^verbatim>\<open>sqlglot\<close> and the node constructors of a dialect adapter (record \<open>backend\<close>), the names of
  a derived expression, the ISO reader, the time zone offset, hashes, the order in which a set is
  iterated.

  \<^bold>\<open>Termination.\<close> Loops are terminating functions: path searches by the aliases not yet visited, resolution and
  the cycle check by the names not yet on their path, text scanners by the rest of the text. The walk over
  \<^verbatim>\<open>inherits\<close> of unvalidated roles may not end and is a partial function; for validated roles it is proved to
  return. The walks of \<^verbatim>\<open>validate.py\<close> that carry no visited set take fuel: \<open>DEPTH\<close> stands for the interpreter's
  recursion limit, running out of it is the \<open>RecursionError\<close> the interpreter raises, and for bindings that
  passed the cycle check a depth of the number of active metrics is proved to be enough.

  \<^bold>\<open>Not modelled.\<close> The \<^verbatim>\<open>restrict_source\<close> guardrail of \<^verbatim>\<open>strategies/simple_additive.py\<close>, the assembly of the result in
  \<^verbatim>\<open>pipeline.py\<close>, the probe of \<^verbatim>\<open>period_probe.py\<close> and the dialect adapters of \<^verbatim>\<open>dialect.py\<close>, which are parameters.
  Running totals and the ranking of conversions are built but not evaluated. Connectors, ingestion, knowledge
  pages, packs, evaluation, the CLI, the MCP server and configuration do I/O or drive third-party services and
  are left out.
\<close>

end
